(* ===== verification/Guard_Prelude.thy ===== *)
theory Guard_Prelude
  imports Main "HOL-Library.Sublist" "HOL-Library.Multiset"
begin

text \<open>
  Shared vocabulary of the development: results as sums with the error on the left (Rust's
  \<open>Result\<close>), the iterator idiom \<open>iter().map(f).collect::<Result<Vec<_>,_>>()\<close> as \<open>map_res\<close>,
  descending sort keys, and the list facts the components share.
  The collections \<open>res_simps\<close>, \<open>str_simps\<close> and \<open>db_simps\<close> gather rewrite rules for results,
  for the string operations and for the database statements.
\<close>

named_theorems res_simps
named_theorems str_simps
named_theorems db_simps

section \<open>Results\<close>

definition res_bind :: "'e + 'a \<Rightarrow> ('a \<Rightarrow> 'e + 'b) \<Rightarrow> 'e + 'b" where
  "res_bind r f = (case r of Inl e \<Rightarrow> Inl e | Inr x \<Rightarrow> f x)"

lemma res_bind_simps [simp, res_simps]:
  "res_bind (Inl e) f = Inl e"
  "res_bind (Inr x) f = f x"
  by (simp_all add: res_bind_def)

lemma res_bind_Inr_iff [res_simps]:
  "res_bind r f = Inr y \<longleftrightarrow> (\<exists>x. r = Inr x \<and> f x = Inr y)"
  by (cases r) auto

lemma res_bind_Inl_iff [res_simps]:
  "res_bind r f = Inl e \<longleftrightarrow> r = Inl e \<or> (\<exists>x. r = Inr x \<and> f x = Inl e)"
  by (cases r) auto

lemma res_bind_cong [fundef_cong]:
  "r = r' \<Longrightarrow> (\<And>x. r' = Inr x \<Longrightarrow> f x = g x) \<Longrightarrow> res_bind r f = res_bind r' g"
  by (cases r') auto

text \<open>\<open>Option::ok_or_else\<close>.\<close>

definition ok_or :: "'e \<Rightarrow> 'a option \<Rightarrow> 'e + 'a" where
  "ok_or e x = (case x of None \<Rightarrow> Inl e | Some a \<Rightarrow> Inr a)"

lemma ok_or_simps [simp, res_simps]:
  "ok_or e None = Inl e"
  "ok_or e (Some a) = Inr a"
  by (simp_all add: ok_or_def)

lemma ok_or_Inr_iff [res_simps]: "ok_or e x = Inr a \<longleftrightarrow> x = Some a"
  by (cases x) auto

text \<open>Collecting an iterator of results: the first error wins, later elements are not looked at.\<close>

fun map_res :: "('a \<Rightarrow> 'e + 'b) \<Rightarrow> 'a list \<Rightarrow> 'e + 'b list" where
  "map_res f [] = Inr []"
| "map_res f (x # xs) =
     (case f x of
        Inl e \<Rightarrow> Inl e
      | Inr y \<Rightarrow> (case map_res f xs of Inl e \<Rightarrow> Inl e | Inr ys \<Rightarrow> Inr (y # ys)))"

lemma map_res_Inr_iff: "map_res f xs = Inr ys \<longleftrightarrow> list_all2 (\<lambda>x y. f x = Inr y) xs ys"
proof (induction xs arbitrary: ys)
  case Nil
  then show ?case by auto
next
  case (Cons x xs)
  show ?case
  proof (cases "f x")
    case (Inl e)
    then show ?thesis by (auto simp: list_all2_Cons1)
  next
    case (Inr y)
    then show ?thesis
      by (cases "map_res f xs") (auto simp: list_all2_Cons1 Cons.IH [symmetric])
  qed
qed

lemma map_res_Inr_mem: "map_res f xs = Inr ys \<Longrightarrow> x \<in> set xs \<Longrightarrow> \<exists>y\<in>set ys. f x = Inr y"
  by (induction xs arbitrary: ys) (auto split: sum.splits)

lemma map_res_Inr_from: "map_res f xs = Inr ys \<Longrightarrow> y \<in> set ys \<Longrightarrow> \<exists>x\<in>set xs. f x = Inr y"
  by (induction xs arbitrary: ys) (auto split: sum.splits)

lemma map_res_total: "(\<And>x. x \<in> set xs \<Longrightarrow> f x = Inr (g x)) \<Longrightarrow> map_res f xs = Inr (map g xs)"
  by (induction xs) auto

lemma map_res_cong [fundef_cong]:
  "xs = ys \<Longrightarrow> (\<And>x. x \<in> set ys \<Longrightarrow> f x = g x) \<Longrightarrow> map_res f xs = map_res g ys"
proof (induction ys arbitrary: xs)
  case Nil
  then show ?case by simp
next
  case (Cons y ys)
  have "map_res f ys = map_res g ys" by (rule Cons.IH) (simp_all add: Cons.prems)
  moreover have "f y = g y" by (simp add: Cons.prems)
  ultimately show ?case by (simp only: Cons.prems(1) map_res.simps)
qed

lemma map_res_Inl:
  "map_res f xs = Inl e \<longleftrightarrow>
     (\<exists>us x vs. xs = us @ x # vs \<and> f x = Inl e \<and> (\<exists>ys. map_res f us = Inr ys))"
proof (induction xs)
  case Nil
  then show ?case by simp
next
  case (Cons x xs)
  show ?case
  proof (cases "f x")
    case (Inl e')
    have "(\<exists>us y vs. x # xs = us @ y # vs \<and> f y = Inl e \<and> (\<exists>ys. map_res f us = Inr ys)) \<longleftrightarrow> e' = e"
    proof
      assume "\<exists>us y vs. x # xs = us @ y # vs \<and> f y = Inl e \<and> (\<exists>ys. map_res f us = Inr ys)"
      then obtain us y vs where *: "x # xs = us @ y # vs" "f y = Inl e" "\<exists>ys. map_res f us = Inr ys"
        by blast
      with Inl show "e' = e" by (cases us) auto
    next
      assume "e' = e"
      with Inl show "\<exists>us y vs. x # xs = us @ y # vs \<and> f y = Inl e \<and> (\<exists>ys. map_res f us = Inr ys)"
        by (intro exI [of _ "[]"]) simp
    qed
    with Inl show ?thesis by auto
  next
    case (Inr b)
    have "(\<exists>us y vs. x # xs = us @ y # vs \<and> f y = Inl e \<and> (\<exists>ys. map_res f us = Inr ys)) \<longleftrightarrow>
      (\<exists>us y vs. xs = us @ y # vs \<and> f y = Inl e \<and> (\<exists>ys. map_res f us = Inr ys))" (is "?L \<longleftrightarrow> ?R")
    proof
      assume ?L
      then obtain us y vs ys where *: "x # xs = us @ y # vs" "f y = Inl e" "map_res f us = Inr ys"
        by blast
      with Inr obtain us' where "us = x # us'" by (cases us) auto
      with * Inr show ?R by (auto split: sum.splits)
    next
      assume ?R
      then obtain us y vs ys where "xs = us @ y # vs" "f y = Inl e" "map_res f us = Inr ys"
        by blast
      with Inr show ?L by (intro exI [of _ "x # us"]) auto
    qed
    with Inr Cons.IH show ?thesis by (auto split: sum.splits)
  qed
qed

lemma map_res_length: "map_res f xs = Inr ys \<Longrightarrow> length ys = length xs"
  by (auto simp: map_res_Inr_iff dest: list_all2_lengthD)

lemma map_res_map: "map_res f (map g xs) = map_res (\<lambda>x. f (g x)) xs"
  by (induction xs) (auto split: sum.splits)

section \<open>Descending sort keys\<close>

text \<open>\<open>ORDER BY k DESC\<close> is an ascending sort on \<open>Desc k\<close>.\<close>

datatype 'a desc = Desc (undesc: 'a)

instantiation desc :: (linorder) linorder
begin

definition less_eq_desc :: "'a desc \<Rightarrow> 'a desc \<Rightarrow> bool" where
  "less_eq_desc x y \<longleftrightarrow> undesc y \<le> undesc x"

definition less_desc :: "'a desc \<Rightarrow> 'a desc \<Rightarrow> bool" where
  "less_desc x y \<longleftrightarrow> undesc y < undesc x"

instance
  by standard (auto simp: less_eq_desc_def less_desc_def desc.expand)

end

lemma desc_le [simp]: "Desc x \<le> Desc y \<longleftrightarrow> y \<le> x"
  by (simp add: less_eq_desc_def)

lemma desc_less [simp]: "Desc x < Desc y \<longleftrightarrow> y < x"
  by (simp add: less_desc_def)

section \<open>Lists\<close>

lemma mset_eq_sort_key: "mset xs = mset ys \<Longrightarrow> mset (sort_key k xs) = mset ys"
  by simp

lemma set_sort_key_mset: "mset xs = mset ys \<Longrightarrow> set (sort_key k xs) = set ys"
  by (metis mset_eq_setD set_sort)

lemma list_all2_mem: "list_all2 P xs ys \<Longrightarrow> y \<in> set ys \<Longrightarrow> \<exists>x\<in>set xs. P x y"
  by (induction rule: list_all2_induct) auto

lemma sorted_wrt_list_all2:
  "list_all2 F xs ys \<Longrightarrow> sorted_wrt R xs \<Longrightarrow>
     (\<And>a b c d. R a b \<Longrightarrow> F a c \<Longrightarrow> F b d \<Longrightarrow> S c d) \<Longrightarrow> sorted_wrt S ys"
proof (induction rule: list_all2_induct)
  case (Cons x xs y ys)
  have "S y d" if "d \<in> set ys" for d
  proof -
    from list_all2_mem [OF Cons.hyps(2) that] obtain b where "b \<in> set xs" "F b d" by blast
    then show ?thesis using Cons.prems Cons.hyps(1) by auto
  qed
  with Cons show ?case by simp
qed simp

lemma distinct_map_filter_set: "distinct (map k xs) \<Longrightarrow> distinct (map k (filter P xs))"
  by (induction xs) auto

lemma distinct_map_unique:
  "distinct (map k xs) \<Longrightarrow> x \<in> set xs \<Longrightarrow> y \<in> set xs \<Longrightarrow> k x = k y \<Longrightarrow> x = y"
  by (induction xs) (auto simp: rev_image_eqI)

lemma find_Some_unique:
  "distinct (map k xs) \<Longrightarrow> x \<in> set xs \<Longrightarrow> List.find (\<lambda>y. k y = k x) xs = Some x"
  by (induction xs) (auto simp: rev_image_eqI)

lemma find_None_notin: "List.find (\<lambda>y. k y = a) xs = None \<longleftrightarrow> a \<notin> k ` set xs"
  by (induction xs) auto

lemma find_append:
  "List.find P (xs @ ys) = (case List.find P xs of Some x \<Rightarrow> Some x | None \<Rightarrow> List.find P ys)"
  by (induction xs) auto

lemma find_Some_split:
  "List.find P xs = Some x \<longleftrightarrow> (\<exists>us vs. xs = us @ x # vs \<and> P x \<and> (\<forall>u\<in>set us. \<not> P u))"
proof
  show "\<exists>us vs. xs = us @ x # vs \<and> P x \<and> (\<forall>u\<in>set us. \<not> P u)" if "List.find P xs = Some x"
    using that
  proof (induction xs)
    case (Cons y ys)
    show ?case
    proof (cases "P y")
      case True
      with Cons.prems show ?thesis by (intro exI [of _ "[]"] exI [of _ ys]) simp
    next
      case False
      with Cons obtain us vs where "ys = us @ x # vs" "P x" "\<forall>u\<in>set us. \<not> P u" by auto
      with False show ?thesis by (intro exI [of _ "y # us"] exI [of _ vs]) simp
    qed
  qed simp
  show "List.find P xs = Some x" if "\<exists>us vs. xs = us @ x # vs \<and> P x \<and> (\<forall>u\<in>set us. \<not> P u)"
  proof -
    from that obtain us vs where *: "xs = us @ x # vs" "P x" "\<forall>u\<in>set us. \<not> P u" by blast
    then have "List.find P us = None" by (simp add: find_None_iff)
    with * show ?thesis by (simp add: find_append)
  qed
qed

end
