(* ===== verification/Rust_Std.thy ===== *)
theory Rust_Std
  imports Guard_Prelude
begin

text \<open>
  The part of Rust's standard library on strings that the source calls.
  A Rust \<open>String\<close> is modelled as the list of its Unicode scalar values, so that \<open>chars()\<close> is the
  list itself and slicing at the byte offset that \<open>find\<close> or \<open>starts_with\<close> returned is \<open>drop\<close> of
  the corresponding number of scalars. HOL's \<open>char\<close> has 256 values: the scalars U+0000 to U+00FF.
  UTF-8 encoding (\<open>as_bytes\<close>) occurs only on the way into external functions.
\<close>

section \<open>Searching and slicing\<close>

text \<open>\<open>s.strip_prefix(p)\<close>: \<open>s.starts_with(p)\<close> and the remainder \<open>&s[p.len()..]\<close> in one.\<close>

fun strip_prefix :: "string \<Rightarrow> string \<Rightarrow> string option" where
  "strip_prefix [] s = Some s"
| "strip_prefix (c # p) [] = None"
| "strip_prefix (c # p) (d # s) = (if c = d then strip_prefix p s else None)"

definition starts_with :: "string \<Rightarrow> string \<Rightarrow> bool" where
  "starts_with s p \<longleftrightarrow> strip_prefix p s \<noteq> None"

definition ends_with_char :: "string \<Rightarrow> char \<Rightarrow> bool" where
  "ends_with_char s c \<longleftrightarrow> s \<noteq> [] \<and> last s = c"

text \<open>\<open>s.find(p)\<close>: the leftmost occurrence.\<close>

fun str_find :: "string \<Rightarrow> string \<Rightarrow> nat option" where
  "str_find p [] = (if p = [] then Some 0 else None)"
| "str_find p (d # s) =
     (if strip_prefix p (d # s) \<noteq> None then Some 0 else map_option Suc (str_find p s))"

definition str_contains :: "string \<Rightarrow> string \<Rightarrow> bool" where
  "str_contains s p \<longleftrightarrow> str_find p s \<noteq> None"

text \<open>\<open>s.split(c)\<close> for a single character: one piece more than there are separators.\<close>

fun str_split :: "char \<Rightarrow> string \<Rightarrow> string list" where
  "str_split c [] = [[]]"
| "str_split c (d # s) =
     (if d = c then [] # str_split c s
      else (case str_split c s of [] \<Rightarrow> [[d]] | p # ps \<Rightarrow> (d # p) # ps))"

text \<open>\<open>s.split_once(c)\<close>.\<close>

fun split_once :: "char \<Rightarrow> string \<Rightarrow> (string \<times> string) option" where
  "split_once c [] = None"
| "split_once c (d # s) =
     (if d = c then Some ([], s) else map_option (\<lambda>(l, r). (d # l, r)) (split_once c s))"

text \<open>\<open>s.replace(c, r)\<close> for a single character.\<close>

definition replace_char :: "char \<Rightarrow> string \<Rightarrow> string \<Rightarrow> string" where
  "replace_char c r s = concat (map (\<lambda>d. if d = c then r else [d]) s)"

section \<open>Character classes\<close>

text \<open>\<open>char::is_whitespace\<close> on U+0000 to U+00FF.\<close>

definition is_whitespace :: "char \<Rightarrow> bool" where
  "is_whitespace c \<longleftrightarrow>
     (let n = (of_char c :: nat) in (9 \<le> n \<and> n \<le> 13) \<or> n = 32 \<or> n = 133 \<or> n = 160)"

definition str_trim :: "string \<Rightarrow> string" where
  "str_trim s = rev (dropWhile is_whitespace (rev (dropWhile is_whitespace s)))"

definition to_ascii_lower :: "char \<Rightarrow> char" where
  "to_ascii_lower c =
     (let n = (of_char c :: nat) in if 65 \<le> n \<and> n \<le> 90 then char_of (n + 32) else c)"

definition to_ascii_lowercase :: "string \<Rightarrow> string" where
  "to_ascii_lowercase s = map to_ascii_lower s"

section \<open>Decimal numbers\<close>

definition digit_char :: "nat \<Rightarrow> char" where
  "digit_char d = char_of (48 + d)"

text \<open>\<open>Display\<close> of an unsigned integer.\<close>

fun show_nat :: "nat \<Rightarrow> string" where
  "show_nat n = (if n < 10 then [digit_char n] else show_nat (n div 10) @ [digit_char (n mod 10)])"

declare show_nat.simps [simp del]

definition show_int :: "int \<Rightarrow> string" where
  "show_int i = (if i < 0 then ''-'' @ show_nat (nat (- i)) else show_nat (nat i))"

text \<open>
  \<open>str::parse\<close> for the unsigned integer types (\<open>FromStr\<close>): an optional plus sign, decimal digits,
  and a value below \<open>2 ^ w\<close>. The error is its \<open>Display\<close> text.
\<close>

definition digit_value :: "char \<Rightarrow> nat option" where
  "digit_value c = (let n = of_char c in if 48 \<le> n \<and> n \<le> 57 then Some (n - 48) else None)"

fun parse_digits :: "nat \<Rightarrow> nat \<Rightarrow> string \<Rightarrow> string + nat" where
  "parse_digits w acc [] = Inr acc"
| "parse_digits w acc (c # s) =
     (case digit_value c of
        None \<Rightarrow> Inl ''invalid digit found in string''
      | Some d \<Rightarrow>
          (if 10 * acc + d < 2 ^ w then parse_digits w (10 * acc + d) s
           else Inl ''number too large to fit in target type''))"

fun parse_uint :: "nat \<Rightarrow> string \<Rightarrow> string + nat" where
  "parse_uint w [] = Inl ''cannot parse integer from empty string''"
| "parse_uint w (c # s) =
     (if c = CHR ''+'' \<and> s \<noteq> [] then parse_digits w 0 s else parse_digits w 0 (c # s))"

section \<open>Facts\<close>

lemma strip_prefix_Some [str_simps]: "strip_prefix p s = Some r \<longleftrightarrow> s = p @ r"
  by (induction p s rule: strip_prefix.induct) auto

lemma strip_prefix_None [str_simps]: "strip_prefix p s = None \<longleftrightarrow> (\<forall>r. s \<noteq> p @ r)"
  by (metis not_Some_eq strip_prefix_Some)

lemma str_find_Some_occurs:
  "str_find p s = Some i \<Longrightarrow> i + length p \<le> length s \<and> s = take i s @ p @ drop (i + length p) s"
proof (induction s arbitrary: i)
  case Nil
  then show ?case by (auto split: if_splits)
next
  case (Cons d s)
  show ?case
  proof (cases "strip_prefix p (d # s)")
    case None
    with Cons.prems obtain j where "str_find p s = Some j" "i = Suc j" by auto
    with Cons.IH show ?thesis by auto
  next
    case (Some r)
    then have "d # s = p @ r" by (simp add: strip_prefix_Some)
    moreover from Cons.prems Some have "i = 0" by simp
    ultimately show ?thesis by (metis append_eq_conv_conj append_self_conv2 append_take_drop_id
          le_add1 length_append plus_nat.add_0 take0)
  qed
qed

lemma str_find_leftmost:
  "s = x @ p @ r \<Longrightarrow> \<exists>i. str_find p s = Some i \<and> i \<le> length x"
proof (induction x arbitrary: s)
  case Nil
  then have pre: "strip_prefix p s = Some r" by (simp add: strip_prefix_Some)
  have "str_find p s = Some 0"
  proof (cases s)
    case Nil
    with pre show ?thesis by (cases p) simp_all
  next
    case (Cons d s')
    with pre show ?thesis by simp
  qed
  then show ?case by simp
next
  case (Cons d x)
  then obtain i where "str_find p (x @ p @ r) = Some i" "i \<le> length x" by blast
  with Cons.prems show ?case by (cases "strip_prefix p s") auto
qed

lemma str_contains_iff: "str_contains s p \<longleftrightarrow> (\<exists>x r. s = x @ p @ r)"
  unfolding str_contains_def using str_find_Some_occurs str_find_leftmost by fastforce

lemma str_split_nonempty [simp]: "str_split c s \<noteq> []"
  by (cases s) (auto split: list.split)

lemma str_split_pieces: "q \<in> set (str_split c s) \<Longrightarrow> c \<notin> set q"
  by (induction s arbitrary: q) (fastforce split: if_splits list.splits)+

lemma split_once_Some: "split_once c s = Some (l, r) \<longleftrightarrow> s = l @ c # r \<and> c \<notin> set l"
proof (induction s arbitrary: l)
  case Nil
  then show ?case by simp
next
  case (Cons d s)
  show ?case
  proof (cases "d = c")
    case True
    then show ?thesis by (cases l) auto
  next
    case False
    then show ?thesis
      by (cases l) (auto simp: Cons.IH)
  qed
qed

lemma split_once_None: "split_once c s = None \<longleftrightarrow> c \<notin> set s"
  by (induction s) auto

lemma replace_char_append: "replace_char c r (s @ t) = replace_char c r s @ replace_char c r t"
  by (simp add: replace_char_def)

lemma replace_char_Cons [simp]:
  "replace_char c r (d # s) = (if d = c then r else [d]) @ replace_char c r s"
  by (simp add: replace_char_def)

lemma replace_char_Nil [simp]: "replace_char c r [] = []"
  by (simp add: replace_char_def)

lemma replace_char_id: "c \<notin> set s \<Longrightarrow> replace_char c r s = s"
  by (induction s) auto

lemma show_nat_nonempty [simp]: "show_nat n \<noteq> []" "[] \<noteq> show_nat n"
  by (subst show_nat.simps, simp)+

lemma digit_char_inj: "d < 10 \<Longrightarrow> e < 10 \<Longrightarrow> digit_char d = digit_char e \<Longrightarrow> d = e"
  by (auto simp: digit_char_def char_of_eq_iff take_bit_eq_mod)

lemma digit_value_digit_char [simp]: "d < 10 \<Longrightarrow> digit_value (digit_char d) = Some d"
  by (simp add: digit_value_def digit_char_def Let_def of_char_of)

lemma show_nat_inj: "show_nat m = show_nat n \<Longrightarrow> m = n"
proof (induction m arbitrary: n rule: show_nat.induct)
  case (1 m)
  show ?case
  proof (cases "m < 10")
    case True
    with "1.prems" have "n < 10"
      by (cases "n < 10") (simp_all add: show_nat.simps [of m] show_nat.simps [of n])
    with True "1.prems" show ?thesis
      by (auto simp: show_nat.simps [of m] show_nat.simps [of n] dest: digit_char_inj)
  next
    case False
    with "1.prems" have n: "\<not> n < 10"
      by (cases "n < 10") (auto simp: show_nat.simps [of m] show_nat.simps [of n])
    with False "1.prems" have *: "show_nat (m div 10) = show_nat (n div 10)"
        "digit_char (m mod 10) = digit_char (n mod 10)"
      by (simp_all add: show_nat.simps [of m] show_nat.simps [of n])
    have "m div 10 = n div 10" using "1.IH" [OF False] *(1) by blast
    moreover have "m mod 10 = n mod 10" using *(2) by (auto dest: digit_char_inj [rotated 2])
    ultimately show ?thesis by (metis div_mult_mod_eq)
  qed
qed

lemma parse_digits_append:
  "parse_digits w acc (s @ t) = res_bind (parse_digits w acc s) (\<lambda>acc'. parse_digits w acc' t)"
  by (induction s arbitrary: acc) (auto split: option.splits)

lemma parse_digits_show_nat: "n < 2 ^ w \<Longrightarrow> parse_digits w 0 (show_nat n) = Inr n"
proof (induction n rule: show_nat.induct)
  case (1 n)
  show ?case
  proof (cases "n < 10")
    case True
    with "1.prems" show ?thesis by (simp add: show_nat.simps [of n])
  next
    case False
    moreover from "1.prems" have "n div 10 < 2 ^ w"
      by (meson div_le_dividend order_le_less_trans)
    ultimately show ?thesis using "1.IH" "1.prems"
      by (simp add: show_nat.simps [of n] parse_digits_append)
  qed
qed

lemma parse_digits_bound: "parse_digits w acc s = Inr n \<Longrightarrow> acc < 2 ^ w \<Longrightarrow> n < 2 ^ w"
  by (induction s arbitrary: acc) (auto split: option.splits if_splits)

lemma parse_uint_bound: "parse_uint w s = Inr n \<Longrightarrow> n < 2 ^ w"
  by (cases s) (auto simp del: parse_digits.simps split: if_splits dest: parse_digits_bound)

lemma show_nat_first_not_plus: "show_nat n = c # s \<Longrightarrow> c \<noteq> CHR ''+''"
proof (induction n arbitrary: s rule: show_nat.induct)
  case (1 n)
  have d: "digit_char d \<noteq> CHR ''+''" if "d < 10" for d
  proof
    assume "digit_char d = CHR ''+''"
    then have "digit_value (CHR ''+'') = Some d" using that by (metis digit_value_digit_char)
    then show False by (simp add: digit_value_def)
  qed
  show ?case
  proof (cases "n < 10")
    case True
    with "1.prems" d show ?thesis by (auto simp: show_nat.simps [of n])
  next
    case False
    then have "show_nat (n div 10) @ [digit_char (n mod 10)] = c # s"
      using "1.prems" by (simp add: show_nat.simps [of n])
    then obtain s' where "show_nat (n div 10) = c # s'"
      by (cases "show_nat (n div 10)") auto
    with "1.IH" [OF False] show ?thesis by blast
  qed
qed

lemma parse_uint_show_nat: "n < 2 ^ w \<Longrightarrow> parse_uint w (show_nat n) = Inr n"
proof -
  assume n: "n < 2 ^ w"
  obtain c s where cs: "show_nat n = c # s" by (cases "show_nat n") auto
  then have "c \<noteq> CHR ''+''" by (rule show_nat_first_not_plus)
  with cs n parse_digits_show_nat [of n w] show ?thesis by simp
qed

end
