(* ===== verification/Pattern.thy ===== *)
theory Pattern
  imports Rust_Std
begin

text \<open>
  The field-pattern matcher of \<open>src/masking/mod.rs\<close> (\<open>matches_pattern\<close>) and its relation to the
  meaning of a glob pattern: \<open>*\<close> stands for any string, every other character for itself. The
  matcher searches each piece between stars at its leftmost position and never reconsiders;
  the lemmas say where that agrees with the glob and where it does not.
\<close>

section \<open>The matcher\<close>

text \<open>The \<open>for part in parts\<close> loop; the result is the final \<open>remainder\<close>, \<open>None\<close> the early
  \<open>return false\<close>.\<close>

fun match_parts :: "bool \<Rightarrow> bool \<Rightarrow> string list \<Rightarrow> string \<Rightarrow> string option" where
  "match_parts first anchored_start [] remainder = Some remainder"
| "match_parts first anchored_start (part # parts) remainder =
     (if first \<and> anchored_start then
        (case strip_prefix part remainder of
           None \<Rightarrow> None
         | Some remainder' \<Rightarrow> match_parts False anchored_start parts remainder')
      else
        (case str_find part remainder of
           None \<Rightarrow> None
         | Some index \<Rightarrow>
             match_parts False anchored_start parts (drop (index + length part) remainder)))"

definition matches_pattern :: "string \<Rightarrow> string \<Rightarrow> bool" where
  "matches_pattern pattern value =
     (if pattern = ''*'' \<or> pattern = value then True
      else
        let parts = filter (\<lambda>part. part \<noteq> []) (str_split (CHR ''*'') pattern);
            anchored_start = (\<not> starts_with pattern ''*'');
            anchored_end = (\<not> ends_with_char pattern (CHR ''*''))
        in (case match_parts True anchored_start parts value of
              None \<Rightarrow> False
            | Some remainder \<Rightarrow> \<not> anchored_end \<or> remainder = []))"

section \<open>The meaning of a pattern\<close>

fun glob :: "string \<Rightarrow> string \<Rightarrow> bool" where
  "glob [] s = (s = [])"
| "glob (c # p) s =
     (if c = CHR ''*'' then list_ex (glob p) (suffixes s)
      else (case s of [] \<Rightarrow> False | d # s' \<Rightarrow> c = d \<and> glob p s'))"

lemma glob_star: "glob (CHR ''*'' # p) s \<longleftrightarrow> (\<exists>x r. s = x @ r \<and> glob p r)"
  by (fastforce simp: list_ex_iff suffix_def)

lemma glob_char: "c \<noteq> CHR ''*'' \<Longrightarrow> glob (c # p) s \<longleftrightarrow> (\<exists>r. s = c # r \<and> glob p r)"
  by (cases s) auto

declare glob.simps(2) [simp del]

text \<open>A pattern in pieces: the pieces after the first are each preceded by a star.\<close>

fun tail_match :: "string list \<Rightarrow> string \<Rightarrow> bool" where
  "tail_match [] r \<longleftrightarrow> r = []"
| "tail_match (q # qs) r \<longleftrightarrow> (\<exists>x r'. r = x @ q @ r' \<and> tail_match qs r')"

lemma glob_pieces:
  "glob p s \<longleftrightarrow> (\<exists>r. s = hd (str_split (CHR ''*'') p) @ r \<and> tail_match (tl (str_split (CHR ''*'') p)) r)"
proof (induction p arbitrary: s)
  case Nil
  then show ?case by simp
next
  case (Cons c p)
  obtain q qs where sp: "str_split (CHR ''*'') p = q # qs"
    by (cases "str_split (CHR ''*'') p") auto
  show ?case
  proof (cases "c = CHR ''*''")
    case True
    have "glob (c # p) s \<longleftrightarrow> (\<exists>x r. s = x @ r \<and> glob p r)" by (simp only: True glob_star)
    also have "\<dots> \<longleftrightarrow> (\<exists>x r'. s = x @ q @ r' \<and> tail_match qs r')"
      by (auto simp: Cons.IH sp)
    finally show ?thesis by (simp add: True sp)
  next
    case False
    then show ?thesis by (auto simp: glob_char Cons.IH sp)
  qed
qed

text \<open>The same with an open end: anything may follow the last piece.\<close>

fun open_match :: "string list \<Rightarrow> string \<Rightarrow> bool" where
  "open_match [] r \<longleftrightarrow> True"
| "open_match (q # qs) r \<longleftrightarrow> (\<exists>x r'. r = x @ q @ r' \<and> open_match qs r')"

lemma open_match_suffix: "open_match qs r \<Longrightarrow> open_match qs (x @ r)"
proof (cases qs)
  case (Cons q qs')
  assume "open_match qs r"
  with Cons obtain y r' where "r = y @ q @ r'" "open_match qs' r'" by auto
  then have "x @ r = (x @ y) @ q @ r'" "open_match qs' r'" by simp_all
  with Cons show ?thesis unfolding Cons open_match.simps by blast
qed simp

lemma open_match_filter: "open_match (filter (\<lambda>q. q \<noteq> []) qs) r \<longleftrightarrow> open_match qs r"
proof (induction qs arbitrary: r)
  case (Cons q qs)
  show ?case
  proof (cases "q = []")
    case True
    have "open_match qs r \<longleftrightarrow> (\<exists>x r'. r = x @ r' \<and> open_match qs r')"
      by (metis append_Nil open_match_suffix)
    with True Cons.IH show ?thesis by simp
  next
    case False
    then show ?thesis by (simp add: Cons.IH)
  qed
qed simp

lemma tail_match_filter_end:
  "tail_match (filter (\<lambda>q. q \<noteq> []) qs) r \<Longrightarrow> tail_match (qs :: string list) r"
proof (induction qs arbitrary: r)
  case (Cons q qs)
  show ?case
  proof (cases "q = []")
    case True
    with Cons have "tail_match qs r" by simp
    with True show ?thesis by (auto intro: exI [of _ "[]"])
  next
    case False
    with Cons show ?thesis by auto
  qed
qed simp

text \<open>A last empty piece (a trailing star) leaves the end open.\<close>

lemma tail_match_open:
  "qs \<noteq> [] \<Longrightarrow> last qs = [] \<Longrightarrow> tail_match qs r \<longleftrightarrow> open_match qs r"
proof (induction qs arbitrary: r)
  case (Cons q qs)
  show ?case
  proof (cases "qs = []")
    case True
    with Cons.prems have "q = []" by simp
    with True show ?thesis by auto
  next
    case False
    with Cons show ?thesis by simp
  qed
qed simp

section \<open>The greedy loop\<close>

lemma match_parts_not_first:
  "match_parts first anchored parts r = Some rem \<Longrightarrow> \<not> (first \<and> anchored) \<Longrightarrow>
     \<exists>x. r = x @ rem \<and> (\<forall>qs. tail_match qs rem \<longrightarrow> tail_match (parts @ qs) r)"
proof (induction parts arbitrary: first r)
  case Nil
  then show ?case by simp
next
  case (Cons p ps)
  from Cons.prems(2) have nf: "\<not> (first \<and> anchored)" .
  from Cons.prems nf obtain i where i: "str_find p r = Some i"
    "match_parts False anchored ps (drop (i + length p) r) = Some rem"
    by (auto split: option.splits)
  from str_find_Some_occurs [OF i(1)] have r: "r = take i r @ p @ drop (i + length p) r" by simp
  from Cons.IH [OF i(2)] obtain x where x: "drop (i + length p) r = x @ rem"
    "\<And>qs. tail_match qs rem \<Longrightarrow> tail_match (ps @ qs) (drop (i + length p) r)" by auto
  have "r = (take i r @ p @ x) @ rem" using r x(1) by (metis append.assoc)
  moreover have "tail_match ((p # ps) @ qs) r" if "tail_match qs rem" for qs
    using r x(2) [OF that] by auto
  ultimately show ?case by blast
qed

lemma match_parts_open_complete:
  "open_match parts r \<Longrightarrow> \<not> (first \<and> anchored) \<Longrightarrow> \<exists>rem. match_parts first anchored parts r = Some rem"
proof (induction parts arbitrary: first r)
  case Nil
  then show ?case by simp
next
  case (Cons p ps)
  from Cons.prems obtain x r' where r: "r = x @ p @ r'" and o: "open_match ps r'" by auto
  from str_find_leftmost [OF r] obtain i where i: "str_find p r = Some i" "i \<le> length x" by blast
  have "drop (i + length p) r = drop (i + length p) (x @ p) @ r'" using r i(2) by simp
  with o have "open_match ps (drop (i + length p) r)" using open_match_suffix by metis
  then obtain rem where "match_parts False anchored ps (drop (i + length p) r) = Some rem"
    using Cons.IH by blast
  moreover have "\<not> (first \<and> anchored)" by (rule Cons.prems(2))
  ultimately show ?case using i(1) by auto
qed

text \<open>The first piece of a pattern and the two anchors, in terms of the split.\<close>

lemma split_star_start: "starts_with p ''*'' \<longleftrightarrow> p \<noteq> [] \<and> hd (str_split (CHR ''*'') p) = []"
  by (cases p) (auto simp: starts_with_def split: list.splits)

lemma split_star_end: "last (str_split c p) = [] \<longleftrightarrow> p = [] \<or> last p = c"
proof (induction p)
  case Nil
  then show ?case by simp
next
  case (Cons d p)
  obtain q qs where sp: "str_split c p = q # qs" by (cases "str_split c p") auto
  have nil: "p = [] \<longleftrightarrow> str_split c p = [[]]"
    by (cases p) (auto split: list.splits)
  show ?case using Cons.IH sp nil by (auto split: if_splits)
qed

lemma split_single: "tl (str_split c p) = [] \<longleftrightarrow> c \<notin> set p"
proof (induction p)
  case (Cons d p)
  then show ?case by (cases "str_split c p") auto
qed simp

lemma hd_split_no_star: "c \<notin> set p \<Longrightarrow> str_split c p = [p]"
  by (induction p) auto

lemma match_parts_open_iff:
  "\<not> (first \<and> anchored) \<Longrightarrow> match_parts first anchored parts r \<noteq> None \<longleftrightarrow> open_match parts r"
proof
  assume nf: "\<not> (first \<and> anchored)"
  show "match_parts first anchored parts r \<noteq> None" if "open_match parts r"
    using match_parts_open_complete [OF that nf] by auto
  show "open_match parts r" if "match_parts first anchored parts r \<noteq> None"
  proof -
    from that obtain rem where "match_parts first anchored parts r = Some rem" by blast
    from match_parts_not_first [OF this nf] have "tail_match (parts @ [[]]) r" by auto
    then have "open_match (parts @ [[]]) r" by (simp add: tail_match_open)
    moreover have "open_match (parts @ [[]]) r \<Longrightarrow> open_match parts r"
      by (induction parts arbitrary: r) auto
    ultimately show ?thesis by blast
  qed
qed

text \<open>The matcher case by case, in terms of the pieces \<open>q # qs\<close> of the pattern.\<close>

lemma matches_pattern_star_start:
  assumes "str_split (CHR ''*'') p = [] # qs" "p \<noteq> v" "p \<noteq> []"
  shows "matches_pattern p v \<longleftrightarrow>
     (case match_parts True False (filter (\<lambda>q. q \<noteq> []) qs) v of
        None \<Rightarrow> False | Some rem \<Rightarrow> last qs = [] \<or> rem = [])"
proof -
  have st: "starts_with p ''*''" using assms by (simp add: split_star_start)
  have qs: "qs \<noteq> []"
    using assms(1,3) hd_split_no_star [of "CHR ''*''" p] split_single [of "CHR ''*''" p] by auto
  then have e: "ends_with_char p (CHR ''*'') \<longleftrightarrow> last qs = []"
    using split_star_end [of "CHR ''*''" p] assms by (simp add: ends_with_char_def)
  show ?thesis
  proof (cases "p = ''*''")
    case True
    with assms have "qs = [[]]" by simp
    with True show ?thesis by (simp add: matches_pattern_def)
  next
    case False
    then show ?thesis
      using st e assms by (auto simp: matches_pattern_def Let_def split: option.split)
  qed
qed

lemma matches_pattern_anchored:
  assumes "str_split (CHR ''*'') p = q # qs" "q \<noteq> []" "p \<noteq> v"
  shows "matches_pattern p v \<longleftrightarrow>
     (case strip_prefix q v of
        None \<Rightarrow> False
      | Some r \<Rightarrow>
          (case match_parts False True (filter (\<lambda>q. q \<noteq> []) qs) r of
             None \<Rightarrow> False | Some rem \<Rightarrow> (qs \<noteq> [] \<and> last qs = []) \<or> rem = []))"
proof -
  have st: "\<not> starts_with p ''*''" using assms by (simp add: split_star_start)
  then have ne: "p \<noteq> ''*''" by (auto simp: starts_with_def)
  have e: "ends_with_char p (CHR ''*'') \<longleftrightarrow> qs \<noteq> [] \<and> last qs = []"
    using split_star_end [of "CHR ''*''" p] assms
    by (cases "qs = []") (auto simp: ends_with_char_def)
  show ?thesis
    using st e ne assms
    by (auto simp: matches_pattern_def Let_def split: option.splits)
qed

lemma glob_self: "glob p p"
proof (induction p)
  case (Cons c p)
  show ?case
  proof (cases "c = CHR ''*''")
    case True
    then show ?thesis using Cons.IH by (metis append_Cons append_Nil glob_star)
  next
    case False
    with Cons.IH show ?thesis by (simp add: glob_char)
  qed
qed simp

lemma match_parts_tail:
  assumes "match_parts first anchored (filter (\<lambda>q. q \<noteq> []) qs) r = Some rem" "\<not> (first \<and> anchored)"
    "(qs \<noteq> [] \<and> last qs = []) \<or> rem = []"
  shows "tail_match qs r"
proof (cases "qs \<noteq> [] \<and> last qs = []")
  case True
  have "open_match (filter (\<lambda>q. q \<noteq> []) qs) r"
    using assms(1) match_parts_open_iff [OF assms(2), of "filter (\<lambda>q. q \<noteq> []) qs" r] by simp
  with True show ?thesis by (simp add: tail_match_open open_match_filter)
next
  case False
  with assms(3) have "rem = []" by blast
  with match_parts_not_first [OF assms(1,2)]
  have "tail_match (filter (\<lambda>q. q \<noteq> []) qs @ []) r" by (auto dest: spec [of _ "[]"])
  then show ?thesis by (simp add: tail_match_filter_end)
qed

lemma matches_pattern_sound: "matches_pattern p v \<Longrightarrow> glob p v"
proof (cases "p = v \<or> p = []")
  case True
  then show "matches_pattern p v \<Longrightarrow> ?thesis"
    using glob_self by (auto simp: matches_pattern_def starts_with_def ends_with_char_def split: if_splits)
next
  case False
  obtain q qs where sp: "str_split (CHR ''*'') p = q # qs"
    by (cases "str_split (CHR ''*'') p") auto
  assume m: "matches_pattern p v"
  show ?thesis
  proof (cases "q = []")
    case True
    have "qs \<noteq> []" using False True sp split_single [of "CHR ''*''" p] hd_split_no_star [of "CHR ''*''" p]
      by auto
    with m False True sp have "tail_match qs v"
      using matches_pattern_star_start [of p qs v] match_parts_tail [of True False qs v]
      by (auto split: option.splits)
    with True show ?thesis by (simp add: glob_pieces sp)
  next
    case False': False
    from m False sp False' obtain r where r: "v = q @ r" "tail_match qs r"
      using matches_pattern_anchored [of p q qs v] match_parts_tail [of False True qs]
      by (auto simp: strip_prefix_Some split: option.splits)
    then show ?thesis by (simp add: glob_pieces sp)
  qed
qed

lemma matches_pattern_open_end:
  assumes "p \<noteq> []" "last p = CHR ''*''"
  shows "matches_pattern p v \<longleftrightarrow> glob p v"
proof (cases "p = v")
  case True
  then show ?thesis using glob_self by (simp add: matches_pattern_def)
next
  case False
  obtain q qs where sp: "str_split (CHR ''*'') p = q # qs"
    by (cases "str_split (CHR ''*'') p") auto
  have "CHR ''*'' \<in> set p" using assms last_in_set by metis
  then have qs: "qs \<noteq> []" using split_single [of "CHR ''*''" p] sp by auto
  then have l: "last qs = []" using split_star_end [of "CHR ''*''" p] assms sp by simp
  have om: "match_parts first anc (filter (\<lambda>q. q \<noteq> []) qs) r \<noteq> None \<longleftrightarrow> tail_match qs r"
    if "\<not> (first \<and> anc)" for first anc r
    using match_parts_open_iff [OF that] tail_match_open [OF qs l] open_match_filter by metis
  show ?thesis
  proof (cases "q = []")
    case True
    show ?thesis
      using matches_pattern_star_start [of p qs v] om [of True False v] False True sp l assms
      by (auto simp: glob_pieces sp split: option.splits)
  next
    case False'': False
    show ?thesis
    proof (cases "strip_prefix q v")
      case None
      then have "\<not> matches_pattern p v"
        using matches_pattern_anchored [OF sp False'' False] by simp
      moreover from None have "\<forall>r. v \<noteq> q @ r" by (simp add: strip_prefix_None)
      ultimately show ?thesis by (simp add: glob_pieces sp)
    next
      case (Some r)
      then have "v = q @ r" by (simp add: strip_prefix_Some)
      then have "glob p v \<longleftrightarrow> tail_match qs r" by (simp add: glob_pieces sp)
      moreover have "matches_pattern p v \<longleftrightarrow> match_parts False True (filter (\<lambda>q. q \<noteq> []) qs) r \<noteq> None"
        using matches_pattern_anchored [OF sp False'' False] Some l qs by (simp split: option.split)
      ultimately show ?thesis using om [of False True r] by simp
    qed
  qed
qed

lemma matches_pattern_literal:
  assumes "CHR ''*'' \<notin> set p"
  shows "matches_pattern p v \<longleftrightarrow> p = v"
proof (cases "p = v \<or> p = []")
  case True
  then show ?thesis
    by (auto simp: matches_pattern_def starts_with_def ends_with_char_def)
next
  case False
  then show ?thesis
    using matches_pattern_anchored [of p p "[]" v] hd_split_no_star [OF assms]
    by (auto simp: strip_prefix_Some split: option.splits)
qed

end
