(* ===== verification/Float64.thy ===== *)
theory Float64
  imports Rust_Std "HOL-Library.Log_Nat"
begin

text \<open>
  Rust's \<open>f64\<close> as far as the source uses it: decimal literals, \<open>+\<close>, \<open>>\<close>, \<open>clamp\<close> and the format
  \<open>{:.4}\<close>. Every finite double is an integer multiple of \<open>2 ^ -1074\<close>, so \<open>Fin k\<close> stands for
  \<open>k * 2 ^ -1074\<close>; the two zeros are identified. Literals and sums are rounded to 53 significant
  bits, to nearest with ties to even, as IEEE 754 prescribes, so the arithmetic of the risk
  score is the machine's and not that of the reals.
\<close>

datatype f64 = Fin int | PosInf | NegInf | NaN

section \<open>Rounding\<close>

text \<open>\<open>n / q\<close> rounded to an integer with at most 53 significant bits.\<close>

definition half_even :: "nat \<Rightarrow> nat \<Rightarrow> nat" where
  "half_even n q =
     (let m = n div q; r = n mod q
      in if q < 2 * r \<or> (2 * r = q \<and> odd m) then m + 1 else m)"

definition round_nearest :: "nat \<Rightarrow> nat \<Rightarrow> nat" where
  "round_nearest n q =
     (let s = floorlog 2 (n div q) - 53 in half_even n (q * 2 ^ s) * 2 ^ s)"

definition f64_max_units :: nat where
  "f64_max_units = 2 ^ 2098"

definition f64_pack :: "bool \<Rightarrow> nat \<Rightarrow> f64" where
  "f64_pack neg n =
     (if f64_max_units \<le> n then (if neg then NegInf else PosInf)
      else Fin (if neg then - int n else int n))"

text \<open>The literal \<open>p/q\<close>, for instance \<open>0.3\<close> as \<open>f64_lit 3 10\<close>.\<close>

definition f64_lit :: "nat \<Rightarrow> nat \<Rightarrow> f64" where
  "f64_lit p q = f64_pack False (round_nearest (p * 2 ^ 1074) q)"

fun f64_add :: "f64 \<Rightarrow> f64 \<Rightarrow> f64" where
  "f64_add NaN y = NaN"
| "f64_add x NaN = NaN"
| "f64_add PosInf NegInf = NaN"
| "f64_add NegInf PosInf = NaN"
| "f64_add PosInf y = PosInf"
| "f64_add NegInf y = NegInf"
| "f64_add x PosInf = PosInf"
| "f64_add x NegInf = NegInf"
| "f64_add (Fin a) (Fin b) = f64_pack (a + b < 0) (round_nearest (nat \<bar>a + b\<bar>) 1)"

fun f64_less :: "f64 \<Rightarrow> f64 \<Rightarrow> bool" where
  "f64_less NaN y = False"
| "f64_less x NaN = False"
| "f64_less x NegInf = False"
| "f64_less NegInf y = True"
| "f64_less PosInf y = False"
| "f64_less x PosInf = True"
| "f64_less (Fin a) (Fin b) = (a < b)"

text \<open>\<open>f64::clamp\<close>.\<close>

definition f64_clamp :: "f64 \<Rightarrow> f64 \<Rightarrow> f64 \<Rightarrow> f64" where
  "f64_clamp x lo hi = (if f64_less x lo then lo else if f64_less hi x then hi else x)"

definition f64_zero :: f64 where
  "f64_zero = Fin 0"

definition f64_one :: f64 where
  "f64_one = Fin (2 ^ 1074)"

definition f64_is_finite :: "f64 \<Rightarrow> bool" where
  "f64_is_finite x = (case x of Fin _ \<Rightarrow> True | _ \<Rightarrow> False)"

text \<open>\<open>format!("{:.4}", x)\<close>: the exact value rounded to four decimals, ties to even.\<close>

definition pad4 :: "nat \<Rightarrow> string" where
  "pad4 n = replicate (4 - length (show_nat n)) (CHR ''0'') @ show_nat n"

definition format_4 :: "f64 \<Rightarrow> string" where
  "format_4 x = (case x of
     NaN \<Rightarrow> ''NaN''
   | PosInf \<Rightarrow> ''inf''
   | NegInf \<Rightarrow> ''-inf''
   | Fin k \<Rightarrow>
       (let m = half_even (nat \<bar>k\<bar> * 10000) (2 ^ 1074)
        in (if k < 0 then ''-'' else []) @ show_nat (m div 10000) @ ''.'' @ pad4 (m mod 10000)))"

section \<open>Facts\<close>

lemma floorlog_2_eqI: "2 ^ b \<le> n \<Longrightarrow> n < 2 ^ Suc b \<Longrightarrow> floorlog 2 n = Suc b"
  by (intro antisym floorlog_leI floorlog_ge_SucI) simp_all

lemma half_even_exact: "0 < q \<Longrightarrow> half_even (m * q) q = m"
  by (simp add: half_even_def)

lemma round_nearest_small:
  assumes "n < 2 ^ 53" shows "round_nearest n 1 = n"
proof -
  have "floorlog 2 n \<le> 53" using assms by (intro floorlog_leI) simp_all
  then show ?thesis using half_even_exact [of 1 n] by (simp add: round_nearest_def)
qed

text \<open>Rounding commutes with scaling by a power of two.\<close>

lemma half_even_scale: "0 < c \<Longrightarrow> half_even (n * c) (q * c) = half_even n q"
proof -
  assume c: "0 < c"
  have r: "(n * c) mod (q * c) = (n mod q) * c" by (simp add: mult_mod_left)
  have d: "(n * c) div (q * c) = n div q" using c by simp
  have "q * c < 2 * (n mod q * c) \<longleftrightarrow> q < 2 * (n mod q)"
    using c by (metis mult.assoc mult_less_cancel2)
  moreover have "2 * (n mod q * c) = q * c \<longleftrightarrow> 2 * (n mod q) = q"
    using c by (metis mult.assoc mult_cancel2 not_gr_zero)
  ultimately show ?thesis by (simp add: half_even_def Let_def r d)
qed

lemma round_nearest_scale: "round_nearest (n * 2 ^ e) 1 = round_nearest n 1 * 2 ^ e"
proof (cases "n = 0")
  case True
  then show ?thesis by (simp add: round_nearest_def half_even_def)
next
  case False
  then have fl: "floorlog 2 (n * 2 ^ e) = floorlog 2 n + e" by simp
  show ?thesis
  proof (cases "floorlog 2 n \<le> 53")
    case True
    then have "round_nearest n 1 = n"
      using half_even_exact [of 1 n] by (simp add: round_nearest_def)
    moreover have "round_nearest (n * 2 ^ e) 1 = n * 2 ^ e"
    proof -
      let ?s = "floorlog 2 n + e - 53"
      have "?s \<le> e" using True by simp
      then have "n * 2 ^ e = (n * 2 ^ (e - ?s)) * 2 ^ ?s"
        by (simp add: mult.assoc flip: power_add)
      then have "half_even (n * 2 ^ e) (2 ^ ?s) = n * 2 ^ (e - ?s)"
        by (metis half_even_exact zero_less_numeral zero_less_power)
      then have "round_nearest (n * 2 ^ e) 1 = n * 2 ^ (e - ?s) * 2 ^ ?s"
        by (simp add: round_nearest_def fl Let_def)
      with \<open>n * 2 ^ e = _\<close> show ?thesis by (simp only:)
    qed
    ultimately show ?thesis by simp
  next
    case False
    define s where "s = floorlog 2 n - 53"
    with False have s: "floorlog 2 n + e - 53 = s + e" by simp
    have "half_even (n * 2 ^ e) (2 ^ (s + e)) = half_even n (2 ^ s)"
      using half_even_scale [of "2 ^ e" n "2 ^ s"] by (simp add: power_add)
    then show ?thesis
      by (simp add: round_nearest_def fl s power_add flip: s_def)
  qed
qed

lemma round_nearest_eval:
  "2 ^ b \<le> n div q \<Longrightarrow> n div q < 2 ^ Suc b \<Longrightarrow>
     round_nearest n q = half_even n (q * 2 ^ (Suc b - 53)) * 2 ^ (Suc b - 53)"
  by (simp add: round_nearest_def floorlog_2_eqI Let_def)

text \<open>A quotient with at least 53 significant bits rounds the same at every scale.\<close>

lemma round_nearest_scale_q:
  assumes "2 ^ b \<le> n div q" "n div q < 2 ^ Suc b" "52 \<le> b"
  shows "round_nearest (n * 2 ^ e) q = round_nearest n q * 2 ^ e"
proof -
  have q: "0 < q" using assms(1) by (cases q) auto
  have "2 ^ b * q \<le> n" using assms(1) q by (simp add: less_eq_div_iff_mult_less_eq)
  then have "2 ^ (b + e) * q \<le> n * 2 ^ e" by (simp add: power_add mult.commute mult.left_commute)
  then have lo: "2 ^ (b + e) \<le> (n * 2 ^ e) div q" using q by (simp add: less_eq_div_iff_mult_less_eq)
  have "n < 2 ^ Suc b * q" using assms(2) q by (simp add: div_less_iff_less_mult)
  then have "n * 2 ^ e < 2 ^ Suc b * q * 2 ^ e" by simp
  also have "\<dots> = 2 ^ Suc (b + e) * q" by (simp add: power_add)
  finally have hi: "(n * 2 ^ e) div q < 2 ^ Suc (b + e)" using q by (simp add: div_less_iff_less_mult)
  define s where "s = Suc b - 53"
  then have s: "Suc (b + e) - 53 = s + e" using assms(3) by simp
  have "half_even (n * 2 ^ e) (q * 2 ^ s * 2 ^ e) = half_even n (q * 2 ^ s)"
    by (rule half_even_scale) simp
  then show ?thesis
    using round_nearest_eval [OF assms(1,2)] round_nearest_eval [OF lo hi]
    by (simp only: s s_def [symmetric] power_add mult.assoc)
qed

lemma f64_pack_scaled:
  "n < 2 ^ 64 \<Longrightarrow> e \<le> 2000 \<Longrightarrow> f64_pack False (n * 2 ^ e) = Fin (int n * 2 ^ e)"
proof -
  assume n: "n < 2 ^ 64" and e: "e \<le> 2000"
  have "n * 2 ^ e < 2 ^ 64 * 2 ^ e" using n by simp
  also have "\<dots> = (2::nat) ^ (64 + e)" by (simp only: power_add)
  also have "\<dots> \<le> 2 ^ 2098" using e by (intro power_increasing) simp_all
  finally have "\<not> f64_max_units \<le> n * 2 ^ e" by (simp add: f64_max_units_def)
  then show ?thesis by (simp add: f64_pack_def)
qed

text \<open>Addition of non-negative doubles on a common scale.\<close>

lemma f64_add_scaled:
  assumes "round_nearest (a + b) 1 = r" "r < 2 ^ 64" "e \<le> 2000"
  shows "f64_add (Fin (int a * 2 ^ e)) (Fin (int b * 2 ^ e)) = Fin (int r * 2 ^ e)"
proof -
  have sum: "int a * 2 ^ e + int b * 2 ^ e = int ((a + b) * 2 ^ e)"
    by (simp add: algebra_simps)
  have nn: "\<not> int a * 2 ^ e + int b * 2 ^ e < 0"
    by (simp only: sum of_nat_less_0_iff not_False_eq_True)
  have ab: "nat \<bar>int a * 2 ^ e + int b * 2 ^ e\<bar> = (a + b) * 2 ^ e"
    by (simp only: sum abs_of_nat nat_int)
  show ?thesis
    using nn ab assms round_nearest_scale [of "a + b" e] f64_pack_scaled [of r e]
    by simp
qed

lemma f64_clamp_bounds:
  "\<not> f64_less hi lo \<Longrightarrow> x \<noteq> NaN \<Longrightarrow>
     \<not> f64_less (f64_clamp x lo hi) lo \<and> \<not> f64_less hi (f64_clamp x lo hi)"
proof -
  have irr: "\<not> f64_less y y" for y by (cases y) auto
  show "\<not> f64_less hi lo \<Longrightarrow> x \<noteq> NaN \<Longrightarrow> ?thesis"
    by (auto simp: f64_clamp_def irr)
qed

end
