(* ===== verification/Guard_Types.thy ===== *)
theory Guard_Types
  imports Float64 "HOL-Library.Word"
begin

text \<open>
  The crate's shared types (\<open>src/types.rs\<close>, \<open>src/error.rs\<close>): sessions, decisions, errors and the
  gRPC status an error becomes. A \<open>Uuid\<close> is its 128 bits; a \<open>DateTime<Utc>\<close> is its number of
  nanoseconds since the epoch. Errors of third-party crates are carried by their display text,
  except for database errors, which the model produces itself.
\<close>

type_synonym uuid = "128 word"
type_synonym datetime = int

section \<open>Errors\<close>

text \<open>The database errors the model distinguishes: a violated uniqueness constraint (with the
  column), a failing statement, a column that does not decode.\<close>

datatype sqlx_error =
    Unique_violation string
  | Io_failure string
  | Column_decode string

datatype guard_error =
    InvalidToken
  | SessionExpired
  | SessionRevoked
  | PolicyDenied string
  | DatabaseError sqlx_error
  | ConfigError string
  | SerializationError string
  | IoError string
  | MigrationError string
  | JwtError string
  | TomlError string
  | UuidError string
  | AuditChannelClosed

type_synonym 'a guard_result = "guard_error + 'a"

text \<open>\<open>Display\<close> of an error; \<open>db\<close> is the display of a database error.\<close>

fun error_to_string :: "(sqlx_error \<Rightarrow> string) \<Rightarrow> guard_error \<Rightarrow> string" where
  "error_to_string db InvalidToken = ''invalid token''"
| "error_to_string db SessionExpired = ''session expired''"
| "error_to_string db SessionRevoked = ''session revoked''"
| "error_to_string db (PolicyDenied r) = ''policy denied: '' @ r"
| "error_to_string db (DatabaseError e) = ''database error: '' @ db e"
| "error_to_string db (ConfigError m) = ''config error: '' @ m"
| "error_to_string db (SerializationError m) = ''serialization error: '' @ m"
| "error_to_string db (IoError m) = ''io error: '' @ m"
| "error_to_string db (MigrationError m) = ''migration error: '' @ m"
| "error_to_string db (JwtError m) = ''jwt error''"
| "error_to_string db (TomlError m) = ''toml parse error: '' @ m"
| "error_to_string db (UuidError m) = ''uuid parse error: '' @ m"
| "error_to_string db AuditChannelClosed = ''audit channel closed''"

datatype status_code =
    Unauthenticated | Permission_denied | Invalid_argument | Unavailable | Internal

record status =
  st_code :: status_code
  st_message :: string

text \<open>\<open>impl From<GuardError> for tonic::Status\<close>.\<close>

fun status_of_error :: "(sqlx_error \<Rightarrow> string) \<Rightarrow> guard_error \<Rightarrow> status" where
  "status_of_error db InvalidToken = \<lparr>st_code = Unauthenticated, st_message = ''invalid token''\<rparr>"
| "status_of_error db SessionExpired =
     \<lparr>st_code = Unauthenticated, st_message = error_to_string db SessionExpired\<rparr>"
| "status_of_error db SessionRevoked =
     \<lparr>st_code = Unauthenticated, st_message = error_to_string db SessionRevoked\<rparr>"
| "status_of_error db (PolicyDenied reason) =
     \<lparr>st_code = Permission_denied, st_message = reason\<rparr>"
| "status_of_error db (ConfigError message) =
     \<lparr>st_code = Invalid_argument, st_message = message\<rparr>"
| "status_of_error db (DatabaseError e) =
     \<lparr>st_code = Unavailable, st_message = error_to_string db (DatabaseError e)\<rparr>"
| "status_of_error db (MigrationError e) =
     \<lparr>st_code = Unavailable, st_message = error_to_string db (MigrationError e)\<rparr>"
| "status_of_error db AuditChannelClosed =
     \<lparr>st_code = Unavailable, st_message = error_to_string db AuditChannelClosed\<rparr>"
| "status_of_error db e = \<lparr>st_code = Internal, st_message = error_to_string db e\<rparr>"

section \<open>Sessions and decisions\<close>

record guard_session =
  gs_id :: uuid
  gs_agent_id :: uuid
  gs_workspace_id :: uuid
  gs_role :: string
  gs_scopes :: "string list"
  gs_expires_at :: datetime
  gs_token :: string

datatype policy_decision =
    Allow
  | Deny string
  | Mask "string list"

text \<open>What an \<open>async fn\<close> can do besides returning: panic, or not be ready yet.\<close>

datatype 'a outcome = Done 'a | Panicked | Pending

text \<open>\<open>u64\<close> and \<open>usize\<close> values, and the cast \<open>as i64\<close>.\<close>

type_synonym u64 = "64 word"

abbreviation as_i64 :: "u64 \<Rightarrow> int" where
  "as_i64 w \<equiv> sint w"

end
