(* ===== verification/Json_Toml.thy ===== *)
theory Json_Toml
  imports Guard_Types
begin

text \<open>
  The value types of the two data formats, \<open>serde_json::Value\<close> and \<open>toml::Value\<close>. Objects and
  tables are association lists in iteration order; the formats' maps have distinct keys.
\<close>

datatype json_number = PosInt nat | NegInt int | Float f64

datatype json =
    JNull
  | JBool bool
  | JNumber json_number
  | JString string
  | JArray "json list"
  | JObject "(string \<times> json) list"

datatype toml =
    TString string
  | TInteger int
  | TFloat f64
  | TBoolean bool
  | TDatetime string
  | TArray "toml list"
  | TTable "(string \<times> toml) list"

section \<open>Accessors\<close>

fun toml_as_str :: "toml \<Rightarrow> string option" where
  "toml_as_str (TString s) = Some s"
| "toml_as_str _ = None"

fun toml_as_float :: "toml \<Rightarrow> f64 option" where
  "toml_as_float (TFloat x) = Some x"
| "toml_as_float _ = None"

fun toml_as_integer :: "toml \<Rightarrow> int option" where
  "toml_as_integer (TInteger i) = Some i"
| "toml_as_integer _ = None"

fun toml_as_array :: "toml \<Rightarrow> toml list option" where
  "toml_as_array (TArray xs) = Some xs"
| "toml_as_array _ = None"

fun toml_as_table :: "toml \<Rightarrow> (string \<times> toml) list option" where
  "toml_as_table (TTable kvs) = Some kvs"
| "toml_as_table _ = None"

text \<open>\<open>Value::get(key)\<close> with a string key: \<open>None\<close> on anything but a table.\<close>

definition toml_get :: "toml \<Rightarrow> string \<Rightarrow> toml option" where
  "toml_get v k = (case toml_as_table v of None \<Rightarrow> None | Some kvs \<Rightarrow> map_of kvs k)"

section \<open>Measures\<close>

fun json_nodes :: "json \<Rightarrow> nat" where
  "json_nodes (JArray xs) = Suc (sum_list (map json_nodes xs))"
| "json_nodes (JObject kvs) = Suc (sum_list (map (\<lambda>kv. json_nodes (snd kv)) kvs))"
| "json_nodes _ = 1"

lemma json_nodes_pos [simp]: "0 < json_nodes v"
  by (cases v) auto

lemma json_nodes_ge1: "Suc 0 \<le> json_nodes v"
  using json_nodes_pos [of v] by linarith

lemma json_nodes_step: "a \<le> b \<Longrightarrow> Suc a \<le> json_nodes v + b"
  using json_nodes_ge1 [of v] by linarith

lemma json_nodes_array_elem: "x \<in> set xs \<Longrightarrow> json_nodes x < json_nodes (JArray xs)"
  using member_le_sum_list [of "json_nodes x" "map json_nodes xs"] by (simp add: less_Suc_eq_le)

lemma json_nodes_object_elem: "(k, x) \<in> set kvs \<Longrightarrow> json_nodes x < json_nodes (JObject kvs)"
proof -
  assume "(k, x) \<in> set kvs"
  then have "json_nodes x \<in> set (map (\<lambda>kv. json_nodes (snd kv)) kvs)" by force
  then show ?thesis
    using member_le_sum_list [of "json_nodes x" "map (\<lambda>kv. json_nodes (snd kv)) kvs"]
    by (simp add: less_Suc_eq_le)
qed

text \<open>Values with distinct keys in every object: what \<open>serde_json\<close>'s maps can hold.\<close>

fun json_wf :: "json \<Rightarrow> bool" where
  "json_wf (JArray xs) = list_all json_wf xs"
| "json_wf (JObject kvs) = (distinct (map fst kvs) \<and> list_all (\<lambda>kv. json_wf (snd kv)) kvs)"
| "json_wf _ = True"

end
