(* ===== verification/Extern.thy ===== *)
theory Extern
  imports Json_Toml
begin

text \<open>
  Code that is not in the repository: \<open>uuid\<close>, \<open>chrono\<close>, \<open>blake3\<close>, \<open>base64\<close>, \<open>serde_json\<close>,
  \<open>toml\<close>, \<open>jsonwebtoken\<close> and the texts of SQLite's errors. Each function the source calls is a
  field of the record \<open>extern\<close>, an argument of the definitions that use it. What the source relies
  on is stated as the named laws below; a property that needs one names it as a hypothesis.
\<close>

text \<open>The JWT payload (\<open>SessionClaims\<close> of \<open>src/session.rs\<close>), which the JWT functions range over.\<close>

record session_claims =
  sc_sub :: string
  sc_agent_id :: string
  sc_workspace_id :: string
  sc_role :: string
  sc_scopes :: "string list"
  sc_exp :: u64

record extern =
  uuid_show :: "uuid \<Rightarrow> string"
  uuid_parse :: "string \<Rightarrow> string + uuid"
  ts_millis :: "datetime \<Rightarrow> int"
  ts_secs :: "datetime \<Rightarrow> int"
  dt_from_millis :: "int \<Rightarrow> datetime option"
  dt_from_secs :: "int \<Rightarrow> datetime option"
  dt_add_secs :: "datetime \<Rightarrow> int \<Rightarrow> datetime option"
  dt_rfc3339 :: "datetime \<Rightarrow> string"
  blake3_hash :: "string \<Rightarrow> 256 word"
  hash_hex :: "256 word \<Rightarrow> string"
  hash_from_hex :: "string \<Rightarrow> string + 256 word"
  base64_url :: "8 word list \<Rightarrow> string"
  json_text :: "json \<Rightarrow> string + string"
  json_parse :: "string \<Rightarrow> string + json"
  serde_mismatch :: string
  toml_parse :: "string \<Rightarrow> string + toml"
  jwt_encode :: "string \<Rightarrow> session_claims \<Rightarrow> string + string"
  jwt_decode :: "string \<Rightarrow> datetime \<Rightarrow> string \<Rightarrow> string + session_claims"
  sqlx_display :: "sqlx_error \<Rightarrow> string"

section \<open>Documented behaviour\<close>

text \<open>\<open>Uuid::parse_str\<close> reads what \<open>Uuid::to_string\<close> writes.\<close>

definition uuid_laws :: "extern \<Rightarrow> bool" where
  "uuid_laws x \<longleftrightarrow> (\<forall>u. uuid_parse x (uuid_show x u) = Inr u)"

text \<open>
  \<open>timestamp_millis\<close> and \<open>timestamp\<close> round down; \<open>from_timestamp_millis\<close> and \<open>from_timestamp\<close>
  give the instant or \<open>None\<close> out of chrono's range; adding a duration of whole seconds moves the
  instant by as much or panics (\<open>None\<close>).
\<close>

definition chrono_laws :: "extern \<Rightarrow> bool" where
  "chrono_laws x \<longleftrightarrow>
     (\<forall>t. ts_millis x t = t div 1000000) \<and>
     (\<forall>t. ts_secs x t = t div 1000000000) \<and>
     (\<forall>m t. dt_from_millis x m = Some t \<longrightarrow> t = m * 1000000) \<and>
     (\<forall>s t. dt_from_secs x s = Some t \<longrightarrow> t = s * 1000000000) \<and>
     (\<forall>t n t'. dt_add_secs x t n = Some t' \<longrightarrow> t' = t + n * 1000000000)"

text \<open>An instant whose milliseconds chrono can read back: every \<open>DateTime<Utc>\<close> is one.\<close>

definition dt_ok :: "extern \<Rightarrow> datetime \<Rightarrow> bool" where
  "dt_ok x t \<longleftrightarrow> dt_from_millis x (ts_millis x t) \<noteq> None"

text \<open>An instant as the database keeps it: whole milliseconds.\<close>

definition trunc_ms :: "datetime \<Rightarrow> datetime" where
  "trunc_ms t = t div 1000000 * 1000000"

text \<open>\<open>Hash::from_hex\<close> reads what \<open>to_hex\<close> writes.\<close>

definition hash_laws :: "extern \<Rightarrow> bool" where
  "hash_laws x \<longleftrightarrow> (\<forall>h. hash_from_hex x (hash_hex x h) = Inr h)"

text \<open>
  \<open>serde_json\<close> writes \<open>v\<close> and reads it back. This is stated for single values: it is not true of
  all of them (the parser's depth limit, doubles that it may read back one unit off).
\<close>

definition json_rt :: "extern \<Rightarrow> json \<Rightarrow> bool" where
  "json_rt x v \<longleftrightarrow> (\<exists>s. json_text x v = Inr s \<and> json_parse x s = Inr v)"

text \<open>Serialising a \<open>serde_json::Value\<close> does not fail: its keys are strings.\<close>

definition json_total :: "extern \<Rightarrow> bool" where
  "json_total x \<longleftrightarrow> (\<forall>v. \<exists>s. json_text x v = Inr s)"

lemma uuid_parse_show [simp]: "uuid_laws x \<Longrightarrow> uuid_parse x (uuid_show x u) = Inr u"
  by (simp add: uuid_laws_def)

lemma uuid_show_inj: "uuid_laws x \<Longrightarrow> uuid_show x u = uuid_show x v \<longleftrightarrow> u = v"
  by (metis Inr_inject uuid_parse_show)

lemma hash_from_hex_hex [simp]: "hash_laws x \<Longrightarrow> hash_from_hex x (hash_hex x h) = Inr h"
  by (simp add: hash_laws_def)

lemma hash_hex_inj: "hash_laws x \<Longrightarrow> hash_hex x g = hash_hex x h \<longleftrightarrow> g = h"
  by (metis Inr_inject hash_from_hex_hex)

lemma dt_stored:
  "chrono_laws x \<Longrightarrow> dt_ok x t \<Longrightarrow> dt_from_millis x (ts_millis x t) = Some (trunc_ms t)"
  by (auto simp: chrono_laws_def dt_ok_def trunc_ms_def)

lemma ts_millis_div: "chrono_laws x \<Longrightarrow> ts_millis x t = t div 1000000"
  by (simp add: chrono_laws_def)

lemma dt_from_millis_Some: "chrono_laws x \<Longrightarrow> dt_from_millis x m = Some t \<Longrightarrow> t = m * 1000000"
  by (simp add: chrono_laws_def)

lemma trunc_ms_le: "trunc_ms t \<le> t"
  by (simp add: trunc_ms_def)

text \<open>Comparing an instant with a stored one is comparing their milliseconds.\<close>

lemma millis_le_iff: "m * 1000000 \<le> (t::int) \<longleftrightarrow> m \<le> t div 1000000"
proof -
  have "t = t div 1000000 * 1000000 + t mod 1000000" by simp
  moreover have "0 \<le> t mod 1000000" "t mod 1000000 < 1000000" by simp_all
  ultimately show ?thesis by linarith
qed

section \<open>A concrete instance for the witnesses\<close>

text \<open>
  Identifiers and digests in unary, instants within a fixed range, and JSON texts by table: enough
  for the laws to hold. The tables \<open>js\<close>, \<open>ts\<close> and \<open>ws\<close> list the JSON values with their texts, the
  TOML sources with their values and the JWTs with their claims.
\<close>

definition unary :: "char \<Rightarrow> 'a::len word \<Rightarrow> string" where
  "unary c w = replicate (unat w) c"

definition demo_extern ::
    "(json \<times> string) list \<Rightarrow> (string \<times> toml) list \<Rightarrow> (string \<times> session_claims) list \<Rightarrow> extern" where
  "demo_extern js ts ws = \<lparr>
     uuid_show = unary (CHR ''u''),
     uuid_parse = (\<lambda>s. if set s \<subseteq> {CHR ''u''} then Inr (of_nat (length s)) else Inl ''bad uuid''),
     ts_millis = (\<lambda>t. t div 1000000),
     ts_secs = (\<lambda>t. t div 1000000000),
     dt_from_millis = (\<lambda>m. if \<bar>m\<bar> \<le> 8000000000000000 then Some (m * 1000000) else None),
     dt_from_secs = (\<lambda>s. if \<bar>s\<bar> \<le> 8000000000000 then Some (s * 1000000000) else None),
     dt_add_secs = (\<lambda>t n.
       if \<bar>n\<bar> \<le> 9223372036854775 \<and> \<bar>t + n * 1000000000\<bar> \<le> 8000000000000000000000
       then Some (t + n * 1000000000) else None),
     dt_rfc3339 = (\<lambda>t. show_int t),
     blake3_hash = (\<lambda>s. of_nat (length s)),
     hash_hex = unary (CHR ''h''),
     hash_from_hex = (\<lambda>s. Inr (of_nat (length s))),
     base64_url = (\<lambda>bs. concat (map (unary (CHR ''b'')) bs)),
     json_text = (\<lambda>v. case map_of js v of Some s \<Rightarrow> Inr s | None \<Rightarrow> Inl ''no text''),
     json_parse = (\<lambda>s. case map_of (map prod.swap js) s of Some v \<Rightarrow> Inr v | None \<Rightarrow> Inl ''bad json''),
     serde_mismatch = ''type mismatch'',
     toml_parse = (\<lambda>s. case map_of ts s of Some v \<Rightarrow> Inr v | None \<Rightarrow> Inl ''bad toml''),
     jwt_encode = (\<lambda>secret c.
       case map_of (map prod.swap ws) c of Some s \<Rightarrow> Inr s | None \<Rightarrow> Inl ''cannot sign''),
     jwt_decode = (\<lambda>secret now s.
       case map_of ws s of
         Some c \<Rightarrow> if now div 1000000000 \<le> uint (sc_exp c) + 60 then Inr c else Inl ''ExpiredSignature''
       | None \<Rightarrow> Inl ''InvalidSignature''),
     sqlx_display = (\<lambda>e. case e of Unique_violation c \<Rightarrow> ''UNIQUE constraint failed: '' @ c
                               | Io_failure m \<Rightarrow> m | Column_decode c \<Rightarrow> ''bad column '' @ c)\<rparr>"

lemma replicate_small [simp]:
  "replicate 1 c = [c]" "replicate 2 c = [c, c]" "replicate 3 c = [c, c, c]"
  "replicate 4 c = [c, c, c, c]" "replicate 5 c = [c, c, c, c, c]"
  by (simp_all add: eval_nat_numeral)

lemma demo_uuid_laws [simp]: "uuid_laws (demo_extern js ts ws)"
  by (auto simp: uuid_laws_def demo_extern_def unary_def)

lemma demo_hash_laws [simp]: "hash_laws (demo_extern js ts ws)"
  by (auto simp: hash_laws_def demo_extern_def unary_def)

lemma demo_chrono_laws [simp]: "chrono_laws (demo_extern js ts ws)"
  by (auto simp: chrono_laws_def demo_extern_def split: if_splits)

lemma demo_dt_ok [simp]: "\<bar>t\<bar> \<le> 8000000000000000000000 \<Longrightarrow> dt_ok (demo_extern js ts ws) t"
  by (auto simp: dt_ok_def demo_extern_def abs_le_iff)

end
