(* ===== verification/Masking.thy ===== *)
theory Masking
  imports Pattern Extern
begin

text \<open>
  The masking engine of \<open>src/masking/mod.rs\<close>. \<open>MaskingEngine::apply\<close> walks a JSON value in place;
  the model returns the result together with the value as it is left, on an error too, where the
  walk stops half-way. Only hashing a value that is not a string can fail.
\<close>

datatype mask_type =
    Redact
  | HashBlake3
  | Truncate u64
  | EmailMask
  | JsonFieldMask string

record mask_directive =
  md_field_pattern :: string
  md_mask_type :: mask_type

abbreviation redacted :: json where
  "redacted \<equiv> JString ''[REDACTED]''"

section \<open>Masks\<close>

definition mask_email :: "string \<Rightarrow> string" where
  "mask_email value =
     (case split_once (CHR ''@'') value of
        Some (local, domain) \<Rightarrow>
          (let first = (case local of [] \<Rightarrow> CHR ''*'' | c # _ \<Rightarrow> c)
           in first # ''***@'' @ domain)
      | None \<Rightarrow> ''[REDACTED]'')"

fun redact_nested_fields :: "string \<Rightarrow> json \<Rightarrow> json"
  and redact_fields :: "string \<Rightarrow> (string \<times> json) list \<Rightarrow> (string \<times> json) list"
  and redact_items :: "string \<Rightarrow> json list \<Rightarrow> json list" where
  "redact_nested_fields pattern (JObject kvs) = JObject (redact_fields pattern kvs)"
| "redact_nested_fields pattern (JArray items) = JArray (redact_items pattern items)"
| "redact_nested_fields pattern v = v"
| "redact_fields pattern [] = []"
| "redact_fields pattern ((key, child) # kvs) =
     (key, if matches_pattern pattern key then redacted
           else redact_nested_fields pattern child) # redact_fields pattern kvs"
| "redact_items pattern [] = []"
| "redact_items pattern (item # items) =
     redact_nested_fields pattern item # redact_items pattern items"

definition hash_text :: "extern \<Rightarrow> string \<Rightarrow> string" where
  "hash_text x s = hash_hex x (blake3_hash x s)"

definition apply_mask :: "extern \<Rightarrow> json \<Rightarrow> mask_type \<Rightarrow> unit guard_result \<times> json" where
  "apply_mask x value m = (case m of
     Redact \<Rightarrow> (Inr (), redacted)
   | HashBlake3 \<Rightarrow>
       (case (case value of JString inner \<Rightarrow> Inr inner | _ \<Rightarrow> json_text x value) of
          Inl e \<Rightarrow> (Inl (SerializationError e), value)
        | Inr raw \<Rightarrow> (Inr (), JString (hash_text x raw)))
   | Truncate n \<Rightarrow>
       (case value of
          JString inner \<Rightarrow> (Inr (), JString (take (unat n) inner))
        | _ \<Rightarrow> (Inr (), value))
   | EmailMask \<Rightarrow>
       (case value of
          JString inner \<Rightarrow> (Inr (), JString (mask_email inner))
        | _ \<Rightarrow> (Inr (), value))
   | JsonFieldMask pattern \<Rightarrow> (Inr (), redact_nested_fields pattern value))"

section \<open>The walk\<close>

text \<open>The first loop of \<open>apply_recursive\<close>: every directive that matches the path, in order.\<close>

fun apply_directives ::
    "extern \<Rightarrow> mask_directive list \<Rightarrow> string \<Rightarrow> json \<Rightarrow> unit guard_result \<times> json" where
  "apply_directives x [] path value = (Inr (), value)"
| "apply_directives x (d # ds) path value =
     (if matches_pattern (md_field_pattern d) path then
        (case apply_mask x value (md_mask_type d) of
           (Inl e, value') \<Rightarrow> (Inl e, value')
         | (Inr _, value') \<Rightarrow> apply_directives x ds path value')
      else apply_directives x ds path value)"

abbreviation key_path :: "string \<Rightarrow> string \<Rightarrow> string" where
  "key_path path key \<equiv> path @ ''.'' @ key"

abbreviation index_path :: "string \<Rightarrow> nat \<Rightarrow> string" where
  "index_path path i \<equiv> path @ ''['' @ show_nat i @ '']''"

lemma redact_nested_nodes:
  "json_nodes (redact_nested_fields p v) \<le> json_nodes v"
  "sum_list (map (\<lambda>kv. json_nodes (snd kv)) (redact_fields p kvs)) \<le>
     sum_list (map (\<lambda>kv. json_nodes (snd kv)) kvs)"
  "sum_list (map json_nodes (redact_items p xs)) \<le> sum_list (map json_nodes xs)"
  by (induction p v and p kvs and p xs
      rule: redact_nested_fields_redact_fields_redact_items.induct)
    (auto intro: add_mono json_nodes_step)

lemma apply_mask_nodes: "json_nodes (snd (apply_mask x v m)) \<le> json_nodes v"
proof -
  show ?thesis
    by (auto simp: apply_mask_def redact_nested_nodes json_nodes_ge1
        split: mask_type.split sum.split json.split)
qed

lemma apply_directives_nodes: "json_nodes (snd (apply_directives x ds path v)) \<le> json_nodes v"
proof (induction ds arbitrary: v)
  case (Cons d ds)
  obtain r v' where am: "apply_mask x v (md_mask_type d) = (r, v')" by fastforce
  then have "json_nodes v' \<le> json_nodes v" by (metis apply_mask_nodes snd_conv)
  with am Cons.IH [of v] Cons.IH [of v'] show ?case
    by (cases r) auto
qed simp

lemma apply_directives_nodes':
  "(r, v') = apply_directives x ds path v \<Longrightarrow> json_nodes v' \<le> json_nodes v"
  by (metis apply_directives_nodes snd_conv)

function (sequential) apply_recursive ::
    "extern \<Rightarrow> mask_directive list \<Rightarrow> string \<Rightarrow> json \<Rightarrow> unit guard_result \<times> json"
  and apply_fields ::
    "extern \<Rightarrow> mask_directive list \<Rightarrow> string \<Rightarrow> (string \<times> json) list \<Rightarrow>
       unit guard_result \<times> (string \<times> json) list"
  and apply_items ::
    "extern \<Rightarrow> mask_directive list \<Rightarrow> string \<Rightarrow> nat \<Rightarrow> json list \<Rightarrow> unit guard_result \<times> json list" where
  "apply_recursive x masks path value =
     (case apply_directives x masks path value of
        (Inl e, value') \<Rightarrow> (Inl e, value')
      | (Inr _, value') \<Rightarrow>
          (case value' of
             JObject kvs \<Rightarrow> (case apply_fields x masks path kvs of (r, kvs') \<Rightarrow> (r, JObject kvs'))
           | JArray items \<Rightarrow> (case apply_items x masks path 0 items of (r, items') \<Rightarrow> (r, JArray items'))
           | _ \<Rightarrow> (Inr (), value')))"
| "apply_fields x masks path [] = (Inr (), [])"
| "apply_fields x masks path ((key, child) # kvs) =
     (case apply_recursive x masks (key_path path key) child of
        (Inl e, child') \<Rightarrow> (Inl e, (key, child') # kvs)
      | (Inr _, child') \<Rightarrow>
          (case apply_fields x masks path kvs of (r, kvs') \<Rightarrow> (r, (key, child') # kvs')))"
| "apply_items x masks path i [] = (Inr (), [])"
| "apply_items x masks path i (child # items) =
     (case apply_recursive x masks (index_path path i) child of
        (Inl e, child') \<Rightarrow> (Inl e, child' # items)
      | (Inr _, child') \<Rightarrow>
          (case apply_items x masks path (Suc i) items of (r, items') \<Rightarrow> (r, child' # items')))"
  by pat_completeness auto
termination
proof (relation "measure (\<lambda>a. case a of
      Inl (x, masks, path, v) \<Rightarrow> 2 * json_nodes v
    | Inr (Inl (x, masks, path, kvs)) \<Rightarrow> 2 * sum_list (map (\<lambda>kv. json_nodes (snd kv)) kvs) + 1
    | Inr (Inr (x, masks, path, i, items)) \<Rightarrow> 2 * sum_list (map json_nodes items) + 1)",
    goal_cases)
  case (2 x ds path v r v' u kvs)
  then show ?case using apply_directives_nodes' [OF 2(1)] by auto
next
  case (3 x ds path v r v' u items)
  then show ?case using apply_directives_nodes' [OF 3(1)] by auto
qed auto

definition mask_apply :: "extern \<Rightarrow> json \<Rightarrow> mask_directive list \<Rightarrow> unit guard_result \<times> json" where
  "mask_apply x value masks = apply_recursive x masks ''$'' value"

declare apply_recursive.simps [simp del]

end
