(* ===== verification/Masking_Safety.thy ===== *)
theory Masking_Safety
  imports Masking
begin

text \<open>
  What masking guarantees. \<open>json_at\<close> lists the nodes of a value with the path strings the walk
  computes for them; \<open>redact_eq\<close> relates two values that differ only below paths a directive
  matches. The lemmas give the closed form of the directive loop for redactions, the frame
  (nothing outside the matched paths changes), coverage (everything at a matched path is
  redacted) and non-interference (the output does not depend on what was redacted).
\<close>

section \<open>Nodes and their paths\<close>

fun json_at :: "string \<Rightarrow> json \<Rightarrow> (string \<times> json) list"
  and json_at_fields :: "string \<Rightarrow> (string \<times> json) list \<Rightarrow> (string \<times> json) list"
  and json_at_items :: "string \<Rightarrow> nat \<Rightarrow> json list \<Rightarrow> (string \<times> json) list" where
  "json_at path (JObject kvs) = (path, JObject kvs) # json_at_fields path kvs"
| "json_at path (JArray xs) = (path, JArray xs) # json_at_items path 0 xs"
| "json_at path v = [(path, v)]"
| "json_at_fields path [] = []"
| "json_at_fields path ((k, c) # kvs) = json_at (key_path path k) c @ json_at_fields path kvs"
| "json_at_items path i [] = []"
| "json_at_items path i (c # xs) = json_at (index_path path i) c @ json_at_items path (Suc i) xs"

definition hit :: "mask_directive list \<Rightarrow> string \<Rightarrow> bool" where
  "hit masks path \<longleftrightarrow> list_ex (\<lambda>d. matches_pattern (md_field_pattern d) path) masks"

definition only_redact :: "mask_directive list \<Rightarrow> bool" where
  "only_redact masks \<longleftrightarrow> list_all (\<lambda>d. md_mask_type d = Redact) masks"

lemma directives_of_redacted:
  "only_redact masks \<Longrightarrow> apply_directives x masks path redacted = (Inr (), redacted)"
  by (induction masks) (auto simp: only_redact_def apply_mask_def)

lemma directives_redact:
  "only_redact masks \<Longrightarrow>
     apply_directives x masks path v = (Inr (), if hit masks path then redacted else v)"
proof (induction masks)
  case Nil
  then show ?case by (simp add: hit_def)
next
  case (Cons d ds)
  then have ds: "only_redact ds" and d: "md_mask_type d = Redact" by (simp_all add: only_redact_def)
  from Cons.IH [OF ds] d directives_of_redacted [OF ds, of x path]
  show ?case by (auto simp: hit_def apply_mask_def)
qed

lemma directives_miss: "\<not> hit masks path \<Longrightarrow> apply_directives x masks path v = (Inr (), v)"
  by (induction masks) (auto simp: hit_def)

lemma recursive_redact_hit:
  "only_redact masks \<Longrightarrow> hit masks path \<Longrightarrow> apply_recursive x masks path v = (Inr (), redacted)"
  by (simp add: apply_recursive.simps directives_redact)

text \<open>Below a path no directive matches, the walk descends.\<close>

lemma recursive_miss:
  "\<not> hit masks path \<Longrightarrow> apply_recursive x masks path v =
     (case v of
        JObject kvs \<Rightarrow> (case apply_fields x masks path kvs of (r, kvs') \<Rightarrow> (r, JObject kvs'))
      | JArray xs \<Rightarrow> (case apply_items x masks path 0 xs of (r, xs') \<Rightarrow> (r, JArray xs'))
      | _ \<Rightarrow> (Inr (), v))"
  by (simp add: apply_recursive.simps directives_miss split: json.split)

section \<open>Frame\<close>

lemma recursive_frame:
  "(\<And>p n. (p, n) \<in> set (json_at path v) \<Longrightarrow> \<not> hit masks p) \<Longrightarrow>
     apply_recursive x masks path v = (Inr (), v)"
  "(\<And>p n. (p, n) \<in> set (json_at_fields path kvs) \<Longrightarrow> \<not> hit masks p) \<Longrightarrow>
     apply_fields x masks path kvs = (Inr (), kvs)"
  "(\<And>p n. (p, n) \<in> set (json_at_items path i xs) \<Longrightarrow> \<not> hit masks p) \<Longrightarrow>
     apply_items x masks path i xs = (Inr (), xs)"
  by (induction path v and path kvs and path i xs rule: json_at_json_at_fields_json_at_items.induct)
    (fastforce simp: recursive_miss)+

section \<open>Coverage\<close>

lemma recursive_covers:
  assumes "only_redact masks"
  shows "\<exists>v'. apply_recursive x masks path v = (Inr (), v') \<and>
     (\<forall>p n. (p, n) \<in> set (json_at path v') \<longrightarrow> hit masks p \<longrightarrow> n = redacted)"
   and "\<exists>kvs'. apply_fields x masks path kvs = (Inr (), kvs') \<and>
     (\<forall>p n. (p, n) \<in> set (json_at_fields path kvs') \<longrightarrow> hit masks p \<longrightarrow> n = redacted)"
   and "\<exists>xs'. apply_items x masks path i xs = (Inr (), xs') \<and>
     (\<forall>p n. (p, n) \<in> set (json_at_items path i xs') \<longrightarrow> hit masks p \<longrightarrow> n = redacted)"
proof (induction path v and path kvs and path i xs
    rule: json_at_json_at_fields_json_at_items.induct)
  case (1 path kvs)
  then obtain kvs' where "apply_fields x masks path kvs = (Inr (), kvs')"
    "\<forall>p n. (p, n) \<in> set (json_at_fields path kvs') \<longrightarrow> hit masks p \<longrightarrow> n = redacted" by blast
  then show ?case
    by (cases "hit masks path") (auto simp: recursive_redact_hit [OF assms] recursive_miss)
next
  case (2 path xs)
  then obtain xs' where "apply_items x masks path 0 xs = (Inr (), xs')"
    "\<forall>p n. (p, n) \<in> set (json_at_items path 0 xs') \<longrightarrow> hit masks p \<longrightarrow> n = redacted" by blast
  then show ?case
    by (cases "hit masks path") (auto simp: recursive_redact_hit [OF assms] recursive_miss)
next
  case (5 path k c kvs)
  then obtain c' kvs' where
    "apply_recursive x masks (key_path path k) c = (Inr (), c')"
    "\<forall>p n. (p, n) \<in> set (json_at (key_path path k) c') \<longrightarrow> hit masks p \<longrightarrow> n = redacted"
    "apply_fields x masks path kvs = (Inr (), kvs')"
    "\<forall>p n. (p, n) \<in> set (json_at_fields path kvs') \<longrightarrow> hit masks p \<longrightarrow> n = redacted" by blast
  then show ?case by auto
next
  case (7 path i c xs)
  then obtain c' xs' where
    "apply_recursive x masks (index_path path i) c = (Inr (), c')"
    "\<forall>p n. (p, n) \<in> set (json_at (index_path path i) c') \<longrightarrow> hit masks p \<longrightarrow> n = redacted"
    "apply_items x masks path (Suc i) xs = (Inr (), xs')"
    "\<forall>p n. (p, n) \<in> set (json_at_items path (Suc i) xs') \<longrightarrow> hit masks p \<longrightarrow> n = redacted" by blast
  then show ?case by auto
qed (auto simp: recursive_redact_hit [OF assms] recursive_miss apply_recursive.simps directives_redact [OF assms])

section \<open>Non-interference\<close>

inductive redact_eq :: "mask_directive list \<Rightarrow> string \<Rightarrow> json \<Rightarrow> json \<Rightarrow> bool"
  for masks where
  hidden: "hit masks path \<Longrightarrow> redact_eq masks path v w"
| same: "redact_eq masks path v v"
| object: "list_all2 (\<lambda>kc kc'. fst kc = fst kc' \<and> redact_eq masks (key_path path (fst kc)) (snd kc) (snd kc'))
     kvs kvs' \<Longrightarrow> redact_eq masks path (JObject kvs) (JObject kvs')"
| array: "list_all2 (\<lambda>ix ix'. redact_eq masks (index_path path (fst ix)) (snd ix) (snd ix'))
     (enumerate 0 xs) (enumerate 0 ys) \<Longrightarrow> redact_eq masks path (JArray xs) (JArray ys)"

lemma fields_cong:
  "list_all2 (\<lambda>kc kc'. fst kc = fst kc' \<and>
      apply_recursive x masks (key_path path (fst kc)) (snd kc) =
      apply_recursive x masks (key_path path (fst kc)) (snd kc')) kvs kvs' \<Longrightarrow>
   (\<And>k c. (k, c) \<in> set kvs \<Longrightarrow> \<exists>c'. apply_recursive x masks (key_path path k) c = (Inr (), c')) \<Longrightarrow>
   apply_fields x masks path kvs = apply_fields x masks path kvs'"
proof (induction kvs kvs' rule: list_all2_induct)
  case (Cons kc kvs kc' kvs')
  obtain k c where kc: "kc = (k, c)" by fastforce
  from Cons.hyps kc obtain c2 where kc': "kc' = (k, c2)" by (cases kc') auto
  from Cons.prems kc obtain v where v: "apply_recursive x masks (key_path path k) c = (Inr (), v)"
    by fastforce
  have "apply_fields x masks path kvs = apply_fields x masks path kvs'"
    using Cons.prems by (intro Cons.IH) simp
  moreover have "apply_recursive x masks (key_path path k) c2 = (Inr (), v)"
    using Cons.hyps(1) kc kc' v by simp
  ultimately show ?case using v by (simp add: kc kc')
qed simp

lemma items_cong:
  "list_all2 (\<lambda>ix ix'. apply_recursive x masks (index_path path (fst ix)) (snd ix) =
      apply_recursive x masks (index_path path (fst ix)) (snd ix')) (enumerate i xs) (enumerate i ys) \<Longrightarrow>
   (\<And>j c. c \<in> set xs \<Longrightarrow> \<exists>c'. apply_recursive x masks (index_path path j) c = (Inr (), c')) \<Longrightarrow>
   apply_items x masks path i xs = apply_items x masks path i ys"
proof (induction xs arbitrary: i ys)
  case Nil
  then show ?case by (cases ys) auto
next
  case (Cons c xs)
  then obtain c2 ys' where ys: "ys = c2 # ys'" by (cases ys) auto
  from Cons.prems(2) obtain v where v: "apply_recursive x masks (index_path path i) c = (Inr (), v)"
    by fastforce
  have "apply_items x masks path (Suc i) xs = apply_items x masks path (Suc i) ys'"
    using Cons.prems ys by (intro Cons.IH) auto
  moreover have "apply_recursive x masks (index_path path i) c2 = (Inr (), v)"
    using Cons.prems(1) ys v by simp
  ultimately show ?case using v by (simp add: ys)
qed

lemma recursive_noninterference:
  assumes "only_redact masks"
  shows "redact_eq masks path v w \<Longrightarrow> apply_recursive x masks path v = apply_recursive x masks path w"
proof (induction rule: redact_eq.induct)
  case (hidden path v w)
  then show ?case by (simp add: recursive_redact_hit [OF assms])
next
  case (object path kvs kvs')
  have "apply_fields x masks path kvs = apply_fields x masks path kvs'"
    using object recursive_covers(1) [OF assms]
    by (intro fields_cong) (auto elim: list.rel_mono_strong, blast)
  then show ?case
    by (cases "hit masks path") (simp_all add: recursive_redact_hit [OF assms] recursive_miss)
next
  case (array path xs ys)
  have "apply_items x masks path 0 xs = apply_items x masks path 0 ys"
    using array recursive_covers(1) [OF assms]
    by (intro items_cong) (auto elim: list.rel_mono_strong, blast)
  then show ?case
    by (cases "hit masks path") (simp_all add: recursive_redact_hit [OF assms] recursive_miss)
qed simp

section \<open>Nested fields\<close>

text \<open>All key/value pairs of the objects inside a value, at any depth.\<close>

fun json_pairs :: "json \<Rightarrow> (string \<times> json) list"
  and json_pairs_fields :: "(string \<times> json) list \<Rightarrow> (string \<times> json) list"
  and json_pairs_items :: "json list \<Rightarrow> (string \<times> json) list" where
  "json_pairs (JObject kvs) = json_pairs_fields kvs"
| "json_pairs (JArray xs) = json_pairs_items xs"
| "json_pairs v = []"
| "json_pairs_fields [] = []"
| "json_pairs_fields ((k, c) # kvs) = (k, c) # json_pairs c @ json_pairs_fields kvs"
| "json_pairs_items [] = []"
| "json_pairs_items (c # xs) = json_pairs c @ json_pairs_items xs"

lemma redact_nested_covers:
  "(k, c) \<in> set (json_pairs (redact_nested_fields p v)) \<Longrightarrow> matches_pattern p k \<Longrightarrow> c = redacted"
  "(k, c) \<in> set (json_pairs_fields (redact_fields p kvs)) \<Longrightarrow> matches_pattern p k \<Longrightarrow> c = redacted"
  "(k, c) \<in> set (json_pairs_items (redact_items p xs)) \<Longrightarrow> matches_pattern p k \<Longrightarrow> c = redacted"
  by (induction p v and p kvs and p xs
      rule: redact_nested_fields_redact_fields_redact_items.induct)
    (auto split: if_splits)

lemma redact_nested_idem:
  "redact_nested_fields p (redact_nested_fields p v) = redact_nested_fields p v"
  "redact_fields p (redact_fields p kvs) = redact_fields p kvs"
  "redact_items p (redact_items p xs) = redact_items p xs"
  by (induction p v and p kvs and p xs
      rule: redact_nested_fields_redact_fields_redact_items.induct) auto

lemma redact_fields_keys: "map fst (redact_fields p kvs) = map fst kvs"
  by (induction kvs) auto

lemma redact_nested_frame:
  "(\<And>k c. (k, c) \<in> set (json_pairs v) \<Longrightarrow> \<not> matches_pattern p k) \<Longrightarrow> redact_nested_fields p v = v"
  "(\<And>k c. (k, c) \<in> set (json_pairs_fields kvs) \<Longrightarrow> \<not> matches_pattern p k) \<Longrightarrow> redact_fields p kvs = kvs"
  "(\<And>k c. (k, c) \<in> set (json_pairs_items xs) \<Longrightarrow> \<not> matches_pattern p k) \<Longrightarrow> redact_items p xs = xs"
  by (induction p v and p kvs and p xs
      rule: redact_nested_fields_redact_fields_redact_items.induct) fastforce+

section \<open>Errors\<close>

lemma apply_mask_total:
  assumes "json_total x"
  shows "\<exists>v'. apply_mask x v m = (Inr (), v')"
proof -
  obtain s where "json_text x v = Inr s" using assms by (auto simp: json_total_def)
  then show ?thesis by (cases m; cases v) (auto simp: apply_mask_def)
qed

lemma apply_directives_total:
  "json_total x \<Longrightarrow> \<exists>v'. apply_directives x ds path v = (Inr (), v')"
proof (induction ds arbitrary: v)
  case (Cons d ds)
  obtain v' where "apply_mask x v (md_mask_type d) = (Inr (), v')"
    using apply_mask_total [OF Cons.prems] by blast
  with Cons show ?case by auto
qed simp

lemma apply_recursive_total:
  "json_total x \<Longrightarrow> fst (apply_recursive x ds path v) = Inr ()"
  "json_total x \<Longrightarrow> fst (apply_fields x ds path kvs) = Inr ()"
  "json_total x \<Longrightarrow> fst (apply_items x ds path i xs) = Inr ()"
proof (induction x ds path v and x ds path kvs and x ds path i xs
    rule: apply_recursive_apply_fields_apply_items.induct)
  case (1 x masks path v)
  obtain v' where d: "apply_directives x masks path v = (Inr (), v')"
    using apply_directives_total [OF 1(3)] by blast
  have "fst (apply_fields x masks path kvs) = Inr ()" if "v' = JObject kvs" for kvs
    using 1 d that by simp
  moreover have "fst (apply_items x masks path 0 xs) = Inr ()" if "v' = JArray xs" for xs
    using 1 d that by simp
  ultimately show ?case
    by (subst apply_recursive.simps) (auto simp: d split: json.split prod.splits)
qed (fastforce split: sum.splits prod.splits)+

section \<open>E-mail masks\<close>

lemma mask_email_at:
  "CHR ''@'' \<notin> set l \<Longrightarrow>
     mask_email (l @ CHR ''@'' # d) = (if l = [] then CHR ''*'' else hd l) # ''***@'' @ d"
proof -
  assume "CHR ''@'' \<notin> set l"
  then have "split_once (CHR ''@'') (l @ CHR ''@'' # d) = Some (l, d)" by (simp add: split_once_Some)
  then show ?thesis by (cases l) (simp_all add: mask_email_def)
qed

lemma mask_email_no_at: "CHR ''@'' \<notin> set s \<Longrightarrow> mask_email s = ''[REDACTED]''"
  by (simp add: mask_email_def split_once_None [THEN iffD2])

lemma mask_email_idem: "mask_email (mask_email s) = mask_email s"
proof (cases "split_once (CHR ''@'') s")
  case None
  then have "mask_email s = ''[REDACTED]''" by (simp add: mask_email_def)
  moreover have "mask_email ''[REDACTED]'' = ''[REDACTED]''" by (rule mask_email_no_at) simp
  ultimately show ?thesis by simp
next
  case (Some ld)
  obtain l d where ld: "ld = (l, d)" by fastforce
  with Some have s: "s = l @ CHR ''@'' # d" "CHR ''@'' \<notin> set l" by (simp_all add: split_once_Some)
  let ?c = "if l = [] then CHR ''*'' else hd l"
  have c: "CHR ''@'' \<notin> set (?c # ''***'')" using s(2) by (cases l) auto
  have m: "mask_email s = (?c # ''***'') @ CHR ''@'' # d" using mask_email_at [OF s(2)] s(1) by simp
  show ?thesis using mask_email_at [OF c, of d] m by simp
qed

end
