(* ===== verification/Config.thy ===== *)
theory Config
  imports Guard_Types
begin

text \<open>
  \<open>src/config.rs\<close>: the configuration record, its construction from environment variables and
  the connection string. The environment is a map from names to values; \<open>None\<close> covers an unset
  variable and one that is not Unicode, which \<open>std::env::var\<close> treats alike.
\<close>

type_synonym u8 = "8 word"

record guard_config =
  db_path :: string
  jwt_secret :: string
  policy_dir :: "string option"
  sensitive_resources :: "string list"
  audit_flush_interval_ms :: u64
  audit_batch_size :: u64
  business_hours_start_hour :: u8
  business_hours_end_hour :: u8

type_synonym env = "string \<Rightarrow> string option"

text \<open>\<open>parse_or_default::<T>\<close> for an unsigned \<open>T\<close> of \<open>w\<close> bits.\<close>

definition parse_or_default :: "env \<Rightarrow> nat \<Rightarrow> string \<Rightarrow> nat \<Rightarrow> nat guard_result" where
  "parse_or_default env w name def =
     (case env name of
        Some v \<Rightarrow>
          (case parse_uint w v of
             Inr n \<Rightarrow> Inr n
           | Inl err \<Rightarrow> Inl (ConfigError (''invalid '' @ name @ '': '' @ err)))
      | None \<Rightarrow> Inr def)"

definition parse_sensitive :: "string \<Rightarrow> string list" where
  "parse_sensitive s =
     filter (\<lambda>trimmed. trimmed \<noteq> []) (map str_trim (str_split (CHR '','') s))"

definition from_env :: "env \<Rightarrow> guard_config guard_result" where
  "from_env env =
     res_bind (ok_or (ConfigError ''CLAW_GUARD_JWT_SECRET is required'') (env ''CLAW_GUARD_JWT_SECRET''))
       (\<lambda>secret.
     let path = (case env ''CLAW_GUARD_DB_PATH'' of Some v \<Rightarrow> v | None \<Rightarrow> ''claw_guard.db'');
         dir = (case env ''CLAW_GUARD_POLICY_DIR'' of
                  Some v \<Rightarrow> if v = [] then None else Some v | None \<Rightarrow> None);
         sensitive = parse_sensitive
           (case env ''CLAW_GUARD_SENSITIVE_RESOURCES'' of Some v \<Rightarrow> v | None \<Rightarrow> [])
     in res_bind (parse_or_default env 64 ''CLAW_GUARD_AUDIT_FLUSH_INTERVAL_MS'' 100) (\<lambda>interval.
        res_bind (parse_or_default env 64 ''CLAW_GUARD_AUDIT_BATCH_SIZE'' 500) (\<lambda>batch.
        res_bind (parse_or_default env 8 ''CLAW_GUARD_BUSINESS_HOURS_START'' 8) (\<lambda>start.
        res_bind (parse_or_default env 8 ''CLAW_GUARD_BUSINESS_HOURS_END'' 18) (\<lambda>stop.
        Inr \<lparr>db_path = path, jwt_secret = secret, policy_dir = dir,
             sensitive_resources = sensitive,
             audit_flush_interval_ms = of_nat interval, audit_batch_size = of_nat batch,
             business_hours_start_hour = of_nat start,
             business_hours_end_hour = of_nat stop\<rparr>)))))"

definition sqlite_connection_string :: "guard_config \<Rightarrow> string" where
  "sqlite_connection_string cfg =
     (let path = db_path cfg in
      if path = '':memory:'' then ''sqlite::memory:''
      else if starts_with path ''sqlite:'' then path
      else ''sqlite://'' @ path @ ''?mode=rwc'')"

text \<open>\<open>impl Debug for GuardConfig\<close>: the fields it prints, in order; the secret never among them.\<close>

definition debug_fields :: "guard_config \<Rightarrow> (string \<times> string list) list" where
  "debug_fields cfg =
     [(''db_path'', [db_path cfg]),
      (''jwt_secret'', [''***REDACTED***'']),
      (''policy_dir'', (case policy_dir cfg of None \<Rightarrow> [] | Some d \<Rightarrow> [d])),
      (''sensitive_resources'', sensitive_resources cfg),
      (''audit_flush_interval_ms'', [show_nat (unat (audit_flush_interval_ms cfg))]),
      (''audit_batch_size'', [show_nat (unat (audit_batch_size cfg))]),
      (''business_hours_start_hour'', [show_nat (unat (business_hours_start_hour cfg))]),
      (''business_hours_end_hour'', [show_nat (unat (business_hours_end_hour cfg))])]"

section \<open>Facts\<close>

lemma parse_or_default_bound:
  "parse_or_default env w name def = Inr n \<Longrightarrow> def < 2 ^ w \<Longrightarrow> n < 2 ^ w"
  by (auto simp: parse_or_default_def dest: parse_uint_bound split: option.splits sum.splits)

lemma parse_or_default_unset: "env name = None \<Longrightarrow> parse_or_default env w name def = Inr def"
  by (simp add: parse_or_default_def)

lemma parse_or_default_shown:
  "env name = Some (show_nat n) \<Longrightarrow> n < 2 ^ w \<Longrightarrow> parse_or_default env w name def = Inr n"
  by (simp add: parse_or_default_def parse_uint_show_nat)

lemma parse_or_default_error:
  "parse_or_default env w name def = Inl e \<Longrightarrow> \<exists>m. e = ConfigError m"
  by (auto simp: parse_or_default_def split: option.splits sum.splits)

lemma str_trim_set: "set (str_trim s) \<subseteq> set s"
proof -
  have dw: "set (dropWhile P xs) \<subseteq> set xs" for P and xs :: string
    by (metis set_dropWhileD subsetI)
  show ?thesis
    unfolding str_trim_def using dw [of is_whitespace s]
      dw [of is_whitespace "rev (dropWhile is_whitespace s)"] by simp
qed

lemma parse_sensitive_clean:
  "r \<in> set (parse_sensitive s) \<Longrightarrow> r \<noteq> [] \<and> CHR '','' \<notin> set r"
proof -
  assume "r \<in> set (parse_sensitive s)"
  then obtain q where q: "q \<in> set (str_split (CHR '','') s)" "r = str_trim q" "r \<noteq> []"
    by (auto simp: parse_sensitive_def)
  then show ?thesis using str_split_pieces [OF q(1)] str_trim_set [of q] by auto
qed

lemma parse_or_default_word:
  "parse_or_default env LENGTH('w) name def = Inr n \<Longrightarrow> def < 2 ^ LENGTH('w) \<Longrightarrow>
     unat (of_nat n :: 'w::len word) = n"
  using parse_or_default_bound [of env "LENGTH('w)" name def n] by (simp add: unat_of_nat)

lemma from_env_Inr:
  "from_env env = Inr cfg \<Longrightarrow>
     env ''CLAW_GUARD_JWT_SECRET'' = Some (jwt_secret cfg) \<and>
     parse_or_default env 8 ''CLAW_GUARD_BUSINESS_HOURS_START'' 8 =
       Inr (unat (business_hours_start_hour cfg)) \<and>
     parse_or_default env 8 ''CLAW_GUARD_BUSINESS_HOURS_END'' 18 =
       Inr (unat (business_hours_end_hour cfg)) \<and>
     parse_or_default env 64 ''CLAW_GUARD_AUDIT_FLUSH_INTERVAL_MS'' 100 =
       Inr (unat (audit_flush_interval_ms cfg)) \<and>
     parse_or_default env 64 ''CLAW_GUARD_AUDIT_BATCH_SIZE'' 500 = Inr (unat (audit_batch_size cfg))"
proof -
  assume "from_env env = Inr cfg"
  then show ?thesis
    using parse_or_default_word [where 'w = 8] parse_or_default_word [where 'w = 64]
    by (auto simp: from_env_def Let_def res_bind_Inr_iff ok_or_Inr_iff)
qed

lemma from_env_error_is_config: "from_env env = Inl e \<Longrightarrow> \<exists>m. e = ConfigError m"
  by (auto simp: from_env_def Let_def res_bind_Inl_iff ok_or_def
      dest: parse_or_default_error split: option.splits)

end
