(* ===== verification/Policy_Rules.thy ===== *)
theory Policy_Rules
  imports Masking Config
begin

text \<open>
  The rule language of \<open>src/policy/mod.rs\<close>: conditions, rules, policies, the evaluation loop of
  \<open>PolicyEngine::evaluate\<close> over the policies it was handed, and the risk score.
\<close>

section \<open>Conditions and rules\<close>

datatype condition =
    TaskMatches string
  | RoleIs string
  | ScopeContains string
  | RiskAbove f64
  | ResourceIs string
  | WorkspaceIs uuid
  | And condition condition
  | Or condition condition
  | Not_cond condition

record eval_context =
  ec_agent_id :: uuid
  ec_workspace_id :: uuid
  ec_role :: string
  ec_scopes :: "string list"
  ec_task :: string
  ec_resource :: string
  ec_action :: string
  ec_risk_score :: f64

datatype policy_rule =
    AllowIf condition
  | DenyIf condition string
  | MaskField string mask_type

record policy =
  p_id :: uuid
  p_name :: string
  p_description :: "string option"
  p_rules :: "policy_rule list"
  p_priority :: int
  p_enabled :: bool
  p_created_at :: datetime
  p_updated_at :: datetime

text \<open>\<open>Condition::matches\<close>.\<close>

fun cond_matches :: "condition \<Rightarrow> eval_context \<Rightarrow> bool" where
  "cond_matches (TaskMatches v) ctx = (ec_task ctx = v)"
| "cond_matches (RoleIs v) ctx = (ec_role ctx = v)"
| "cond_matches (ScopeContains v) ctx = list_ex (\<lambda>scope. scope = v) (ec_scopes ctx)"
| "cond_matches (RiskAbove v) ctx = f64_less v (ec_risk_score ctx)"
| "cond_matches (ResourceIs v) ctx = (ec_resource ctx = v)"
| "cond_matches (WorkspaceIs v) ctx = (ec_workspace_id ctx = v)"
| "cond_matches (And l r) ctx = (cond_matches l ctx \<and> cond_matches r ctx)"
| "cond_matches (Or l r) ctx = (cond_matches l ctx \<or> cond_matches r ctx)"
| "cond_matches (Not_cond c) ctx = (\<not> cond_matches c ctx)"

section \<open>Evaluation\<close>

text \<open>The inner loop over one policy's rules; \<open>Some\<close> is a \<open>return\<close> out of both loops.\<close>

fun eval_rules :: "policy_rule list \<Rightarrow> eval_context \<Rightarrow> policy_decision option" where
  "eval_rules [] ctx = None"
| "eval_rules (AllowIf c # rules) ctx =
     (if cond_matches c ctx then Some Allow else eval_rules rules ctx)"
| "eval_rules (DenyIf c reason # rules) ctx =
     (if cond_matches c ctx then Some (Deny reason) else eval_rules rules ctx)"
| "eval_rules (MaskField field_pattern m # rules) ctx = Some (Mask [field_pattern])"

fun eval_policies :: "policy list \<Rightarrow> eval_context \<Rightarrow> policy_decision" where
  "eval_policies [] ctx = Deny ''no matching policy rule''"
| "eval_policies (p # ps) ctx =
     (case eval_rules (p_rules p) ctx of
        Some d \<Rightarrow> d
      | None \<Rightarrow> eval_policies ps ctx)"

section \<open>Risk\<close>

text \<open>\<open>compute_risk\<close>; \<open>hour\<close> is \<open>Local::now().hour() as u8\<close>.\<close>

definition compute_risk :: "guard_config \<Rightarrow> u8 \<Rightarrow> eval_context \<Rightarrow> f64" where
  "compute_risk cfg hour ctx =
     (let action = to_ascii_lowercase (ec_action ctx);
          score = f64_zero;
          score = (if str_contains action ''write'' \<or> str_contains action ''update''
                   then f64_add score (f64_lit 3 10) else score);
          score = (if str_contains action ''delete''
                   then f64_add score (f64_lit 5 10) else score);
          score = (if list_ex (\<lambda>resource. resource = ec_resource ctx) (sensitive_resources cfg)
                   then f64_add score (f64_lit 3 10) else score);
          score = (if hour < business_hours_start_hour cfg \<or> business_hours_end_hour cfg \<le> hour
                   then f64_add score (f64_lit 1 10) else score)
      in f64_clamp score f64_zero f64_one)"

section \<open>First match over all rules\<close>

text \<open>The reference: one list of rules, the first that fires decides.\<close>

fun rule_fires :: "eval_context \<Rightarrow> policy_rule \<Rightarrow> bool" where
  "rule_fires ctx (AllowIf c) = cond_matches c ctx"
| "rule_fires ctx (DenyIf c reason) = cond_matches c ctx"
| "rule_fires ctx (MaskField fp m) = True"

fun rule_decision :: "policy_rule \<Rightarrow> policy_decision" where
  "rule_decision (AllowIf c) = Allow"
| "rule_decision (DenyIf c reason) = Deny reason"
| "rule_decision (MaskField fp m) = Mask [fp]"

definition first_match :: "policy_rule list \<Rightarrow> eval_context \<Rightarrow> policy_decision" where
  "first_match rules ctx =
     (case List.find (rule_fires ctx) rules of
        Some r \<Rightarrow> rule_decision r
      | None \<Rightarrow> Deny ''no matching policy rule'')"

lemma eval_rules_find:
  "eval_rules rules ctx = map_option rule_decision (List.find (rule_fires ctx) rules)"
  by (induction rules ctx rule: eval_rules.induct) auto

lemma eval_policies_first_match:
  "eval_policies ps ctx = first_match (concat (map p_rules ps)) ctx"
  by (induction ps) (auto simp: first_match_def eval_rules_find find_append split: option.split)

lemma first_match_cases:
  "first_match rules ctx = d \<Longrightarrow>
     (\<exists>us r vs. rules = us @ r # vs \<and> rule_fires ctx r \<and> rule_decision r = d \<and>
        (\<forall>u\<in>set us. \<not> rule_fires ctx u)) \<or>
     ((\<forall>r\<in>set rules. \<not> rule_fires ctx r) \<and> d = Deny ''no matching policy rule'')"
  unfolding first_match_def
  by (auto simp: find_Some_split find_None_iff split: option.splits)

lemma first_match_fires:
  "\<forall>u\<in>set us. \<not> rule_fires ctx u \<Longrightarrow> rule_fires ctx r \<Longrightarrow>
     first_match (us @ r # vs) ctx = rule_decision r"
proof -
  assume "\<forall>u\<in>set us. \<not> rule_fires ctx u" "rule_fires ctx r"
  then have "List.find (rule_fires ctx) (us @ r # vs) = Some r"
    unfolding find_Some_split by blast
  then show ?thesis by (simp add: first_match_def)
qed

lemma first_match_mask_cuts:
  "first_match (us @ MaskField fp m # vs) ctx = first_match (us @ MaskField fp m # ws) ctx"
  by (simp add: first_match_def find_append split: option.split)

end
