(* ===== verification/Risk_Score.thy ===== *)
theory Risk_Score
  imports Policy_Rules
begin

text \<open>
  The risk score on doubles. The four contributions are 0.3, 0.5, 0.3 and 0.1; their sums on
  doubles are rounded at every step, yet every score the function returns is the double nearest
  to the decimal sum, capped at 1. Mantissas below are in units of \<open>2 ^ -60\<close>.
\<close>

section \<open>Decimal literals and their sums\<close>

abbreviation units60 :: "nat \<Rightarrow> f64" where
  "units60 n \<equiv> Fin (int n * 2 ^ 1014)"

lemma f64_lit_eval:
  assumes "2 ^ b \<le> p * 2 ^ 60 div q" "p * 2 ^ 60 div q < 2 ^ Suc b" "52 \<le> b"
    "half_even (p * 2 ^ 60) (q * 2 ^ (Suc b - 53)) * 2 ^ (Suc b - 53) = r" "r < 2 ^ 64"
  shows "f64_lit p q = units60 r"
proof -
  have "(2::nat) ^ 1074 = 2 ^ 60 * 2 ^ 1014" by (simp only: power_add [symmetric]) simp
  then have p: "p * 2 ^ 1074 = p * 2 ^ 60 * 2 ^ 1014" by (simp only: mult.assoc)
  have "round_nearest (p * 2 ^ 60) q = r" using round_nearest_eval [OF assms(1,2)] assms(4) by (simp only:)
  with round_nearest_scale_q [OF assms(1-3), of 1014]
  have "round_nearest (p * 2 ^ 1074) q = r * 2 ^ 1014" by (simp only: p)
  then show ?thesis using f64_pack_scaled [OF assms(5), of 1014] by (simp only: f64_lit_def)
qed

lemma lit_1: "f64_lit 1 10 = units60 115292150460684704"
  by (rule f64_lit_eval [where b = 56]) (simp_all add: half_even_def)

lemma lit_3: "f64_lit 3 10 = units60 345876451382054080"
  by (rule f64_lit_eval [where b = 58]) (simp_all add: half_even_def)

lemma lit_4: "f64_lit 4 10 = units60 461168601842738816"
  by (rule f64_lit_eval [where b = 58]) (simp_all add: half_even_def)

lemma lit_5: "f64_lit 5 10 = units60 576460752303423488"
  by (rule f64_lit_eval [where b = 59]) (simp_all add: half_even_def)

lemma lit_6: "f64_lit 6 10 = units60 691752902764108160"
  by (rule f64_lit_eval [where b = 59]) (simp_all add: half_even_def)

lemma lit_7: "f64_lit 7 10 = units60 807045053224792832"
  by (rule f64_lit_eval [where b = 59]) (simp_all add: half_even_def)

lemma lit_8: "f64_lit 8 10 = units60 922337203685477632"
  by (rule f64_lit_eval [where b = 59]) (simp_all add: half_even_def)

lemma lit_9: "f64_lit 9 10 = units60 1037629354146162304"
  by (rule f64_lit_eval [where b = 59]) (simp_all add: half_even_def)

lemma lit_10: "f64_lit 10 10 = units60 1152921504606846976"
  by (rule f64_lit_eval [where b = 60]) (simp_all add: half_even_def)

lemma lit_11: "f64_lit 11 10 = units60 1268213655067531776"
  by (rule f64_lit_eval [where b = 60]) (simp_all add: half_even_def)

lemma add_eval:
  assumes "2 ^ b \<le> m + n" "m + n < 2 ^ Suc b"
    "half_even (m + n) (2 ^ (Suc b - 53)) * 2 ^ (Suc b - 53) = r" "r < 2 ^ 64"
  shows "f64_add (units60 m) (units60 n) = units60 r"
  using assms round_nearest_eval [of b "m + n" 1] by (intro f64_add_scaled) simp_all

lemma zero_units: "f64_zero = units60 0"
  by (simp add: f64_zero_def)

lemma add_0_1: "f64_add f64_zero (f64_lit 1 10) = f64_lit 1 10"
  unfolding zero_units lit_1 by (rule add_eval [where b = 56]) (simp_all add: half_even_def)

lemma add_0_3: "f64_add f64_zero (f64_lit 3 10) = f64_lit 3 10"
  unfolding zero_units lit_3 by (rule add_eval [where b = 58]) (simp_all add: half_even_def)

lemma add_0_5: "f64_add f64_zero (f64_lit 5 10) = f64_lit 5 10"
  unfolding zero_units lit_5 by (rule add_eval [where b = 59]) (simp_all add: half_even_def)

lemma add_3_5: "f64_add (f64_lit 3 10) (f64_lit 5 10) = f64_lit 8 10"
  unfolding lit_3 lit_5 lit_8 by (rule add_eval [where b = 59]) (simp_all add: half_even_def)

lemma add_3_3: "f64_add (f64_lit 3 10) (f64_lit 3 10) = f64_lit 6 10"
  unfolding lit_3 lit_3 lit_6 by (rule add_eval [where b = 59]) (simp_all add: half_even_def)

lemma add_3_1: "f64_add (f64_lit 3 10) (f64_lit 1 10) = f64_lit 4 10"
  unfolding lit_3 lit_1 lit_4 by (rule add_eval [where b = 58]) (simp_all add: half_even_def)

lemma add_5_3: "f64_add (f64_lit 5 10) (f64_lit 3 10) = f64_lit 8 10"
  unfolding lit_5 lit_3 lit_8 by (rule add_eval [where b = 59]) (simp_all add: half_even_def)

lemma add_5_1: "f64_add (f64_lit 5 10) (f64_lit 1 10) = f64_lit 6 10"
  unfolding lit_5 lit_1 lit_6 by (rule add_eval [where b = 59]) (simp_all add: half_even_def)

lemma add_8_3: "f64_add (f64_lit 8 10) (f64_lit 3 10) = f64_lit 11 10"
  unfolding lit_8 lit_3 lit_11 by (rule add_eval [where b = 60]) (simp_all add: half_even_def)

lemma add_8_1: "f64_add (f64_lit 8 10) (f64_lit 1 10) = f64_lit 9 10"
  unfolding lit_8 lit_1 lit_9 by (rule add_eval [where b = 59]) (simp_all add: half_even_def)

lemma add_6_1: "f64_add (f64_lit 6 10) (f64_lit 1 10) = f64_lit 7 10"
  unfolding lit_6 lit_1 lit_7 by (rule add_eval [where b = 59]) (simp_all add: half_even_def)

lemma add_11_1: "f64_add (f64_lit 11 10) (f64_lit 1 10) = units60 1383505805528216576"
  unfolding lit_11 lit_1 by (rule add_eval [where b = 60]) (simp_all add: half_even_def)

lemma one_units: "f64_one = units60 1152921504606846976"
  by (simp add: f64_one_def)

lemma lit_10_one: "f64_lit 10 10 = f64_one"
  by (simp add: lit_10 one_units)

lemma lit_0: "f64_lit 0 10 = f64_zero"
  by (simp add: f64_lit_def round_nearest_def half_even_def f64_pack_def f64_max_units_def
      f64_zero_def floorlog_def)

lemma less_units [simp]: "f64_less (units60 m) (units60 n) \<longleftrightarrow> m < n"
  by simp

lemmas lit_units = lit_0 lit_1 lit_3 lit_4 lit_5 lit_6 lit_7 lit_8 lit_9 lit_10

section \<open>The score\<close>

lemma clamp_in: "n \<le> 1152921504606846976 \<Longrightarrow> f64_clamp (units60 n) f64_zero f64_one = units60 n"
  unfolding zero_units one_units f64_clamp_def less_units by simp

lemma clamp_above: "1152921504606846976 < n \<Longrightarrow> f64_clamp (units60 n) f64_zero f64_one = f64_one"
  unfolding zero_units one_units f64_clamp_def less_units by simp

lemma clamp_lit:
  "f64_clamp f64_zero f64_zero f64_one = f64_zero"
  "p \<in> {1, 3, 4, 5, 6, 7, 8, 9} \<Longrightarrow> f64_clamp (f64_lit p 10) f64_zero f64_one = f64_lit p 10"
  "f64_clamp (f64_lit 11 10) f64_zero f64_one = f64_one"
  "f64_clamp (f64_add (f64_lit 11 10) (f64_lit 1 10)) f64_zero f64_one = f64_one"
proof -
  show "f64_clamp f64_zero f64_zero f64_one = f64_zero"
    using clamp_in [of 0] by (simp only: zero_units)
  show "p \<in> {1, 3, 4, 5, 6, 7, 8, 9} \<Longrightarrow> f64_clamp (f64_lit p 10) f64_zero f64_one = f64_lit p 10"
    by (elim insertE emptyE; simp only: lit_units; rule clamp_in; simp)
  show "f64_clamp (f64_lit 11 10) f64_zero f64_one = f64_one"
    unfolding lit_11 by (rule clamp_above) simp
  show "f64_clamp (f64_add (f64_lit 11 10) (f64_lit 1 10)) f64_zero f64_one = f64_one"
    unfolding add_11_1 by (rule clamp_above) simp
qed

definition action_writes :: "eval_context \<Rightarrow> bool" where
  "action_writes ctx \<longleftrightarrow>
     (let a = to_ascii_lowercase (ec_action ctx) in str_contains a ''write'' \<or> str_contains a ''update'')"

definition action_deletes :: "eval_context \<Rightarrow> bool" where
  "action_deletes ctx \<longleftrightarrow> str_contains (to_ascii_lowercase (ec_action ctx)) ''delete''"

definition off_hours :: "guard_config \<Rightarrow> u8 \<Rightarrow> bool" where
  "off_hours cfg hour \<longleftrightarrow>
     hour < business_hours_start_hour cfg \<or> business_hours_end_hour cfg \<le> hour"

definition risk_tenths :: "guard_config \<Rightarrow> u8 \<Rightarrow> eval_context \<Rightarrow> nat" where
  "risk_tenths cfg hour ctx =
     (if action_writes ctx then 3 else 0) + (if action_deletes ctx then 5 else 0) +
     (if ec_resource ctx \<in> set (sensitive_resources cfg) then 3 else 0) +
     (if off_hours cfg hour then 1 else 0)"

lemma compute_risk_unfold:
  "compute_risk cfg hour ctx =
     f64_clamp
       ((\<lambda>s. if off_hours cfg hour then f64_add s (f64_lit 1 10) else s)
       ((\<lambda>s. if ec_resource ctx \<in> set (sensitive_resources cfg) then f64_add s (f64_lit 3 10) else s)
       ((\<lambda>s. if action_deletes ctx then f64_add s (f64_lit 5 10) else s)
       ((\<lambda>s. if action_writes ctx then f64_add s (f64_lit 3 10) else s) f64_zero))))
       f64_zero f64_one"
proof -
  have "list_ex (\<lambda>resource. resource = ec_resource ctx) (sensitive_resources cfg) \<longleftrightarrow>
    ec_resource ctx \<in> set (sensitive_resources cfg)" by (auto simp: list_ex_iff)
  then show ?thesis
    by (simp add: compute_risk_def action_writes_def action_deletes_def off_hours_def Let_def)
qed

lemmas risk_arith = add_0_1 add_0_3 add_0_5 add_3_5 add_3_3 add_3_1 add_5_3 add_5_1 add_8_3 add_8_1
  add_6_1 clamp_lit lit_0 lit_10_one

lemma compute_risk_tenths: "compute_risk cfg hour ctx = f64_lit (min 10 (risk_tenths cfg hour ctx)) 10"
  unfolding compute_risk_unfold risk_tenths_def
  by (cases "action_writes ctx"; cases "action_deletes ctx";
      cases "ec_resource ctx \<in> set (sensitive_resources cfg)"; cases "off_hours cfg hour";
      simp add: risk_arith del: One_nat_def)

lemma lit_tenths_range:
  "n \<le> 10 \<Longrightarrow> n \<noteq> 2 \<Longrightarrow> \<exists>k. f64_lit n 10 = Fin k \<and> 0 \<le> k \<and> k \<le> 2 ^ 1074"
proof -
  assume n: "n \<le> 10" "n \<noteq> 2"
  then have "n \<in> set ([0..<2] @ [3..<11])" unfolding set_append set_upt by auto
  then show ?thesis using lit_units by (auto simp: upt_rec lit_units f64_zero_def)
qed

lemma risk_tenths_not_2: "min 10 (risk_tenths cfg hour ctx) \<noteq> 2"
  by (auto simp: risk_tenths_def)

end
