(* ===== verification/Policy_Parse.thy ===== *)
theory Policy_Parse
  imports Policy_Rules
begin

text \<open>
  From TOML text to policies: \<open>parse_policy_source\<close> and the functions under it. The TOML parser
  is external; the derived \<open>Deserialize\<close> of the file structs is spelled out as \<open>de_\<close> functions on
  the parsed value (a missing \<open>Option\<close> is \<open>None\<close>, \<open>#[serde(default)]\<close> fields have their default,
  unknown keys are ignored, a value of another type is an error).
\<close>

record policy_rule_file =
  rf_kind :: string
  rf_reason :: "string option"
  rf_condition :: "toml option"
  rf_field_pattern :: "string option"
  rf_mask_type :: "toml option"

record policy_file =
  pf_name :: "string option"
  pf_description :: "string option"
  pf_priority :: int
  pf_enabled :: bool
  pf_rules :: "policy_rule_file list"

section \<open>Deserialisation of the file structs\<close>

text \<open>An \<open>Option<String>\<close> field: \<open>None\<close> is a type error.\<close>

definition de_opt_string :: "(string \<times> toml) list \<Rightarrow> string \<Rightarrow> string option option" where
  "de_opt_string t k =
     (case map_of t k of None \<Rightarrow> Some None | Some v \<Rightarrow> map_option Some (toml_as_str v))"

definition de_rule_file :: "toml \<Rightarrow> policy_rule_file option" where
  "de_rule_file v =
     (case toml_as_table v of
        None \<Rightarrow> None
      | Some t \<Rightarrow>
          Option.bind (Option.bind (map_of t ''type'') toml_as_str) (\<lambda>kind.
          Option.bind (de_opt_string t ''reason'') (\<lambda>reason.
          Option.bind (de_opt_string t ''field_pattern'') (\<lambda>field_pattern.
          Some \<lparr>rf_kind = kind, rf_reason = reason, rf_condition = map_of t ''condition'',
                rf_field_pattern = field_pattern, rf_mask_type = map_of t ''mask_type''\<rparr>))))"

definition default_enabled :: bool where
  "default_enabled = True"

definition de_priority :: "(string \<times> toml) list \<Rightarrow> int option" where
  "de_priority t =
     (case map_of t ''priority'' of
        None \<Rightarrow> Some 0
      | Some v \<Rightarrow>
          (case toml_as_integer v of
             Some i \<Rightarrow> if - (2 ^ 31) \<le> i \<and> i < 2 ^ 31 then Some i else None
           | None \<Rightarrow> None))"

definition de_enabled :: "(string \<times> toml) list \<Rightarrow> bool option" where
  "de_enabled t =
     (case map_of t ''enabled'' of
        None \<Rightarrow> Some default_enabled
      | Some v \<Rightarrow> (case v of TBoolean b \<Rightarrow> Some b | _ \<Rightarrow> None))"

definition de_list :: "(toml \<Rightarrow> 'a option) \<Rightarrow> (string \<times> toml) list \<Rightarrow> string \<Rightarrow> 'a list option" where
  "de_list de t k =
     (case map_of t k of
        None \<Rightarrow> Some []
      | Some v \<Rightarrow>
          (case toml_as_array v of
             None \<Rightarrow> None
           | Some items \<Rightarrow> those (map de items)))"

definition de_policy_file :: "toml \<Rightarrow> policy_file option" where
  "de_policy_file v =
     (case toml_as_table v of
        None \<Rightarrow> None
      | Some t \<Rightarrow>
          Option.bind (de_opt_string t ''name'') (\<lambda>name.
          Option.bind (de_opt_string t ''description'') (\<lambda>description.
          Option.bind (de_priority t) (\<lambda>priority.
          Option.bind (de_enabled t) (\<lambda>enabled.
          Option.bind (de_list de_rule_file t ''rules'') (\<lambda>rules.
          Some \<lparr>pf_name = name, pf_description = description, pf_priority = priority,
                pf_enabled = enabled, pf_rules = rules\<rparr>))))))"

definition de_policy_file_root :: "toml \<Rightarrow> policy_file list option" where
  "de_policy_file_root v =
     (case toml_as_table v of
        None \<Rightarrow> None
      | Some t \<Rightarrow> de_list de_policy_file t ''policies'')"

text \<open>\<open>toml::from_str::<T>\<close>.\<close>

definition toml_from_str :: "extern \<Rightarrow> (toml \<Rightarrow> 'a option) \<Rightarrow> string \<Rightarrow> 'a guard_result" where
  "toml_from_str x de source =
     (case toml_parse x source of
        Inl e \<Rightarrow> Inl (TomlError e)
      | Inr v \<Rightarrow> ok_or (TomlError (serde_mismatch x)) (de v))"

section \<open>Conditions\<close>

fun toml_nodes :: "toml \<Rightarrow> nat" where
  "toml_nodes (TArray xs) = Suc (sum_list (map toml_nodes xs))"
| "toml_nodes (TTable kvs) = Suc (sum_list (map (\<lambda>kv. toml_nodes (snd kv)) kvs))"
| "toml_nodes _ = 1"

lemma toml_nodes_pos [simp]: "0 < toml_nodes v"
  by (cases v) auto

lemma toml_nodes_get:
  "toml_as_table v = Some t \<Longrightarrow> map_of t k = Some w \<Longrightarrow> toml_nodes w < toml_nodes v"
proof -
  assume v: "toml_as_table v = Some t" and "map_of t k = Some w"
  then have "(k, w) \<in> set t" by (simp add: map_of_SomeD)
  then have "toml_nodes w \<in> set (map (\<lambda>kv. toml_nodes (snd kv)) t)" by force
  then have "toml_nodes w \<le> sum_list (map (\<lambda>kv. toml_nodes (snd kv)) t)"
    by (rule member_le_sum_list) simp
  with v show ?thesis by (cases v) simp_all
qed

function parse_condition :: "extern \<Rightarrow> toml \<Rightarrow> condition guard_result"
  and fold_conditions ::
    "extern \<Rightarrow> toml \<Rightarrow> (condition \<Rightarrow> condition \<Rightarrow> condition) \<Rightarrow> condition guard_result"
  and try_fold ::
    "extern \<Rightarrow> toml list \<Rightarrow> (condition \<Rightarrow> condition \<Rightarrow> condition) \<Rightarrow> condition \<Rightarrow> condition guard_result"
  where
  "parse_condition x v =
     (case toml_as_table v of
        None \<Rightarrow> Inl (ConfigError ''condition must be a table'')
      | Some table \<Rightarrow>
     (case map_of table ''and'' of Some items \<Rightarrow> fold_conditions x items And | None \<Rightarrow>
     (case map_of table ''or'' of Some items \<Rightarrow> fold_conditions x items Or | None \<Rightarrow>
     (case map_of table ''not'' of
        Some item \<Rightarrow>
          (case parse_condition x item of Inl e \<Rightarrow> Inl e | Inr c \<Rightarrow> Inr (Not_cond c))
      | None \<Rightarrow>
     (case Option.bind (map_of table ''task_matches'') toml_as_str of
        Some s \<Rightarrow> Inr (TaskMatches s) | None \<Rightarrow>
     (case Option.bind (map_of table ''role_is'') toml_as_str of
        Some s \<Rightarrow> Inr (RoleIs s) | None \<Rightarrow>
     (case Option.bind (map_of table ''scope_contains'') toml_as_str of
        Some s \<Rightarrow> Inr (ScopeContains s) | None \<Rightarrow>
     (case Option.bind (map_of table ''risk_above'') toml_as_float of
        Some r \<Rightarrow> Inr (RiskAbove r) | None \<Rightarrow>
     (case Option.bind (map_of table ''resource_is'') toml_as_str of
        Some s \<Rightarrow> Inr (ResourceIs s) | None \<Rightarrow>
     (case Option.bind (map_of table ''workspace_is'') toml_as_str of
        Some s \<Rightarrow>
          (case uuid_parse x s of Inl e \<Rightarrow> Inl (UuidError e) | Inr u \<Rightarrow> Inr (WorkspaceIs u))
      | None \<Rightarrow> Inl (ConfigError ''unsupported condition shape'')))))))))))"
| "fold_conditions x v combine =
     (case toml_as_array v of
        None \<Rightarrow> Inl (ConfigError ''logical conditions must be arrays'')
      | Some [] \<Rightarrow> Inl (ConfigError ''logical conditions must not be empty'')
      | Some (item # items) \<Rightarrow>
          (case parse_condition x item of
             Inl e \<Rightarrow> Inl e
           | Inr first \<Rightarrow> try_fold x items combine first))"
| "try_fold x [] combine left = Inr left"
| "try_fold x (item # items) combine left =
     (case parse_condition x item of
        Inl e \<Rightarrow> Inl e
      | Inr right \<Rightarrow> try_fold x items combine (combine left right))"
  by pat_completeness auto
termination
proof (relation "measure (\<lambda>a. case a of
      Inl (x, v) \<Rightarrow> 2 * toml_nodes v
    | Inr (Inl (x, v, combine)) \<Rightarrow> 2 * toml_nodes v + 1
    | Inr (Inr (x, items, combine, left)) \<Rightarrow> 2 * sum_list (map toml_nodes items) + 1)",
    goal_cases)
  case (5 x v combine items item rest)
  then show ?case by (cases v) auto
next
  case (6 x v combine items item rest c)
  then show ?case by (cases v) auto
qed (auto dest: toml_nodes_get)

declare parse_condition.simps [simp del] fold_conditions.simps [simp del]

section \<open>Masks, rules and policies\<close>

definition parse_mask_type :: "toml \<Rightarrow> mask_type guard_result" where
  "parse_mask_type v =
     (case toml_as_str v of
        Some kind \<Rightarrow>
          (if kind = ''redact'' then Inr Redact
           else if kind = ''hash_blake3'' \<or> kind = ''hash'' then Inr HashBlake3
           else if kind = ''email_mask'' then Inr EmailMask
           else Inl (ConfigError (''unsupported mask type: '' @ kind)))
      | None \<Rightarrow>
     (case toml_as_table v of
        None \<Rightarrow> Inl (ConfigError ''mask_type must be a string or table'')
      | Some table \<Rightarrow>
     (case Option.bind (Option.bind (map_of table ''truncate'') (\<lambda>t. toml_get t ''n'')) toml_as_integer of
        Some n \<Rightarrow> Inr (Truncate (word_of_int n))
      | None \<Rightarrow>
     (case Option.bind (Option.bind (map_of table ''json_field_mask'') (\<lambda>t. toml_get t ''pattern''))
             toml_as_str of
        Some pattern \<Rightarrow> Inr (JsonFieldMask pattern)
      | None \<Rightarrow> Inl (ConfigError ''unsupported mask type table'')))))"

definition parse_rule :: "extern \<Rightarrow> policy_rule_file \<Rightarrow> policy_rule guard_result" where
  "parse_rule x rule =
     (if rf_kind rule = ''allow_if'' then
        res_bind (ok_or (ConfigError ''allow_if requires condition'') (rf_condition rule)) (\<lambda>v.
        res_bind (parse_condition x v) (\<lambda>c.
        Inr (AllowIf c)))
      else if rf_kind rule = ''deny_if'' then
        res_bind (ok_or (ConfigError ''deny_if requires condition'') (rf_condition rule)) (\<lambda>v.
        res_bind (parse_condition x v) (\<lambda>c.
        res_bind (ok_or (ConfigError ''deny_if requires reason'') (rf_reason rule)) (\<lambda>r.
        Inr (DenyIf c r))))
      else if rf_kind rule = ''mask_field'' then
        res_bind (ok_or (ConfigError ''mask_field requires field_pattern'') (rf_field_pattern rule)) (\<lambda>fp.
        res_bind (ok_or (ConfigError ''mask_field requires mask_type'') (rf_mask_type rule)) (\<lambda>v.
        res_bind (parse_mask_type v) (\<lambda>m.
        Inr (MaskField fp m))))
      else Inl (ConfigError (''unsupported rule type: '' @ rf_kind rule)))"

text \<open>\<open>new_id\<close> and \<open>now\<close> are what \<open>Uuid::new_v4\<close> and \<open>Utc::now\<close> return for this policy.\<close>

definition policy_from_file ::
    "extern \<Rightarrow> uuid \<Rightarrow> datetime \<Rightarrow> policy_file \<Rightarrow> string \<Rightarrow> policy guard_result" where
  "policy_from_file x new_id now pf fallback_name =
     res_bind (map_res (parse_rule x) (pf_rules pf)) (\<lambda>rules.
     Inr \<lparr>p_id = new_id,
          p_name = (case pf_name pf of Some n \<Rightarrow> n | None \<Rightarrow> fallback_name),
          p_description = pf_description pf,
          p_rules = rules,
          p_priority = pf_priority pf,
          p_enabled = pf_enabled pf,
          p_created_at = now,
          p_updated_at = now\<rparr>)"

text \<open>\<open>draw i\<close> is the identifier and the time drawn for the \<open>i\<close>-th policy of the source.\<close>

definition parse_policy_source ::
    "extern \<Rightarrow> (nat \<Rightarrow> uuid \<times> datetime) \<Rightarrow> string \<Rightarrow> string \<Rightarrow> policy list guard_result" where
  "parse_policy_source x draw source fallback_name =
     (if str_contains source ''[[policies]]'' then
        res_bind (toml_from_str x de_policy_file_root source) (\<lambda>policies.
        map_res (\<lambda>(index, pf).
            policy_from_file x (fst (draw index)) (snd (draw index)) pf
              (fallback_name @ ''-'' @ show_nat index))
          (enumerate 0 policies))
      else
        res_bind (toml_from_str x de_policy_file source) (\<lambda>pf.
        res_bind (policy_from_file x (fst (draw 0)) (snd (draw 0)) pf fallback_name) (\<lambda>p.
        Inr [p])))"

section \<open>What a parsed condition means\<close>

lemma try_fold_map_res:
  "try_fold x items combine left =
     (case map_res (parse_condition x) items of
        Inl e \<Rightarrow> Inl e
      | Inr cs \<Rightarrow> Inr (foldl combine left cs))"
  by (induction items arbitrary: left) (auto split: sum.splits)

lemma fold_conditions_map_res:
  "fold_conditions x (TArray items) combine =
     (case map_res (parse_condition x) items of
        Inl e \<Rightarrow> Inl e
      | Inr [] \<Rightarrow> Inl (ConfigError ''logical conditions must not be empty'')
      | Inr (c # cs) \<Rightarrow> Inr (foldl combine c cs))"
  by (cases items) (auto simp: fold_conditions.simps try_fold_map_res split: sum.split)

lemma foldl_And: "cond_matches (foldl And c cs) ctx \<longleftrightarrow> (\<forall>d\<in>set (c # cs). cond_matches d ctx)"
  by (induction cs arbitrary: c) auto

lemma foldl_Or: "cond_matches (foldl Or c cs) ctx \<longleftrightarrow> (\<exists>d\<in>set (c # cs). cond_matches d ctx)"
  by (induction cs arbitrary: c) auto

lemma parse_condition_and:
  "map_of t ''and'' = Some items \<Longrightarrow> parse_condition x (TTable t) = fold_conditions x items And"
  by (simp add: parse_condition.simps)

lemma parse_condition_or:
  "map_of t ''and'' = None \<Longrightarrow> map_of t ''or'' = Some items \<Longrightarrow>
     parse_condition x (TTable t) = fold_conditions x items Or"
  by (simp add: parse_condition.simps)

lemma fold_conditions_Inr:
  "fold_conditions x v combine = Inr c \<Longrightarrow>
     \<exists>items d ds. v = TArray items \<and> map_res (parse_condition x) items = Inr (d # ds) \<and> c = foldl combine d ds"
  by (cases v) (auto simp: fold_conditions_map_res fold_conditions.simps try_fold_map_res
      split: sum.splits list.splits)

end
