(* ===== verification/Rule_Claims.thy ===== *)
theory Rule_Claims
  imports Masking_Safety Risk_Score Policy_Parse
begin

text \<open>
  The properties of the components without a database: patterns, masking, configuration, risk and
  the parsing of conditions.
\<close>

section \<open>Patterns\<close>

text \<open>
  C33. The wildcard matcher never matches what the glob does not. For a pattern that ends with a star
  it is exactly the glob, and for a pattern without a star it is equality.
\<close>

theorem pattern_agrees_with_glob:
  "(matches_pattern p v \<longrightarrow> glob p v) \<and>
   (p \<noteq> [] \<and> last p = CHR ''*'' \<longrightarrow> (matches_pattern p v \<longleftrightarrow> glob p v)) \<and>
   (CHR ''*'' \<notin> set p \<longrightarrow> (matches_pattern p v \<longleftrightarrow> p = v))"
  using matches_pattern_sound matches_pattern_open_end matches_pattern_literal by blast

theorem pattern_agrees_with_glob_witness:
  "matches_pattern ''$.user.*'' ''$.user.mail'' \<and> glob ''$.user.*'' ''$.user.mail'' \<and>
   \<not> matches_pattern ''role'' ''roles''"
proof -
  have "matches_pattern ''$.user.*'' ''$.user.mail''" by code_simp
  then show ?thesis
    using pattern_agrees_with_glob [of "''$.user.*''" "''$.user.mail''"]
      pattern_agrees_with_glob [of "''role''" "''roles''"] by simp
qed

definition star_email :: "mask_directive list" where
  "star_email = [\<lparr>md_field_pattern = ''*.email'', md_mask_type = Redact\<rparr>]"

definition leaky :: "string \<Rightarrow> json" where
  "leaky s = JObject [(''email_list'', JObject [(''email'', JString s)])]"

text \<open>
  C34. For a pattern that starts with a star and does not end with one the leftmost search misses
  matches, and data leaks: the glob \<open>*.email\<close> covers the path of the inner field, the matcher does
  not see it behind the key \<open>email_list\<close>, and masking returns the value as it was.
\<close>

theorem leading_star_leaks:
  "glob ''*.email'' ''$.email_list.email'' \<and> mask_apply x (leaky s) star_email = (Inr (), leaky s)"
proof -
  have paths: "\<not> hit star_email ''$''" "\<not> hit star_email ''$.email_list''"
    "\<not> hit star_email ''$.email_list.email''"
    by code_simp+
  have "glob ''*.email'' ''$.email_list.email''"
    by (simp add: glob_star glob_char)
  moreover have "\<not> hit star_email p" if "(p, n) \<in> set (json_at ''$'' (leaky s))" for p n
    using that paths by (auto simp: leaky_def)
  then have "mask_apply x (leaky s) star_email = (Inr (), leaky s)"
    unfolding mask_apply_def by (rule recursive_frame(1))
  ultimately show ?thesis by blast
qed

section \<open>Masking\<close>

text \<open>
  C31. With redaction directives the walk succeeds and covers: in the value it leaves, every node at a
  path that some directive matches is the redaction marker, at any depth of objects and arrays.
\<close>

theorem redaction_covers:
  assumes "only_redact masks"
  shows "\<exists>v'. mask_apply x v masks = (Inr (), v') \<and>
    (\<forall>(p, n)\<in>set (json_at ''$'' v'). hit masks p \<longrightarrow> n = redacted)"
  using recursive_covers(1) [OF assms, of x "''$''" v] by (fastforce simp: mask_apply_def)

definition user_masks :: "mask_directive list" where
  "user_masks = [\<lparr>md_field_pattern = ''$.user.*'', md_mask_type = Redact\<rparr>]"

theorem redaction_covers_witness:
  "\<exists>v'. mask_apply (demo_extern [] [] []) (JObject [(''user'', JObject [(''mail'', JString ''a'')])]) user_masks = (Inr (), v') \<and>
     (\<forall>(p, n)\<in>set (json_at ''$'' v'). hit user_masks p \<longrightarrow> n = redacted)"
  by (rule redaction_covers) (simp add: only_redact_def user_masks_def)

text \<open>
  C32. Redaction does not depend on what it hides: two values that differ only at and below paths some
  directive matches are masked to the same value.
\<close>

theorem redaction_noninterference:
  assumes "only_redact masks" and "redact_eq masks ''$'' v w"
  shows "mask_apply x v masks = mask_apply x w masks"
  unfolding mask_apply_def using assms by (rule recursive_noninterference)

theorem redaction_noninterference_witness:
  "mask_apply (demo_extern [] [] []) (JObject [(''user'', JObject [(''mail'', JString ''a'')])]) user_masks =
   mask_apply (demo_extern [] [] []) (JObject [(''user'', JObject [(''mail'', JString ''b'')])]) user_masks"
proof (rule redaction_noninterference)
  have "hit user_masks ''$.user.mail''" by code_simp
  then have "redact_eq user_masks ''$.user.mail'' (JString ''a'') (JString ''b'')" by (rule hidden)
  then have "redact_eq user_masks ''$.user'' (JObject [(''mail'', JString ''a'')]) (JObject [(''mail'', JString ''b'')])"
    by (intro object) simp
  then show "redact_eq user_masks ''$'' (JObject [(''user'', JObject [(''mail'', JString ''a'')])])
      (JObject [(''user'', JObject [(''mail'', JString ''b'')])])"
    by (intro object) simp
qed (simp add: only_redact_def user_masks_def)

section \<open>Risk\<close>

text \<open>
  C35. The risk score is exact: in double arithmetic it is the literal of the tenths that apply (three
  for a write or update, five for a delete, three for a sensitive resource, one out of hours), cut at
  one; it is a number between zero and one.
\<close>

theorem risk_score_exact:
  "compute_risk cfg hour ctx = f64_lit (min 10 (risk_tenths cfg hour ctx)) 10 \<and>
   (\<exists>k. compute_risk cfg hour ctx = Fin k \<and> 0 \<le> k \<and> k \<le> 2 ^ 1074)"
  using compute_risk_tenths [of cfg hour ctx]
    lit_tenths_range [OF min.cobounded1 risk_tenths_not_2, of cfg hour ctx] by simp

section \<open>Conditions\<close>

text \<open>
  A parsed \<open>and\<close> holds in a context exactly when all its parts do, a parsed \<open>or\<close> when one of them
  does, a parsed \<open>not\<close> when its part does not; \<open>and\<close> wins over \<open>or\<close> and both over \<open>not\<close> when a table has
  more than one; a list that parses is not empty.
\<close>

theorem parsed_logic:
  assumes "parse_condition x (TTable t) = Inr c"
  shows "(\<forall>v. map_of t ''and'' = Some v \<longrightarrow>
      (\<exists>items cs. v = TArray items \<and> cs \<noteq> [] \<and> map_res (parse_condition x) items = Inr cs \<and>
         (\<forall>ctx. cond_matches c ctx \<longleftrightarrow> (\<forall>d\<in>set cs. cond_matches d ctx)))) \<and>
    (\<forall>v. map_of t ''and'' = None \<longrightarrow> map_of t ''or'' = Some v \<longrightarrow>
      (\<exists>items cs. v = TArray items \<and> cs \<noteq> [] \<and> map_res (parse_condition x) items = Inr cs \<and>
         (\<forall>ctx. cond_matches c ctx \<longleftrightarrow> (\<exists>d\<in>set cs. cond_matches d ctx)))) \<and>
    (\<forall>v. map_of t ''and'' = None \<longrightarrow> map_of t ''or'' = None \<longrightarrow> map_of t ''not'' = Some v \<longrightarrow>
      (\<exists>d. parse_condition x v = Inr d \<and> (\<forall>ctx. cond_matches c ctx \<longleftrightarrow> \<not> cond_matches d ctx)))"
proof (intro conjI allI impI)
  fix v assume "map_of t ''and'' = Some v"
  then have "fold_conditions x v And = Inr c" using assms by (simp add: parse_condition_and)
  then obtain items d ds where "v = TArray items" "map_res (parse_condition x) items = Inr (d # ds)"
    "c = foldl And d ds" using fold_conditions_Inr by blast
  then show "\<exists>items cs. v = TArray items \<and> cs \<noteq> [] \<and> map_res (parse_condition x) items = Inr cs \<and>
      (\<forall>ctx. cond_matches c ctx \<longleftrightarrow> (\<forall>d\<in>set cs. cond_matches d ctx))"
    using foldl_And by (intro exI [of _ items] exI [of _ "d # ds"]) blast
next
  fix v assume "map_of t ''and'' = None" "map_of t ''or'' = Some v"
  then have "fold_conditions x v Or = Inr c" using assms by (simp add: parse_condition_or)
  then obtain items d ds where "v = TArray items" "map_res (parse_condition x) items = Inr (d # ds)"
    "c = foldl Or d ds" using fold_conditions_Inr by blast
  then show "\<exists>items cs. v = TArray items \<and> cs \<noteq> [] \<and> map_res (parse_condition x) items = Inr cs \<and>
      (\<forall>ctx. cond_matches c ctx \<longleftrightarrow> (\<exists>d\<in>set cs. cond_matches d ctx))"
    using foldl_Or by (intro exI [of _ items] exI [of _ "d # ds"]) blast
next
  fix v assume "map_of t ''and'' = None" "map_of t ''or'' = None" "map_of t ''not'' = Some v"
  then show "\<exists>d. parse_condition x v = Inr d \<and> (\<forall>ctx. cond_matches c ctx \<longleftrightarrow> \<not> cond_matches d ctx)"
    using assms by (auto simp: parse_condition.simps [of x "TTable t"] split: sum.splits)
qed

definition demo_and :: "(string \<times> toml) list" where
  "demo_and = [(''and'', TArray [TTable [(''role_is'', TString ''dev'')],
     TTable [(''task_matches'', TString ''deploy'')]])]"

theorem parsed_logic_witness:
  "\<exists>items cs. TArray items = the (map_of demo_and ''and'') \<and>
     map_res (parse_condition (demo_extern [] [] [])) items = Inr cs \<and> cs \<noteq> []"
proof -
  have "parse_condition (demo_extern [] [] []) (TTable demo_and) = Inr (And (RoleIs ''dev'') (TaskMatches ''deploy''))"
    by (simp add: demo_and_def parse_condition.simps fold_conditions.simps)
  from parsed_logic [OF this] show ?thesis by (force simp: demo_and_def)
qed

section \<open>Configuration\<close>

text \<open>
  A configuration read from the environment has the secret of the environment, numbers that are
  the variables' values or the defaults (never wrapped), and sensitive resources that are not empty
  and contain no comma. What \<open>Debug\<close> prints of it does not depend on the secret.
\<close>

theorem config_from_env:
  assumes "from_env env = Inr cfg"
  shows "env ''CLAW_GUARD_JWT_SECRET'' = Some (jwt_secret cfg) \<and>
    parse_or_default env 64 ''CLAW_GUARD_AUDIT_FLUSH_INTERVAL_MS'' 100 =
      Inr (unat (audit_flush_interval_ms cfg)) \<and>
    parse_or_default env 64 ''CLAW_GUARD_AUDIT_BATCH_SIZE'' 500 = Inr (unat (audit_batch_size cfg)) \<and>
    parse_or_default env 8 ''CLAW_GUARD_BUSINESS_HOURS_START'' 8 =
      Inr (unat (business_hours_start_hour cfg)) \<and>
    parse_or_default env 8 ''CLAW_GUARD_BUSINESS_HOURS_END'' 18 =
      Inr (unat (business_hours_end_hour cfg)) \<and>
    (\<forall>r\<in>set (sensitive_resources cfg). r \<noteq> [] \<and> CHR '','' \<notin> set r) \<and>
    debug_fields (cfg\<lparr>jwt_secret := s\<rparr>) = debug_fields cfg"
proof -
  have "\<exists>text. sensitive_resources cfg = parse_sensitive text"
    using assms by (auto simp: from_env_def Let_def res_bind_Inr_iff ok_or_Inr_iff)
  then have "\<forall>r\<in>set (sensitive_resources cfg). r \<noteq> [] \<and> CHR '','' \<notin> set r"
    using parse_sensitive_clean by fastforce
  with from_env_Inr [OF assms] show ?thesis by (simp add: debug_fields_def)
qed

definition demo_env :: env where
  "demo_env = [''CLAW_GUARD_JWT_SECRET'' \<mapsto> ''s3cret'', ''CLAW_GUARD_BUSINESS_HOURS_START'' \<mapsto> ''9'',
     ''CLAW_GUARD_SENSITIVE_RESOURCES'' \<mapsto> ''payroll, keys'']"

theorem config_from_env_witness:
  "\<exists>cfg. from_env demo_env = Inr cfg \<and> jwt_secret cfg = ''s3cret'' \<and> unat (business_hours_start_hour cfg) = 9"
proof -
  have "parse_or_default demo_env 8 ''CLAW_GUARD_BUSINESS_HOURS_START'' 8 = Inr 9"
    by (simp add: parse_or_default_def demo_env_def digit_value_def)
  moreover obtain cfg where cfg: "from_env demo_env = Inr cfg"
    using calculation by (simp add: from_env_def Let_def parse_or_default_unset demo_env_def)
  ultimately show ?thesis using config_from_env [OF cfg] by (auto simp: demo_env_def)
qed

end
