(* ===== verification/Policy_Codec.thy ===== *)
theory Policy_Codec
  imports Policy_Rules
begin

text \<open>
  The JSON form in which rules are stored: what \<open>#[derive(Serialize, Deserialize)]\<close> on
  \<open>PolicyRule\<close>, \<open>Condition\<close> and \<open>MaskType\<close> denotes (serde's externally tagged enums). Encoding a
  double that is not finite gives \<open>null\<close>, which does not decode to a double, so a condition
  survives the round trip exactly when its thresholds are finite.
  The locale \<open>codec\<close> is the interface the stores rely on.
\<close>

section \<open>The interface\<close>

definition dec_list :: "(json \<Rightarrow> 'a option) \<Rightarrow> json \<Rightarrow> 'a list option" where
  "dec_list dec v = (case v of JArray xs \<Rightarrow> those (map dec xs) | _ \<Rightarrow> None)"

lemma those_map_Some: "those (map f xs) = Some ys \<longleftrightarrow> list_all2 (\<lambda>x y. f x = Some y) xs ys"
proof (induction xs arbitrary: ys)
  case Nil
  show ?case by auto
next
  case (Cons x xs)
  show ?case by (cases ys) (auto simp: Cons.IH split: option.split)
qed

lemma those_map_None: "those (map f xs) = None \<longleftrightarrow> (\<exists>x\<in>set xs. f x = None)"
  by (induction xs) (auto split: option.split)

locale codec =
  fixes enc :: "'a \<Rightarrow> json"
    and dec :: "json \<Rightarrow> 'a option"
    and ok :: "'a \<Rightarrow> bool"
  assumes dec_enc: "ok v \<Longrightarrow> dec (enc v) = Some v"
begin

lemma enc_inj: "ok v \<Longrightarrow> ok w \<Longrightarrow> enc v = enc w \<longleftrightarrow> v = w"
  by (metis dec_enc option.inject)

lemma dec_enc_list: "list_all ok vs \<Longrightarrow> dec_list dec (JArray (map enc vs)) = Some vs"
  by (induction vs) (auto simp: dec_list_def dec_enc)

end

section \<open>Strings and numbers\<close>

definition dec_string :: "json \<Rightarrow> string option" where
  "dec_string v = (case v of JString s \<Rightarrow> Some s | _ \<Rightarrow> None)"

definition enc_f64 :: "f64 \<Rightarrow> json" where
  "enc_f64 r = (if f64_is_finite r then JNumber (Float r) else JNull)"

definition f64_of_int :: "int \<Rightarrow> f64" where
  "f64_of_int i = f64_pack (i < 0) (round_nearest (nat \<bar>i\<bar> * 2 ^ 1074) 1)"

definition dec_f64 :: "json \<Rightarrow> f64 option" where
  "dec_f64 v = (case v of
     JNumber (Float r) \<Rightarrow> Some r
   | JNumber (PosInt n) \<Rightarrow> Some (f64_of_int (int n))
   | JNumber (NegInt i) \<Rightarrow> Some (f64_of_int i)
   | _ \<Rightarrow> None)"

definition dec_usize :: "json \<Rightarrow> u64 option" where
  "dec_usize v = (case v of
     JNumber (PosInt n) \<Rightarrow> if n < 2 ^ 64 then Some (of_nat n) else None
   | _ \<Rightarrow> None)"

definition dec_uuid :: "extern \<Rightarrow> json \<Rightarrow> uuid option" where
  "dec_uuid x v = (case v of
     JString s \<Rightarrow> (case uuid_parse x s of Inr u \<Rightarrow> Some u | Inl _ \<Rightarrow> None)
   | _ \<Rightarrow> None)"

section \<open>Mask types, conditions, rules\<close>

text \<open>A struct variant's fields, from an object or, in order, from an array.\<close>

definition struct_fields :: "string list \<Rightarrow> json \<Rightarrow> (string \<Rightarrow> json option) option" where
  "struct_fields names v = (case v of
     JObject kvs \<Rightarrow> Some (map_of kvs)
   | JArray xs \<Rightarrow> if length xs = length names then Some (map_of (zip names xs)) else None
   | _ \<Rightarrow> None)"

definition struct_get :: "string list \<Rightarrow> json \<Rightarrow> string \<Rightarrow> (json \<Rightarrow> 'a option) \<Rightarrow> 'a option" where
  "struct_get names v k dec =
     Option.bind (struct_fields names v) (\<lambda>f. Option.bind (f k) dec)"

text \<open>The tag and content of an enum: a bare string, or an object with one key.\<close>

definition enum_parts :: "json \<Rightarrow> (string \<times> json option) option" where
  "enum_parts v = (case v of
     JString tag \<Rightarrow> Some (tag, None)
   | JObject [(tag, content)] \<Rightarrow> Some (tag, Some content)
   | _ \<Rightarrow> None)"

definition is_unit :: "json option \<Rightarrow> bool" where
  "is_unit content = (case content of None \<Rightarrow> True | Some v \<Rightarrow> v = JNull)"

fun enc_mask_type :: "mask_type \<Rightarrow> json" where
  "enc_mask_type Redact = JString ''Redact''"
| "enc_mask_type HashBlake3 = JString ''HashBlake3''"
| "enc_mask_type (Truncate n) = JObject [(''Truncate'', JObject [(''n'', JNumber (PosInt (unat n)))])]"
| "enc_mask_type EmailMask = JString ''EmailMask''"
| "enc_mask_type (JsonFieldMask p) = JObject [(''JsonFieldMask'', JObject [(''pattern'', JString p)])]"

definition dec_mask_type :: "json \<Rightarrow> mask_type option" where
  "dec_mask_type v =
     (case enum_parts v of
        None \<Rightarrow> None
      | Some (tag, content) \<Rightarrow>
          if tag = ''Redact'' then (if is_unit content then Some Redact else None)
          else if tag = ''HashBlake3'' then (if is_unit content then Some HashBlake3 else None)
          else if tag = ''Truncate'' then
            Option.bind content (\<lambda>c. map_option Truncate (struct_get [''n''] c ''n'' dec_usize))
          else if tag = ''EmailMask'' then (if is_unit content then Some EmailMask else None)
          else if tag = ''JsonFieldMask'' then
            Option.bind content (\<lambda>c.
              map_option JsonFieldMask (struct_get [''pattern''] c ''pattern'' dec_string))
          else None)"

fun enc_condition :: "extern \<Rightarrow> condition \<Rightarrow> json" where
  "enc_condition x (TaskMatches s) = JObject [(''TaskMatches'', JString s)]"
| "enc_condition x (RoleIs s) = JObject [(''RoleIs'', JString s)]"
| "enc_condition x (ScopeContains s) = JObject [(''ScopeContains'', JString s)]"
| "enc_condition x (RiskAbove r) = JObject [(''RiskAbove'', enc_f64 r)]"
| "enc_condition x (ResourceIs s) = JObject [(''ResourceIs'', JString s)]"
| "enc_condition x (WorkspaceIs u) = JObject [(''WorkspaceIs'', JString (uuid_show x u))]"
| "enc_condition x (And l r) = JObject [(''And'', JArray [enc_condition x l, enc_condition x r])]"
| "enc_condition x (Or l r) = JObject [(''Or'', JArray [enc_condition x l, enc_condition x r])]"
| "enc_condition x (Not_cond c) = JObject [(''Not'', enc_condition x c)]"

fun dec_condition :: "extern \<Rightarrow> json \<Rightarrow> condition option" where
  "dec_condition x (JObject [(tag, content)]) =
     (if tag = ''TaskMatches'' then map_option TaskMatches (dec_string content)
      else if tag = ''RoleIs'' then map_option RoleIs (dec_string content)
      else if tag = ''ScopeContains'' then map_option ScopeContains (dec_string content)
      else if tag = ''RiskAbove'' then map_option RiskAbove (dec_f64 content)
      else if tag = ''ResourceIs'' then map_option ResourceIs (dec_string content)
      else if tag = ''WorkspaceIs'' then map_option WorkspaceIs (dec_uuid x content)
      else if tag = ''And'' then
        (case content of
           JArray [l, r] \<Rightarrow>
             Option.bind (dec_condition x l) (\<lambda>cl. map_option (And cl) (dec_condition x r))
         | _ \<Rightarrow> None)
      else if tag = ''Or'' then
        (case content of
           JArray [l, r] \<Rightarrow>
             Option.bind (dec_condition x l) (\<lambda>cl. map_option (Or cl) (dec_condition x r))
         | _ \<Rightarrow> None)
      else if tag = ''Not'' then map_option Not_cond (dec_condition x content)
      else None)"
| "dec_condition x v = None"

fun enc_rule :: "extern \<Rightarrow> policy_rule \<Rightarrow> json" where
  "enc_rule x (AllowIf c) = JObject [(''AllowIf'', JObject [(''condition'', enc_condition x c)])]"
| "enc_rule x (DenyIf c reason) =
     JObject [(''DenyIf'', JObject [(''condition'', enc_condition x c), (''reason'', JString reason)])]"
| "enc_rule x (MaskField fp m) =
     JObject [(''MaskField'', JObject [(''field_pattern'', JString fp), (''mask_type'', enc_mask_type m)])]"

definition dec_rule :: "extern \<Rightarrow> json \<Rightarrow> policy_rule option" where
  "dec_rule x v =
     (case enum_parts v of
        Some (tag, Some c) \<Rightarrow>
          if tag = ''AllowIf'' then
            map_option AllowIf (struct_get [''condition''] c ''condition'' (dec_condition x))
          else if tag = ''DenyIf'' then
            Option.bind (struct_get [''condition'', ''reason''] c ''condition'' (dec_condition x)) (\<lambda>cond.
              map_option (DenyIf cond) (struct_get [''condition'', ''reason''] c ''reason'' dec_string))
          else if tag = ''MaskField'' then
            Option.bind (struct_get [''field_pattern'', ''mask_type''] c ''field_pattern'' dec_string) (\<lambda>fp.
              map_option (MaskField fp)
                (struct_get [''field_pattern'', ''mask_type''] c ''mask_type'' dec_mask_type))
          else None
      | _ \<Rightarrow> None)"

definition enc_rules :: "extern \<Rightarrow> policy_rule list \<Rightarrow> json" where
  "enc_rules x rules = JArray (map (enc_rule x) rules)"

definition dec_rules :: "extern \<Rightarrow> json \<Rightarrow> policy_rule list option" where
  "dec_rules x v = dec_list (dec_rule x) v"

section \<open>Round trips\<close>

fun cond_finite :: "condition \<Rightarrow> bool" where
  "cond_finite (RiskAbove r) = f64_is_finite r"
| "cond_finite (And l r) = (cond_finite l \<and> cond_finite r)"
| "cond_finite (Or l r) = (cond_finite l \<and> cond_finite r)"
| "cond_finite (Not_cond c) = cond_finite c"
| "cond_finite _ = True"

fun rule_finite :: "policy_rule \<Rightarrow> bool" where
  "rule_finite (AllowIf c) = cond_finite c"
| "rule_finite (DenyIf c reason) = cond_finite c"
| "rule_finite (MaskField fp m) = True"

lemma dec_enc_f64: "dec_f64 (enc_f64 r) = (if f64_is_finite r then Some r else None)"
  by (simp add: dec_f64_def enc_f64_def)

lemma unat_u64_bound: "unat (w :: u64) < 18446744073709551616"
  using unsigned_less [of w, where ?'a = nat] by simp

lemma dec_enc_mask_type [simp]: "dec_mask_type (enc_mask_type m) = Some m"
  by (cases m) (simp_all add: dec_mask_type_def enum_parts_def is_unit_def struct_get_def
      struct_fields_def dec_usize_def dec_string_def unat_u64_bound)

lemma dec_enc_condition:
  "uuid_laws x \<Longrightarrow> dec_condition x (enc_condition x c) = (if cond_finite c then Some c else None)"
  by (induction c) (auto simp: dec_string_def dec_enc_f64 dec_uuid_def)

lemma dec_enc_rule:
  "uuid_laws x \<Longrightarrow> dec_rule x (enc_rule x r) = (if rule_finite r then Some r else None)"
  by (cases r) (auto simp: dec_rule_def enum_parts_def struct_get_def struct_fields_def
      dec_enc_condition dec_string_def)

interpretation mask_codec: codec enc_mask_type dec_mask_type "\<lambda>_. True"
  by unfold_locales simp

interpretation string_codec: codec JString dec_string "\<lambda>_. True"
  by unfold_locales (simp add: dec_string_def)

interpretation rule_codec: codec "enc_rule x" "dec_rule x" "\<lambda>r. uuid_laws x \<and> rule_finite r" for x
  by unfold_locales (simp add: dec_enc_rule)

interpretation cond_codec:
  codec "enc_condition x" "dec_condition x" "\<lambda>c. uuid_laws x \<and> cond_finite c" for x
  by unfold_locales (simp add: dec_enc_condition)

lemma dec_enc_rules:
  "uuid_laws x \<Longrightarrow>
     dec_rules x (enc_rules x rules) = (if list_all rule_finite rules then Some rules else None)"
proof (cases "list_all rule_finite rules")
  case True
  moreover assume "uuid_laws x"
  ultimately show ?thesis
    using rule_codec.dec_enc_list [of x rules] by (simp add: dec_rules_def enc_rules_def list.pred_set)
next
  case False
  moreover assume "uuid_laws x"
  ultimately have "\<exists>v\<in>set (map (enc_rule x) rules). dec_rule x v = None"
    by (auto simp: list.pred_set dec_enc_rule)
  then have "those (map (dec_rule x) (map (enc_rule x) rules)) = None"
    by (simp only: those_map_None)
  with False show ?thesis by (simp add: dec_rules_def enc_rules_def dec_list_def)
qed

section \<open>Nesting depth of stored conditions\<close>

fun json_depth :: "json \<Rightarrow> nat" where
  "json_depth (JArray xs) = Suc (Max (insert 0 (set (map json_depth xs))))"
| "json_depth (JObject kvs) = Suc (Max (insert 0 (set (map (\<lambda>kv. json_depth (snd kv)) kvs))))"
| "json_depth _ = 0"

lemma enc_condition_depth_pos: "0 < json_depth (enc_condition x c)"
  by (cases c) simp_all

lemma depth_foldl_And: "2 * length cs \<le> json_depth (enc_condition x (foldl And c cs))"
proof (induction cs arbitrary: c rule: rev_induct)
  case (snoc d ds)
  then show ?case using snoc.IH [of c] by (simp add: le_max_iff_disj)
qed simp

end
