(* ===== verification/Database.thy ===== *)
theory Database
  imports Extern
begin

text \<open>
  The SQLite database (\<open>migrations/001_guard_schema.sql\<close>) as the services see it: the four tables
  they use, with the column types of the schema (\<open>TEXT\<close> as a string, \<open>INTEGER\<close> as an integer,
  nullable columns as options), and statements as state transformers.
  A statement may fail (a busy database, a lost file): \<open>db_faults\<close> says what happens to the next
  statements, \<open>Some m\<close> for a failure with message \<open>m\<close>. A \<open>SELECT\<close> sees the rows in an order the
  query plan chooses: the \<open>scan\<close> functions, which permute.
  All operations work on \<open>db_scheme\<close>, so they apply to every state that extends the database.
\<close>

section \<open>State and results\<close>

record key_row =
  kr_id :: string
  kr_key_hash :: string
  kr_workspace_id :: string
  kr_label :: "string option"
  kr_created_at :: int
  kr_revoked :: int
  kr_last_used_at :: "int option"

record session_row =
  sr_id :: string
  sr_agent_id :: string
  sr_workspace_id :: string
  sr_role :: string
  sr_scopes :: string
  sr_created_at :: int
  sr_expires_at :: int
  sr_revoked :: int

record policy_row =
  pr_id :: string
  pr_name :: string
  pr_description :: "string option"
  pr_rules :: string
  pr_priority :: int
  pr_enabled :: int
  pr_created_at :: int
  pr_updated_at :: int

record audit_row =
  ar_id :: string
  ar_session_id :: "string option"
  ar_workspace_id :: string
  ar_agent_id :: "string option"
  ar_action :: string
  ar_resource :: string
  ar_resource_id :: "string option"
  ar_decision :: string
  ar_reason :: "string option"
  ar_risk_score :: "f64 option"
  ar_metadata :: "string option"
  ar_ts :: int

record db =
  db_keys :: "key_row list"
  db_sessions :: "session_row list"
  db_policies :: "policy_row list"
  db_audit :: "audit_row list"
  db_faults :: "string option list"
  scan_keys :: "key_row list \<Rightarrow> key_row list"
  scan_sessions :: "session_row list \<Rightarrow> session_row list"
  scan_policies :: "policy_row list \<Rightarrow> policy_row list"
  scan_audit :: "audit_row list \<Rightarrow> audit_row list"

text \<open>What the migrations leave in a new database file.\<close>

definition empty_db :: db where
  "empty_db = \<lparr>db_keys = [], db_sessions = [], db_policies = [], db_audit = [], db_faults = [],
     scan_keys = id, scan_sessions = id, scan_policies = id, scan_audit = id\<rparr>"

type_synonym ('s, 'a) action = "'s \<Rightarrow> 'a guard_result \<times> 's"

text \<open>The \<open>?\<close> operator between two awaits: an error ends the operation in the state reached.\<close>

definition act_bind :: "('s, 'a) action \<Rightarrow> ('a \<Rightarrow> ('s, 'b) action) \<Rightarrow> ('s, 'b) action" where
  "act_bind m f s = (case m s of (Inl e, s') \<Rightarrow> (Inl e, s') | (Inr v, s') \<Rightarrow> f v s')"

definition act_lift :: "'a guard_result \<Rightarrow> ('s, 'a) action" where
  "act_lift r s = (r, s)"

definition act_return :: "'a \<Rightarrow> ('s, 'a) action" where
  "act_return v s = (Inr v, s)"

lemma act_lift_simps [simp]: "act_lift r s = (r, s)" "act_return v s = (Inr v, s)"
  by (simp_all add: act_lift_def act_return_def)

lemma act_bind_case:
  "act_bind m f s = (case m s of (Inl e, s') \<Rightarrow> (Inl e, s') | (Inr v, s') \<Rightarrow> f v s')"
  by (simp add: act_bind_def)

lemma act_bind_simps [simp]:
  "m s = (Inl e, s') \<Longrightarrow> act_bind m f s = (Inl e, s')"
  "m s = (Inr v, s') \<Longrightarrow> act_bind m f s = f v s'"
  by (simp_all add: act_bind_def)

lemma act_bind_lift [simp]:
  "act_bind (act_lift (Inl e)) f s = (Inl e, s)"
  "act_bind (act_lift (Inr v)) f s = f v s"
  "act_bind (act_return v) f s = f v s"
  by (simp_all add: act_bind_def)

lemma act_bind_Inr:
  "act_bind m f s = (Inr w, t) \<longleftrightarrow> (\<exists>v s'. m s = (Inr v, s') \<and> f v s' = (Inr w, t))"
  by (auto simp: act_bind_def split: prod.splits sum.splits)

text \<open>An operation keeps what each of its parts keeps.\<close>

lemma act_bind_inv:
  "P (snd (m s)) \<Longrightarrow> (\<And>v s'. m s = (Inr v, s') \<Longrightarrow> P s' \<Longrightarrow> P (snd (f v s'))) \<Longrightarrow>
     P (snd (act_bind m f s))"
  by (cases "m s") (simp add: act_bind_def split: sum.split)

fun act_each :: "('x \<Rightarrow> ('s, unit) action) \<Rightarrow> 'x list \<Rightarrow> ('s, unit) action" where
  "act_each f [] s = (Inr (), s)"
| "act_each f (y # ys) s = act_bind (f y) (\<lambda>_. act_each f ys) s"

lemma act_each_inv:
  "P s \<Longrightarrow> (\<And>y t. P t \<Longrightarrow> P (snd (f y t))) \<Longrightarrow> P (snd (act_each f ys s))"
proof (induction ys arbitrary: s)
  case (Cons y ys)
  show ?case unfolding act_each.simps
    by (rule act_bind_inv [of P]) (simp_all add: Cons)
qed simp

section \<open>Statements\<close>

text \<open>One statement: it fails if the next fault says so, and is then without effect.\<close>

definition sql :: "('a db_scheme \<Rightarrow> sqlx_error + 'v \<times> 'a db_scheme) \<Rightarrow> ('a db_scheme, 'v) action" where
  "sql stmt d =
     (let d' = d\<lparr>db_faults := tl (db_faults d)\<rparr> in
      case db_faults d of
        Some m # _ \<Rightarrow> (Inl (DatabaseError (Io_failure m)), d')
      | _ \<Rightarrow> (case stmt d' of
               Inl e \<Rightarrow> (Inl (DatabaseError e), d')
             | Inr (v, d'') \<Rightarrow> (Inr v, d'')))"

text \<open>A statement that fails because of a fault, and one that does not.\<close>

definition next_fault :: "'a db_scheme \<Rightarrow> string option" where
  "next_fault d = (case db_faults d of Some m # _ \<Rightarrow> Some m | _ \<Rightarrow> None)"

abbreviation healthy :: "'a db_scheme \<Rightarrow> bool" where
  "healthy d \<equiv> db_faults d = []"

lemma sql_fault:
  "next_fault d = Some m \<Longrightarrow>
     sql stmt d = (Inl (DatabaseError (Io_failure m)), d\<lparr>db_faults := tl (db_faults d)\<rparr>)"
  by (auto simp: sql_def next_fault_def Let_def split: list.splits option.splits)

lemma sql_step:
  "next_fault d = None \<Longrightarrow>
     sql stmt d = (case stmt (d\<lparr>db_faults := tl (db_faults d)\<rparr>) of
               Inl e \<Rightarrow> (Inl (DatabaseError e), d\<lparr>db_faults := tl (db_faults d)\<rparr>)
             | Inr (v, d'') \<Rightarrow> (Inr v, d''))"
  by (auto simp: sql_def next_fault_def Let_def split: list.splits option.splits)

lemma healthy_next [simp]: "healthy d \<Longrightarrow> next_fault d = None"
  by (simp add: next_fault_def)

lemma no_faults_self [simp]: "healthy d \<Longrightarrow> d\<lparr>db_faults := []\<rparr> = d"
  by (cases d) simp

lemma sql_healthy [db_simps]:
  "healthy d \<Longrightarrow> sql stmt d =
     (case stmt d of Inl e \<Rightarrow> (Inl (DatabaseError e), d) | Inr (v, d'') \<Rightarrow> (Inr v, d''))"
  by (simp add: sql_def Let_def)

lemma sql_Inr:
  "sql stmt d = (Inr v, d'') \<longleftrightarrow>
     next_fault d = None \<and> stmt (d\<lparr>db_faults := tl (db_faults d)\<rparr>) = Inr (v, d'')"
  by (cases "next_fault d") (auto simp: sql_fault sql_step split: sum.splits prod.splits)

lemma sql_inv:
  "(\<And>fs. P (d\<lparr>db_faults := fs\<rparr>)) \<Longrightarrow>
   (\<And>fs v d''. stmt (d\<lparr>db_faults := fs\<rparr>) = Inr (v, d'') \<Longrightarrow> P d'') \<Longrightarrow> P (snd (sql stmt d))"
  by (cases "next_fault d") (auto simp: sql_fault sql_step split: sum.split prod.split)

text \<open>Reading statements return a value and change nothing.\<close>

definition query :: "('a db_scheme \<Rightarrow> 'v) \<Rightarrow> ('a db_scheme, 'v) action" where
  "query f = sql (\<lambda>d. Inr (f d, d))"

lemma query_healthy [db_simps]: "healthy d \<Longrightarrow> query f d = (Inr (f d), d)"
  by (simp add: query_def sql_healthy)

lemma query_step:
  "query f d =
     (case next_fault d of
        Some m \<Rightarrow> (Inl (DatabaseError (Io_failure m)), d\<lparr>db_faults := tl (db_faults d)\<rparr>)
      | None \<Rightarrow> (Inr (f (d\<lparr>db_faults := tl (db_faults d)\<rparr>)), d\<lparr>db_faults := tl (db_faults d)\<rparr>))"
  by (cases "next_fault d") (auto simp: query_def sql_fault sql_step)

lemma query_state [simp]: "snd (query f d) = d\<lparr>db_faults := tl (db_faults d)\<rparr>"
  by (cases "next_fault d") (auto simp: query_step)

section \<open>Tables\<close>

text \<open>\<open>INSERT\<close> under \<open>UNIQUE\<close> constraints (names and columns), \<open>UPDATE\<close>, \<open>DELETE\<close>.\<close>

definition insert_row :: "(string \<times> ('r \<Rightarrow> string)) list \<Rightarrow> 'r \<Rightarrow> 'r list \<Rightarrow> sqlx_error + 'r list" where
  "insert_row uniques r t =
     (case List.find (\<lambda>u. snd u r \<in> set (map (snd u) t)) uniques of
        Some u \<Rightarrow> Inl (Unique_violation (fst u))
      | None \<Rightarrow> Inr (t @ [r]))"

definition update_rows :: "('r \<Rightarrow> bool) \<Rightarrow> ('r \<Rightarrow> 'r) \<Rightarrow> 'r list \<Rightarrow> 'r list" where
  "update_rows P f t = map (\<lambda>r. if P r then f r else r) t"

definition delete_rows :: "('r \<Rightarrow> bool) \<Rightarrow> 'r list \<Rightarrow> 'r list" where
  "delete_rows P t = filter (\<lambda>r. \<not> P r) t"

text \<open>\<open>SELECT ... WHERE P ORDER BY k\<close>: rows with equal keys come in the order of the scan.\<close>

definition select_rows ::
    "('r list \<Rightarrow> 'r list) \<Rightarrow> ('r \<Rightarrow> bool) \<Rightarrow> ('r \<Rightarrow> 'k::linorder) \<Rightarrow> 'r list \<Rightarrow> 'r list" where
  "select_rows scan P k t = sort_key k (scan (filter P t))"

definition scan_ok :: "('r list \<Rightarrow> 'r list) \<Rightarrow> bool" where
  "scan_ok scan \<longleftrightarrow> (\<forall>t. mset (scan t) = mset t)"

text \<open>SQLite's \<open>LIMIT l OFFSET o\<close>: a negative limit is none, a negative offset is zero.\<close>

definition limit_offset :: "int \<Rightarrow> int \<Rightarrow> 'r list \<Rightarrow> 'r list" where
  "limit_offset l off xs = (let ys = drop (nat off) xs in if l < 0 then ys else take (nat l) ys)"

lemma insert_row_Inr:
  "insert_row us r t = Inr t' \<longleftrightarrow> t' = t @ [r] \<and> (\<forall>u\<in>set us. snd u r \<notin> snd u ` set t)"
proof (cases "List.find (\<lambda>u. snd u r \<in> set (map (snd u) t)) us")
  case None
  then have "\<forall>u\<in>set us. snd u r \<notin> snd u ` set t"
    unfolding find_None_iff set_map by blast
  with None show ?thesis by (simp only: insert_row_def option.case sum.inject) blast
next
  case (Some u)
  then have "u \<in> set us" "snd u r \<in> snd u ` set t" by (auto simp: find_Some_iff)
  then have "\<not> (\<forall>u\<in>set us. snd u r \<notin> snd u ` set t)" by blast
  with Some show ?thesis by (simp only: insert_row_def option.case sum.distinct simp_thms)
qed

lemma insert_row_Inl:
  "insert_row us r t = Inl e \<Longrightarrow>
     \<exists>u\<in>set us. e = Unique_violation (fst u) \<and> snd u r \<in> snd u ` set t"
  by (auto simp: insert_row_def find_Some_iff split: option.splits intro: nth_mem)

lemma set_select_rows [simp]:
  "scan_ok scan \<Longrightarrow> set (select_rows scan P k t) = {r \<in> set t. P r}"
  unfolding select_rows_def scan_ok_def
  by (metis mset_eq_setD set_filter set_sort)

lemma mset_select_rows:
  "scan_ok scan \<Longrightarrow> mset (select_rows scan P k t) = filter_mset P (mset t)"
  by (simp add: select_rows_def scan_ok_def)

lemma select_rows_sorted: "sorted (map k (select_rows scan P k t))"
  by (simp add: select_rows_def)

lemma scan_ok_id [simp]: "scan_ok id"
  by (simp add: scan_ok_def)

text \<open>A table with a unique column: what the statements do to it.\<close>

locale keyed_table =
  fixes key :: "'r \<Rightarrow> string"
    and uniques :: "(string \<times> ('r \<Rightarrow> string)) list"
  assumes key_unique: "key \<in> snd ` set uniques"
begin

lemma insert_distinct:
  "insert_row uniques r t = Inr t' \<Longrightarrow> distinct (map key t) \<Longrightarrow> distinct (map key t')"
  using key_unique by (auto simp: insert_row_Inr)

lemma insert_find:
  assumes "insert_row uniques r t = Inr t'"
  shows "List.find (\<lambda>q. key q = key r) t' = Some r"
proof -
  from assms key_unique have "t' = t @ [r]" "key r \<notin> key ` set t" by (auto simp: insert_row_Inr)
  then show ?thesis by (induction t arbitrary: t') auto
qed

lemma insert_find_other:
  assumes "insert_row uniques r t = Inr t'" and "key r \<noteq> a"
  shows "List.find (\<lambda>q. key q = a) t' = List.find (\<lambda>q. key q = a) t"
proof -
  from assms have "t' = t @ [r]" by (simp add: insert_row_Inr)
  with assms(2) show ?thesis by (induction t arbitrary: t') auto
qed

lemma update_distinct:
  "(\<And>r. key (f r) = key r) \<Longrightarrow> map key (update_rows P f t) = map key t"
  by (simp add: update_rows_def)

lemma update_find:
  "(\<And>r. key (f r) = key r) \<Longrightarrow>
     List.find (\<lambda>q. key q = a) (update_rows (\<lambda>r. key r = a) f t) =
       map_option f (List.find (\<lambda>q. key q = a) t)"
  by (induction t) (auto simp: update_rows_def)

lemma update_find_other:
  "(\<And>r. key (f r) = key r) \<Longrightarrow> (\<And>r. key r = a \<Longrightarrow> \<not> P r) \<Longrightarrow>
     List.find (\<lambda>q. key q = a) (update_rows P f t) = List.find (\<lambda>q. key q = a) t"
  by (induction t) (auto simp: update_rows_def)

lemma delete_distinct: "distinct (map key t) \<Longrightarrow> distinct (map key (delete_rows P t))"
  by (simp add: delete_rows_def distinct_map_filter_set)

lemma delete_find: "List.find (\<lambda>q. key q = a) (delete_rows (\<lambda>r. key r = a) t) = None"
  by (auto simp: delete_rows_def find_None_iff)

end

text \<open>The unique columns of the schema.\<close>

definition key_uniques :: "(string \<times> (key_row \<Rightarrow> string)) list" where
  "key_uniques = [(''api_keys.id'', kr_id), (''api_keys.key_hash'', kr_key_hash)]"

definition session_uniques :: "(string \<times> (session_row \<Rightarrow> string)) list" where
  "session_uniques = [(''sessions.id'', sr_id)]"

definition policy_uniques :: "(string \<times> (policy_row \<Rightarrow> string)) list" where
  "policy_uniques = [(''policies.id'', pr_id), (''policies.name'', pr_name)]"

definition audit_uniques :: "(string \<times> (audit_row \<Rightarrow> string)) list" where
  "audit_uniques = [(''audit_log.id'', ar_id)]"

interpretation key_ids: keyed_table kr_id key_uniques
  by unfold_locales (simp add: key_uniques_def)

interpretation key_hashes: keyed_table kr_key_hash key_uniques
  by unfold_locales (simp add: key_uniques_def)

interpretation session_ids: keyed_table sr_id session_uniques
  by unfold_locales (simp add: session_uniques_def)

interpretation policy_ids: keyed_table pr_id policy_uniques
  by unfold_locales (simp add: policy_uniques_def)

interpretation policy_names: keyed_table pr_name policy_uniques
  by unfold_locales (simp add: policy_uniques_def)

interpretation audit_ids: keyed_table ar_id audit_uniques
  by unfold_locales (simp add: audit_uniques_def)

text \<open>The integrity of the schema, and query plans that return the rows asked for.\<close>

definition db_wf :: "'a db_scheme \<Rightarrow> bool" where
  "db_wf d \<longleftrightarrow>
     distinct (map kr_id (db_keys d)) \<and> distinct (map kr_key_hash (db_keys d)) \<and>
     distinct (map sr_id (db_sessions d)) \<and>
     distinct (map pr_id (db_policies d)) \<and> distinct (map pr_name (db_policies d)) \<and>
     distinct (map ar_id (db_audit d)) \<and>
     scan_ok (scan_keys d) \<and> scan_ok (scan_sessions d) \<and> scan_ok (scan_policies d) \<and>
     scan_ok (scan_audit d)"

lemma db_wf_empty [simp]: "db_wf empty_db"
  by (simp add: db_wf_def empty_db_def)

lemma db_wf_faults [simp]: "db_wf (d\<lparr>db_faults := fs\<rparr>) = db_wf d"
  by (simp add: db_wf_def)

section \<open>Columns\<close>

text \<open>\<open>from_ms\<close> and \<open>Uuid::parse_str(..)?\<close>, which every component has.\<close>

definition from_ms :: "extern \<Rightarrow> int \<Rightarrow> datetime guard_result" where
  "from_ms x value_ms =
     ok_or (ConfigError (''invalid timestamp millis: '' @ show_int value_ms)) (dt_from_millis x value_ms)"

definition parse_uuid :: "extern \<Rightarrow> string \<Rightarrow> uuid guard_result" where
  "parse_uuid x s = (case uuid_parse x s of Inl m \<Rightarrow> Inl (UuidError m) | Inr u \<Rightarrow> Inr u)"

text \<open>Identifier columns hold identifiers as the program writes them.\<close>

definition ids_written :: "extern \<Rightarrow> string list \<Rightarrow> bool" where
  "ids_written x ids \<longleftrightarrow> (\<forall>i\<in>set ids. \<exists>u. i = uuid_show x u)"

text \<open>\<open>serde_json::from_str\<close> and \<open>to_string\<close> with \<open>?\<close>.\<close>

definition json_from_str :: "extern \<Rightarrow> (json \<Rightarrow> 'a option) \<Rightarrow> string \<Rightarrow> 'a guard_result" where
  "json_from_str x dec s =
     (case json_parse x s of
        Inl m \<Rightarrow> Inl (SerializationError m)
      | Inr v \<Rightarrow> ok_or (SerializationError (serde_mismatch x)) (dec v))"

definition json_to_string :: "extern \<Rightarrow> json \<Rightarrow> string guard_result" where
  "json_to_string x v = (case json_text x v of Inl m \<Rightarrow> Inl (SerializationError m) | Inr s \<Rightarrow> Inr s)"

text \<open>\<open>Option<T>::map(f).transpose()?\<close>.\<close>

definition opt_res :: "('a \<Rightarrow> 'b guard_result) \<Rightarrow> 'a option \<Rightarrow> 'b option guard_result" where
  "opt_res f v =
     (case v of None \<Rightarrow> Inr None | Some a \<Rightarrow> (case f a of Inl e \<Rightarrow> Inl e | Inr b \<Rightarrow> Inr (Some b)))"

lemma opt_res_simps [simp]:
  "opt_res f None = Inr None"
  "f a = Inr b \<Longrightarrow> opt_res f (Some a) = Inr (Some b)"
  "f a = Inl e \<Longrightarrow> opt_res f (Some a) = Inl e"
  by (simp_all add: opt_res_def)

lemma parse_uuid_show [simp]: "uuid_laws x \<Longrightarrow> parse_uuid x (uuid_show x u) = Inr u"
  by (simp add: parse_uuid_def)

lemma opt_res_uuid [simp]:
  "uuid_laws x \<Longrightarrow> opt_res (parse_uuid x) (map_option (uuid_show x) v) = Inr v"
  by (cases v) simp_all

lemma from_ms_stored:
  "chrono_laws x \<Longrightarrow> dt_ok x t \<Longrightarrow> from_ms x (ts_millis x t) = Inr (trunc_ms t)"
  by (simp add: from_ms_def dt_stored)

lemma from_ms_Inr: "chrono_laws x \<Longrightarrow> from_ms x m = Inr t \<Longrightarrow> t = m * 1000000"
  by (auto simp: from_ms_def ok_or_Inr_iff dest: dt_from_millis_Some)

lemma json_to_string_Inr: "json_to_string x v = Inr s \<longleftrightarrow> json_text x v = Inr s"
  by (simp add: json_to_string_def split: sum.split)

lemma json_rt_read:
  "json_rt x v \<Longrightarrow> \<exists>s. json_to_string x v = Inr s \<and>
     json_from_str x dec s = ok_or (SerializationError (serde_mismatch x)) (dec v)"
  by (auto simp: json_rt_def json_to_string_def json_from_str_def)

section \<open>Revocation\<close>

text \<open>
  What revocation promises of a service whose rows are looked up under a name: no operation of the
  service brings a revoked row back, so what was revoked stays revoked along every run.
\<close>

locale revocable =
  fixes lookup :: "'d \<Rightarrow> string \<Rightarrow> 'r option"
    and revoked :: "'r \<Rightarrow> bool"
    and step :: "'c \<Rightarrow> 'd \<Rightarrow> 'd"
  assumes step_revoked:
    "lookup d k = Some r \<Longrightarrow> revoked r \<Longrightarrow> \<exists>r'. lookup (step c d) k = Some r' \<and> revoked r'"
begin

lemma revoked_forever:
  "lookup d k = Some r \<Longrightarrow> revoked r \<Longrightarrow> \<exists>r'. lookup (fold step cs d) k = Some r' \<and> revoked r'"
proof (induction cs arbitrary: d r)
  case (Cons c cs)
  from step_revoked [OF Cons.prems] Cons.IH show ?case by force
qed auto

end

text \<open>Statements on a table that keep its looked-up column and never lower the revoked flag.\<close>

definition table_grows :: "('r \<Rightarrow> string) \<Rightarrow> ('r \<Rightarrow> bool) \<Rightarrow> 'r list \<Rightarrow> 'r list \<Rightarrow> bool" where
  "table_grows key revoked t t' \<longleftrightarrow>
     (\<exists>f new. t' = map f t @ new \<and> (\<forall>r. key (f r) = key r \<and> (revoked r \<longrightarrow> revoked (f r))))"

lemma table_grows_refl: "table_grows key revoked t t"
  unfolding table_grows_def by (intro exI [of _ "\<lambda>r. r"] exI [of _ "[]"]) simp

lemma table_grows_insert: "insert_row us r t = Inr t' \<Longrightarrow> table_grows key revoked t t'"
  unfolding table_grows_def insert_row_Inr
  by (intro exI [of _ "\<lambda>r. r"] exI [of _ "[r]"]) simp

lemma table_grows_update:
  "(\<And>r. key (f r) = key r) \<Longrightarrow> (\<And>r. revoked r \<Longrightarrow> revoked (f r)) \<Longrightarrow>
     table_grows key revoked t (update_rows P f t)"
  unfolding table_grows_def update_rows_def
  by (intro exI [of _ "\<lambda>r. if P r then f r else r"] exI [of _ "[]"]) simp

lemma table_grows_lookup:
  "table_grows key revoked t t' \<Longrightarrow> List.find (\<lambda>r. key r = k) t = Some r \<Longrightarrow> revoked r \<Longrightarrow>
     \<exists>r'. List.find (\<lambda>r. key r = k) t' = Some r' \<and> revoked r'"
proof -
  assume g: "table_grows key revoked t t'" and r: "List.find (\<lambda>r. key r = k) t = Some r" "revoked r"
  then obtain f new where f: "t' = map f t @ new" "\<And>r. key (f r) = key r \<and> (revoked r \<longrightarrow> revoked (f r))"
    unfolding table_grows_def by blast
  have "List.find (\<lambda>r. key r = k) (map f t @ new) = Some (f r)"
    using r(1) by (induction t) (auto simp: f(2))
  with f r(2) show ?thesis by auto
qed

end
