(* ===== verification/Policy_Store.thy ===== *)
theory Policy_Store
  imports Policy_Parse Policy_Codec Database "HOL-Library.Product_Lexorder"
begin

text \<open>
  \<open>PolicyEngine\<close> of \<open>src/policy/mod.rs\<close>: the \<open>policies\<close> table, the read-through cache over it and
  the operations on both, each as one step (what several tasks can do between the awaits of one
  operation is the subject of \<open>Policy_Race\<close>). The invariant \<open>cache_coherent\<close> says that the cache is
  empty or holds what a load would return now.
\<close>

section \<open>State\<close>

record engine = db +
  pe_cache :: "policy list"

definition invalidate_cache :: "'a engine_scheme \<Rightarrow> 'a engine_scheme" where
  "invalidate_cache e = e\<lparr>pe_cache := []\<rparr>"

section \<open>Rows\<close>

definition policy_to_row :: "extern \<Rightarrow> policy \<Rightarrow> string \<Rightarrow> policy_row" where
  "policy_to_row x p rules =
     \<lparr>pr_id = uuid_show x (p_id p), pr_name = p_name p, pr_description = p_description p,
      pr_rules = rules, pr_priority = p_priority p, pr_enabled = (if p_enabled p then 1 else 0),
      pr_created_at = ts_millis x (p_created_at p), pr_updated_at = ts_millis x (p_updated_at p)\<rparr>"

definition row_to_policy :: "extern \<Rightarrow> policy_row \<Rightarrow> policy guard_result" where
  "row_to_policy x r =
     res_bind (parse_uuid x (pr_id r)) (\<lambda>i.
     res_bind (json_from_str x (dec_rules x) (pr_rules r)) (\<lambda>rules.
     res_bind (from_ms x (pr_created_at r)) (\<lambda>created.
     res_bind (from_ms x (pr_updated_at r)) (\<lambda>updated.
     Inr \<lparr>p_id = i, p_name = pr_name r, p_description = pr_description r, p_rules = rules,
          p_priority = pr_priority r, p_enabled = (pr_enabled r \<noteq> 0),
          p_created_at = created, p_updated_at = updated\<rparr>))))"

text \<open>\<open>INSERT ... ON CONFLICT(name) DO UPDATE\<close>: an existing row of that name keeps its identifier
  and its creation time. SQLite tries this conflict first: a row whose name exists is updated also when
  the new identifier is that of another row (the identifier is not written).\<close>

definition upsert_row :: "policy_row \<Rightarrow> policy_row list \<Rightarrow> sqlx_error + policy_row list" where
  "upsert_row r t =
     (if pr_name r \<in> set (map pr_name t) then
        Inr (update_rows (\<lambda>q. pr_name q = pr_name r)
          (\<lambda>q. q\<lparr>pr_description := pr_description r, pr_rules := pr_rules r,
                 pr_priority := pr_priority r, pr_enabled := pr_enabled r,
                 pr_updated_at := pr_updated_at r\<rparr>) t)
      else insert_row policy_uniques r t)"

definition exec_policies ::
    "(policy_row list \<Rightarrow> sqlx_error + policy_row list) \<Rightarrow> ('a db_scheme, unit) action" where
  "exec_policies f =
     sql (\<lambda>d. case f (db_policies d) of Inl e \<Rightarrow> Inl e | Inr t \<Rightarrow> Inr ((), d\<lparr>db_policies := t\<rparr>))"

section \<open>Operations\<close>

definition upsert_policy :: "extern \<Rightarrow> policy \<Rightarrow> ('a engine_scheme, unit) action" where
  "upsert_policy x p =
     act_bind (act_lift (json_to_string x (enc_rules x (p_rules p)))) (\<lambda>rules.
     act_bind (exec_policies (upsert_row (policy_to_row x p rules))) (\<lambda>_ e.
     (Inr (), invalidate_cache e)))"

definition enabled_rows :: "'a db_scheme \<Rightarrow> policy_row list" where
  "enabled_rows d =
     select_rows (scan_policies d) (\<lambda>r. pr_enabled r = 1)
       (\<lambda>r. (Desc (pr_priority r), Desc (pr_updated_at r))) (db_policies d)"

definition load_policies_from_db :: "extern \<Rightarrow> ('a db_scheme, policy list) action" where
  "load_policies_from_db x =
     act_bind (query enabled_rows) (\<lambda>rows. act_lift (map_res (row_to_policy x) rows))"

definition cached_policies :: "extern \<Rightarrow> ('a engine_scheme, policy list) action" where
  "cached_policies x e =
     (if pe_cache e \<noteq> [] then (Inr (pe_cache e), e)
      else act_bind (load_policies_from_db x) (\<lambda>policies e. (Inr policies, e\<lparr>pe_cache := policies\<rparr>)) e)"

definition evaluate :: "extern \<Rightarrow> eval_context \<Rightarrow> ('a engine_scheme, policy_decision) action" where
  "evaluate x ctx =
     act_bind (cached_policies x) (\<lambda>policies. act_return (eval_policies policies ctx))"

definition list_policies :: "extern \<Rightarrow> ('a engine_scheme, policy list) action" where
  "list_policies x = load_policies_from_db x"

definition remove_policy :: "extern \<Rightarrow> uuid \<Rightarrow> ('a engine_scheme, unit) action" where
  "remove_policy x policy_id =
     act_bind (exec_policies (\<lambda>t. Inr (delete_rows (\<lambda>r. pr_id r = uuid_show x policy_id) t))) (\<lambda>_ e.
     (Inr (), invalidate_cache e))"

text \<open>The loop keeps the last policy upserted.\<close>

fun upsert_all :: "extern \<Rightarrow> policy list \<Rightarrow> policy option \<Rightarrow> ('a engine_scheme, policy option) action" where
  "upsert_all x [] latest = act_return latest"
| "upsert_all x (p # ps) latest = act_bind (upsert_policy x p) (\<lambda>_. upsert_all x ps (Some p))"

definition add_policy_from_toml ::
    "extern \<Rightarrow> (nat \<Rightarrow> uuid \<times> datetime) \<Rightarrow> string \<Rightarrow> string \<Rightarrow> ('a engine_scheme, policy) action" where
  "add_policy_from_toml x draw source fallback_name =
     act_bind (act_lift (parse_policy_source x draw source fallback_name)) (\<lambda>policies.
     act_bind (upsert_all x policies None) (\<lambda>latest.
     act_lift (ok_or (ConfigError ''policy file contained no policies'') latest)))"

text \<open>
  \<open>load_from_dir\<close> over what the file system returns: \<open>None\<close> when the directory does not exist, an
  error of the glob pattern, or for each entry an error or its file stem and the outcome of reading
  it. \<open>draw k i\<close> is drawn for the \<open>i\<close>-th policy of the \<open>k\<close>-th file.
\<close>

record policy_entry =
  pe_stem :: "string option"
  pe_source :: "string + string"

fun load_entries ::
    "extern \<Rightarrow> (nat \<Rightarrow> nat \<Rightarrow> uuid \<times> datetime) \<Rightarrow> nat \<Rightarrow> (string + policy_entry) list \<Rightarrow>
       ('a engine_scheme, nat) action" where
  "load_entries x draw loaded [] = act_return loaded"
| "load_entries x draw loaded (Inl m # entries) = act_lift (Inl (ConfigError m))"
| "load_entries x draw loaded (Inr f # entries) =
     (case pe_source f of
        Inl m \<Rightarrow> act_lift (Inl (IoError m))
      | Inr source \<Rightarrow>
          act_bind (add_policy_from_toml x (draw loaded) source
              (case pe_stem f of Some s \<Rightarrow> s | None \<Rightarrow> ''policy'')) (\<lambda>_.
          load_entries x draw (Suc loaded) entries))"

definition load_from_dir ::
    "extern \<Rightarrow> (nat \<Rightarrow> nat \<Rightarrow> uuid \<times> datetime) \<Rightarrow> (string + (string + policy_entry) list) option \<Rightarrow>
       ('a engine_scheme, nat) action" where
  "load_from_dir x draw dir =
     (case dir of
        None \<Rightarrow> act_return 0
      | Some (Inl m) \<Rightarrow> act_lift (Inl (ConfigError m))
      | Some (Inr entries) \<Rightarrow> load_entries x draw 0 entries)"

section \<open>Loading\<close>

definition policies_now :: "extern \<Rightarrow> 'a db_scheme \<Rightarrow> policy list guard_result" where
  "policies_now x d = map_res (row_to_policy x) (enabled_rows d)"

lemma enabled_rows_cong:
  "db_policies d = db_policies d' \<Longrightarrow> scan_policies d = scan_policies d' \<Longrightarrow> enabled_rows d = enabled_rows d'"
  by (simp add: enabled_rows_def)

lemma policies_now_faults [simp]: "policies_now x (d\<lparr>db_faults := fs\<rparr>) = policies_now x d"
  by (simp add: policies_now_def enabled_rows_def)

lemma policies_now_cache [simp]: "policies_now x (e\<lparr>pe_cache := c\<rparr>) = policies_now x e"
  by (simp add: policies_now_def enabled_rows_def)

lemma load_step:
  "load_policies_from_db x d =
     ((case next_fault d of
         Some m \<Rightarrow> Inl (DatabaseError (Io_failure m))
       | None \<Rightarrow> policies_now x d), d\<lparr>db_faults := tl (db_faults d)\<rparr>)"
  by (cases "next_fault d")
     (simp_all add: load_policies_from_db_def act_bind_def query_step policies_now_def enabled_rows_def)

lemma enabled_rows_set:
  "db_wf d \<Longrightarrow> set (enabled_rows d) = {r \<in> set (db_policies d). pr_enabled r = 1}"
  by (simp add: enabled_rows_def db_wf_def)

lemma enabled_rows_sorted:
  "sorted_wrt (\<lambda>r q. pr_priority q \<le> pr_priority r \<and>
      (pr_priority q = pr_priority r \<longrightarrow> pr_updated_at q \<le> pr_updated_at r)) (enabled_rows d)"
proof -
  have "sorted (map (\<lambda>r. (Desc (pr_priority r), Desc (pr_updated_at r))) (enabled_rows d))"
    unfolding enabled_rows_def by (rule select_rows_sorted)
  then have "sorted_wrt (\<lambda>r q. (Desc (pr_priority r), Desc (pr_updated_at r))
      \<le> (Desc (pr_priority q), Desc (pr_updated_at q))) (enabled_rows d)"
    by (simp add: sorted_wrt_map)
  then show ?thesis by (rule sorted_wrt_mono_rel [rotated]) (auto simp: less_eq_prod_simp)
qed

lemma row_to_policy_fields:
  "row_to_policy x r = Inr p \<Longrightarrow>
     p_name p = pr_name r \<and> p_priority p = pr_priority r \<and> p_enabled p = (pr_enabled r \<noteq> 0)"
  by (auto simp: row_to_policy_def res_bind_Inr_iff)

text \<open>One enabled row that does not decode fails the load.\<close>

lemma policies_now_poison:
  assumes "db_wf d" "r \<in> set (db_policies d)" "pr_enabled r = 1" "row_to_policy x r = Inl e"
  shows "\<exists>e'. policies_now x d = Inl e'"
proof (cases "policies_now x d")
  case (Inr ps)
  moreover have "r \<in> set (enabled_rows d)" using assms by (simp add: enabled_rows_set)
  ultimately have "\<exists>p. row_to_policy x r = Inr p"
    by (auto simp: policies_now_def dest: map_res_Inr_mem)
  with assms(4) show ?thesis by simp
qed simp

text \<open>Storing a policy and reading it back.\<close>

definition stored_policy :: "policy \<Rightarrow> policy" where
  "stored_policy p =
     p\<lparr>p_created_at := trunc_ms (p_created_at p), p_updated_at := trunc_ms (p_updated_at p)\<rparr>"

definition storable :: "extern \<Rightarrow> policy \<Rightarrow> bool" where
  "storable x p \<longleftrightarrow> uuid_laws x \<and> chrono_laws x \<and> json_rt x (enc_rules x (p_rules p)) \<and>
     dt_ok x (p_created_at p) \<and> dt_ok x (p_updated_at p)"

lemma row_round_trip:
  assumes "storable x p" "json_to_string x (enc_rules x (p_rules p)) = Inr s"
  shows "row_to_policy x (policy_to_row x p s) =
    (if list_all rule_finite (p_rules p) then Inr (stored_policy p)
     else Inl (SerializationError (serde_mismatch x)))"
proof -
  have "json_from_str x (dec_rules x) s =
      ok_or (SerializationError (serde_mismatch x)) (dec_rules x (enc_rules x (p_rules p)))"
    using json_rt_read [of x "enc_rules x (p_rules p)" "dec_rules x"] assms
    by (auto simp: storable_def)
  then show ?thesis using assms(1)
    by (simp add: storable_def row_to_policy_def policy_to_row_def dec_enc_rules from_ms_stored
        stored_policy_def)
qed

section \<open>The upsert as a map update\<close>

definition store_map :: "policy_row list \<Rightarrow> string \<rightharpoonup> policy_row" where
  "store_map t n = List.find (\<lambda>r. pr_name r = n) t"

definition merge_row :: "policy_row option \<Rightarrow> policy_row \<Rightarrow> policy_row" where
  "merge_row old r =
     (case old of
        None \<Rightarrow> r
      | Some q \<Rightarrow> r\<lparr>pr_id := pr_id q, pr_created_at := pr_created_at q\<rparr>)"

lemma store_map_dom: "dom (store_map t) = pr_name ` set t"
  by (auto simp: store_map_def dom_def find_None_iff image_iff)

lemma upsert_row_map:
  assumes "upsert_row r t = Inr t'"
  shows "store_map t' = (store_map t)(pr_name r \<mapsto> merge_row (store_map t (pr_name r)) r)"
proof (cases "pr_name r \<in> set (map pr_name t)")
  case True
  let ?f = "\<lambda>q. q\<lparr>pr_description := pr_description r, pr_rules := pr_rules r,
    pr_priority := pr_priority r, pr_enabled := pr_enabled r, pr_updated_at := pr_updated_at r\<rparr>"
  have t': "t' = update_rows (\<lambda>q. pr_name q = pr_name r) ?f t"
    using assms True by (simp add: upsert_row_def)
  from True obtain q where q: "store_map t (pr_name r) = Some q"
    using store_map_dom [of t] by fastforce
  then have "pr_name q = pr_name r" by (auto simp: store_map_def find_Some_iff)
  then have merged: "?f q = merge_row (Some q) r" by (cases q; cases r) (simp add: merge_row_def)
  show ?thesis
  proof
    fix n
    show "store_map t' n = ((store_map t)(pr_name r \<mapsto> merge_row (store_map t (pr_name r)) r)) n"
      using policy_names.update_find [of ?f "pr_name r" t]
        policy_names.update_find_other [of ?f n "\<lambda>q. pr_name q = pr_name r" t] q merged
      by (cases "n = pr_name r") (simp_all add: t' store_map_def)
  qed
next
  case False
  then have ins: "insert_row policy_uniques r t = Inr t'"
    using assms by (simp add: upsert_row_def split: if_splits)
  have none: "store_map t (pr_name r) = None"
    using False store_map_dom [of t] by (metis domIff set_map)
  show ?thesis
  proof
    fix n
    show "store_map t' n = ((store_map t)(pr_name r \<mapsto> merge_row (store_map t (pr_name r)) r)) n"
      using policy_names.insert_find [OF ins] policy_names.insert_find_other [OF ins, of n] none
      by (cases "n = pr_name r") (simp_all add: store_map_def merge_row_def)
  qed
qed

lemma upsert_row_distinct:
  assumes "upsert_row r t = Inr t'" "distinct (map pr_id t)" "distinct (map pr_name t)"
  shows "distinct (map pr_id t') \<and> distinct (map pr_name t')"
proof (cases "pr_name r \<in> set (map pr_name t)")
  case True
  let ?f = "\<lambda>q. q\<lparr>pr_description := pr_description r, pr_rules := pr_rules r,
    pr_priority := pr_priority r, pr_enabled := pr_enabled r, pr_updated_at := pr_updated_at r\<rparr>"
  have "t' = update_rows (\<lambda>q. pr_name q = pr_name r) ?f t"
    using assms(1) True by (simp add: upsert_row_def)
  with assms(2,3) show ?thesis
    by (simp add: policy_ids.update_distinct policy_names.update_distinct)
next
  case False
  then have "insert_row policy_uniques r t = Inr t'"
    using assms(1) by (simp add: upsert_row_def split: if_splits)
  with assms(2,3) show ?thesis
    using policy_ids.insert_distinct policy_names.insert_distinct by blast
qed

end
