(* ===== verification/Policy_Engine.thy ===== *)
theory Policy_Engine
  imports Policy_Store
begin

text \<open>
  What the operations of the policy engine keep and what they achieve. The locale \<open>engine_op\<close> is the
  contract every operation meets: it keeps the invariant \<open>engine_inv\<close> (schema integrity, identifiers
  as written, a coherent cache) and touches nothing but the policies table and the cache. Its client
  lemma is that an evaluation after such an operation answers from the table.
\<close>

section \<open>Invariant and frame\<close>

definition cache_coherent :: "extern \<Rightarrow> 'a engine_scheme \<Rightarrow> bool" where
  "cache_coherent x e \<longleftrightarrow> pe_cache e = [] \<or> policies_now x e = Inr (pe_cache e)"

definition ids_shown :: "extern \<Rightarrow> policy_row list \<Rightarrow> bool" where
  "ids_shown x t \<longleftrightarrow> (\<forall>r\<in>set t. \<exists>u. pr_id r = uuid_show x u)"

definition engine_inv :: "extern \<Rightarrow> 'a engine_scheme \<Rightarrow> bool" where
  "engine_inv x e \<longleftrightarrow> db_wf e \<and> ids_shown x (db_policies e) \<and> cache_coherent x e"

definition engine_frame :: "'a engine_scheme \<Rightarrow> 'a engine_scheme \<Rightarrow> bool" where
  "engine_frame e e' \<longleftrightarrow>
     db_keys e' = db_keys e \<and> db_sessions e' = db_sessions e \<and> db_audit e' = db_audit e \<and>
     scan_keys e' = scan_keys e \<and> scan_sessions e' = scan_sessions e \<and>
     scan_policies e' = scan_policies e \<and> scan_audit e' = scan_audit e \<and>
     engine.more e' = engine.more e"

lemma engine_frame_refl [simp]: "engine_frame e e"
  by (simp add: engine_frame_def)

lemma engine_frame_trans: "engine_frame e e' \<Longrightarrow> engine_frame e' e'' \<Longrightarrow> engine_frame e e''"
  by (simp add: engine_frame_def)

lemma engine_frame_upd [simp]:
  "engine_frame e (e'\<lparr>db_faults := fs\<rparr>) = engine_frame e e'"
  "engine_frame e (e'\<lparr>db_policies := t\<rparr>) = engine_frame e e'"
  "engine_frame e (e'\<lparr>pe_cache := c\<rparr>) = engine_frame e e'"
  by (simp_all add: engine_frame_def)

lemma engine_inv_faults [simp]: "engine_inv x (e\<lparr>db_faults := fs\<rparr>) = engine_inv x e"
  by (simp add: engine_inv_def cache_coherent_def)

lemma engine_inv_load:
  "engine_inv x e \<Longrightarrow> policies_now x e = Inr ps \<Longrightarrow> engine_inv x (e\<lparr>pe_cache := ps\<rparr>)"
  by (simp add: engine_inv_def cache_coherent_def db_wf_def)

lemma engine_inv_table:
  "engine_inv x e \<Longrightarrow> distinct (map pr_id t) \<Longrightarrow> distinct (map pr_name t) \<Longrightarrow> ids_shown x t \<Longrightarrow>
     engine_inv x (e\<lparr>db_faults := fs, db_policies := t, pe_cache := []\<rparr>)"
  by (simp add: engine_inv_def cache_coherent_def db_wf_def)

section \<open>The contract of an operation\<close>

locale engine_op =
  fixes x :: extern
    and run :: "('a engine_scheme, 'v) action"
  assumes inv: "engine_inv x e \<Longrightarrow> engine_inv x (snd (run e))"
    and frame: "engine_frame e (snd (run e))"
begin

lemma sessions_untouched: "db_sessions (snd (run e)) = db_sessions e"
  using frame [of e] by (simp add: engine_frame_def)

lemma evaluate_current:
  assumes "engine_inv x e" "healthy (snd (run e))"
  shows "fst (evaluate x ctx (snd (run e))) =
    (case policies_now x (snd (run e)) of
       Inl err \<Rightarrow> Inl err
     | Inr ps \<Rightarrow> Inr (eval_policies ps ctx))"
proof -
  have "engine_inv x (snd (run e))" using assms(1) by (rule inv)
  then show ?thesis using assms(2)
    by (auto simp: evaluate_def cached_policies_def act_bind_case load_step engine_inv_def
        cache_coherent_def split: sum.split)
qed

end

section \<open>The operations meet it\<close>

lemma exec_policies_cases:
  obtains err where "exec_policies f d = (Inl err, d\<lparr>db_faults := tl (db_faults d)\<rparr>)"
  | t where "f (db_policies d) = Inr t" "next_fault d = None"
      "exec_policies f d = (Inr (), d\<lparr>db_faults := tl (db_faults d), db_policies := t\<rparr>)"
  by (cases "next_fault d"; cases "f (db_policies d)")
     (simp_all add: exec_policies_def sql_fault sql_step)

lemma exec_policies_healthy:
  "healthy d \<Longrightarrow> exec_policies f d =
     (case f (db_policies d) of
        Inl e \<Rightarrow> (Inl (DatabaseError e), d)
      | Inr t \<Rightarrow> (Inr (), d\<lparr>db_policies := t\<rparr>))"
  by (simp add: exec_policies_def sql_healthy split: sum.split)

lemma upsert_row_shown:
  "upsert_row r t = Inr t' \<Longrightarrow> ids_shown x t \<Longrightarrow> pr_id r = uuid_show x u \<Longrightarrow> ids_shown x t'"
  by (auto simp: upsert_row_def ids_shown_def update_rows_def insert_row_Inr split: if_splits)

lemma exec_then_invalidate:
  assumes "\<And>t'. f (db_policies e) = Inr t' \<Longrightarrow> engine_inv x e \<Longrightarrow>
    distinct (map pr_id t') \<and> distinct (map pr_name t') \<and> ids_shown x t'"
  shows "(engine_inv x e \<longrightarrow>
      engine_inv x (snd (act_bind (exec_policies f) (\<lambda>_ e. (Inr (), invalidate_cache e)) e))) \<and>
    engine_frame e (snd (act_bind (exec_policies f) (\<lambda>_ e. (Inr (), invalidate_cache e)) e))"
proof (cases rule: exec_policies_cases [of f e])
  case (1 err)
  then show ?thesis by simp
next
  case (2 t)
  show ?thesis
  proof (intro conjI impI)
    assume i: "engine_inv x e"
    then have "engine_inv x (e\<lparr>db_faults := tl (db_faults e), db_policies := t, pe_cache := []\<rparr>)"
      using assms 2(1) by (intro engine_inv_table) auto
    then show "engine_inv x (snd (act_bind (exec_policies f) (\<lambda>_ e. (Inr (), invalidate_cache e)) e))"
      using 2(3) by (simp add: invalidate_cache_def)
  qed (use 2(3) in \<open>simp add: invalidate_cache_def\<close>)
qed

lemma upsert_policy_unfold:
  "upsert_policy x p e =
     (case json_to_string x (enc_rules x (p_rules p)) of
        Inl err \<Rightarrow> (Inl err, e)
      | Inr s \<Rightarrow> act_bind (exec_policies (upsert_row (policy_to_row x p s)))
          (\<lambda>_ e. (Inr (), invalidate_cache e)) e)"
  by (simp add: upsert_policy_def split: sum.split)

lemma upsert_policy_ok:
  "(engine_inv x e \<longrightarrow> engine_inv x (snd (upsert_policy x p e))) \<and>
   engine_frame e (snd (upsert_policy x p e))"
proof (cases "json_to_string x (enc_rules x (p_rules p))")
  case (Inr s)
  have "distinct (map pr_id t') \<and> distinct (map pr_name t') \<and> ids_shown x t'"
    if "upsert_row (policy_to_row x p s) (db_policies e) = Inr t'" "engine_inv x e" for t'
  proof -
    have "pr_id (policy_to_row x p s) = uuid_show x (p_id p)" by (simp add: policy_to_row_def)
    then have "ids_shown x t'"
      using that upsert_row_shown by (auto simp: engine_inv_def)
    then show ?thesis
      using upsert_row_distinct [OF that(1)] that(2) by (simp add: engine_inv_def db_wf_def)
  qed
  from exec_then_invalidate [OF this] Inr show ?thesis
    by (simp add: upsert_policy_unfold)
qed (simp add: upsert_policy_unfold)

lemma remove_policy_ok:
  "(engine_inv x e \<longrightarrow> engine_inv x (snd (remove_policy x i e))) \<and>
   engine_frame e (snd (remove_policy x i e))"
  unfolding remove_policy_def
  by (rule exec_then_invalidate)
     (auto simp: engine_inv_def db_wf_def delete_rows_def distinct_map_filter_set ids_shown_def)

lemma load_ok:
  "engine_inv x (snd (load_policies_from_db x e)) = engine_inv x e"
  "engine_frame e (snd (load_policies_from_db x e))"
  by (simp_all add: load_step)

lemma cached_policies_ok:
  "(engine_inv x e \<longrightarrow> engine_inv x (snd (cached_policies x e))) \<and>
   engine_frame e (snd (cached_policies x e))"
  by (auto simp: cached_policies_def act_bind_case load_step engine_inv_load
      split: sum.split option.split)

text \<open>Sequencing keeps the contract.\<close>

definition op_ok :: "extern \<Rightarrow> ('a engine_scheme, 'v) action \<Rightarrow> bool" where
  "op_ok x run \<longleftrightarrow>
     (\<forall>e. (engine_inv x e \<longrightarrow> engine_inv x (snd (run e))) \<and> engine_frame e (snd (run e)))"

lemma op_ok_engine_op: "op_ok x run \<longleftrightarrow> engine_op x run"
  by (auto simp: op_ok_def engine_op_def)

lemma op_ok_lift [simp]: "op_ok x (act_lift r)" "op_ok x (act_return v)" "op_ok x (Pair r)"
  by (simp_all add: op_ok_def)

lemma op_ok_bind:
  assumes "op_ok x m" "\<And>v. op_ok x (f v)"
  shows "op_ok x (act_bind m f)"
  unfolding op_ok_def
proof (intro allI conjI impI)
  fix e
  show "engine_frame e (snd (act_bind m f e))"
    by (rule act_bind_inv [of "engine_frame e"])
      (use assms in \<open>auto simp: op_ok_def intro: engine_frame_trans\<close>)
  assume "engine_inv x e"
  then show "engine_inv x (snd (act_bind m f e))"
    by (intro act_bind_inv [of "engine_inv x"]) (use assms in \<open>auto simp: op_ok_def\<close>)
qed

lemma op_ok_upsert [simp]: "op_ok x (upsert_policy x p)"
  using upsert_policy_ok by (auto simp: op_ok_def)

lemma op_ok_upsert_all [simp]: "op_ok x (upsert_all x ps latest)"
  by (induction ps arbitrary: latest) (auto intro: op_ok_bind)

lemma op_ok_add [simp]: "op_ok x (add_policy_from_toml x draw source name)"
  unfolding add_policy_from_toml_def by (auto intro!: op_ok_bind)

lemma op_ok_load_entries [simp]: "op_ok x (load_entries x draw k entries)"
  by (induction x draw k entries rule: load_entries.induct)
     (auto intro!: op_ok_bind split: sum.split option.split)

interpretation evaluate_op: engine_op x "evaluate x ctx" for x ctx
  unfolding op_ok_engine_op [symmetric] evaluate_def
  by (rule op_ok_bind) (use cached_policies_ok in \<open>auto simp: op_ok_def\<close>)

interpretation list_op: engine_op x "list_policies x" for x
  unfolding op_ok_engine_op [symmetric] list_policies_def
  by (simp add: op_ok_def load_ok)

interpretation remove_op: engine_op x "remove_policy x i" for x i
  unfolding op_ok_engine_op [symmetric]
  using remove_policy_ok by (auto simp: op_ok_def)

interpretation upsert_op: engine_op x "upsert_policy x p" for x p
  unfolding op_ok_engine_op [symmetric] by simp

interpretation add_op: engine_op x "add_policy_from_toml x draw source name" for x draw source name
  unfolding op_ok_engine_op [symmetric] by simp

interpretation load_dir_op: engine_op x "load_from_dir x draw dir" for x draw dir
  unfolding op_ok_engine_op [symmetric] load_from_dir_def by (auto split: option.split sum.split)

section \<open>What the operations achieve\<close>

lemma evaluate_cases:
  "engine_inv x e \<Longrightarrow>
     fst (evaluate x ctx e) =
       (case (if pe_cache e = [] then next_fault e else None) of
          Some m \<Rightarrow> Inl (DatabaseError (Io_failure m))
        | None \<Rightarrow> (case policies_now x e of
              Inl err \<Rightarrow> Inl err
            | Inr ps \<Rightarrow> Inr (eval_policies ps ctx)))"
  by (auto simp: evaluate_def cached_policies_def act_bind_case load_step engine_inv_def
      cache_coherent_def split: sum.split option.split)

lemma upsert_policy_Inr:
  assumes "upsert_policy x p e = (Inr (), e')"
  obtains s t where "json_to_string x (enc_rules x (p_rules p)) = Inr s"
    "upsert_row (policy_to_row x p s) (db_policies e) = Inr t"
    "e' = e\<lparr>db_faults := tl (db_faults e), db_policies := t, pe_cache := []\<rparr>"
proof (cases "json_to_string x (enc_rules x (p_rules p))")
  case (Inl err)
  with assms show ?thesis by (simp add: upsert_policy_unfold)
next
  case (Inr s)
  show ?thesis
  proof (cases rule: exec_policies_cases [of "upsert_row (policy_to_row x p s)" e])
    case (1 err)
    with assms Inr show ?thesis by (simp add: upsert_policy_unfold)
  next
    case (2 t)
    with assms Inr that show ?thesis by (simp add: upsert_policy_unfold invalidate_cache_def)
  qed
qed

text \<open>The row an upserted policy ends in.\<close>

lemma upsert_policy_row:
  assumes "upsert_policy x p e = (Inr (), e')"
  obtains s r where "json_to_string x (enc_rules x (p_rules p)) = Inr s" "r \<in> set (db_policies e')"
    "r = merge_row (store_map (db_policies e) (p_name p)) (policy_to_row x p s)"
proof -
  from assms obtain s t where
    *: "json_to_string x (enc_rules x (p_rules p)) = Inr s"
      "upsert_row (policy_to_row x p s) (db_policies e) = Inr t"
      "e' = e\<lparr>db_faults := tl (db_faults e), db_policies := t, pe_cache := []\<rparr>"
    by (rule upsert_policy_Inr)
  let ?r = "merge_row (store_map (db_policies e) (p_name p)) (policy_to_row x p s)"
  have "store_map t (p_name p) = Some ?r"
    using upsert_row_map [OF *(2)] by (simp add: policy_to_row_def)
  then have "?r \<in> set t" by (auto simp: store_map_def find_Some_iff)
  with that * show ?thesis by simp
qed

lemma merge_row_rules:
  assumes "storable x p" "json_to_string x (enc_rules x (p_rules p)) = Inr s"
    and "row_to_policy x (merge_row old (policy_to_row x p s)) = Inr q"
  shows "list_all rule_finite (p_rules p) \<and> p_name q = p_name p \<and> p_rules q = p_rules p \<and>
    p_priority q = p_priority p \<and> p_enabled q = p_enabled p \<and> p_description q = p_description p"
proof -
  have "json_from_str x (dec_rules x) s =
      ok_or (SerializationError (serde_mismatch x)) (dec_rules x (enc_rules x (p_rules p)))"
    using json_rt_read [of x "enc_rules x (p_rules p)" "dec_rules x"] assms
    by (auto simp: storable_def)
  then show ?thesis using assms(1,3)
    by (cases old) (auto simp: row_to_policy_def policy_to_row_def merge_row_def res_bind_Inr_iff
        dec_enc_rules storable_def split: if_splits)
qed

lemma upsert_all_Inr:
  "upsert_all x ps latest e = (Inr r, e') \<Longrightarrow> ps \<noteq> [] \<Longrightarrow>
     r = Some (last ps) \<and> (\<exists>e0. upsert_policy x (last ps) e0 = (Inr (), e'))"
proof (induction ps arbitrary: latest e)
  case (Cons p ps)
  then obtain e1 where e1: "upsert_policy x p e = (Inr (), e1)" "upsert_all x ps (Some p) e1 = (Inr r, e')"
    by (auto simp: act_bind_Inr)
  show ?case
  proof (cases "ps = []")
    case True
    with e1 show ?thesis by auto
  next
    case False
    with Cons.IH [OF e1(2)] show ?thesis by simp
  qed
qed simp

lemma add_policy_Inr:
  assumes "add_policy_from_toml x draw source name e = (Inr p, e')"
  obtains e0 where "upsert_policy x p e0 = (Inr (), e')"
proof -
  from assms obtain ps where ps: "parse_policy_source x draw source name = Inr ps"
    "upsert_all x ps None e = (Inr (Some p), e')"
    by (auto simp: add_policy_from_toml_def act_bind_Inr ok_or_Inr_iff)
  then have "ps \<noteq> []" by (cases ps) auto
  with upsert_all_Inr [OF ps(2)] that show ?thesis by auto
qed

text \<open>The schema is kept whatever the cache holds.\<close>

lemma exec_upsert_wf: "db_wf d \<Longrightarrow> db_wf (snd (exec_policies (upsert_row r) d))"
  by (cases rule: exec_policies_cases [of "upsert_row r" d])
     (use upsert_row_distinct in \<open>auto simp: db_wf_def\<close>)

lemma invalidate_wf [simp]: "db_wf (invalidate_cache e) = db_wf e"
  by (simp add: invalidate_cache_def db_wf_def)

lemma upsert_policy_wf: "db_wf e \<Longrightarrow> db_wf (snd (upsert_policy x p e))"
  unfolding upsert_policy_def
  by (intro act_bind_inv [of db_wf]) (simp_all add: exec_upsert_wf act_bind_inv [of db_wf])

lemma upsert_all_wf: "db_wf e \<Longrightarrow> db_wf (snd (upsert_all x ps latest e))"
  by (induction ps arbitrary: latest e) (auto intro!: act_bind_inv [of db_wf] upsert_policy_wf)

lemma add_policy_wf: "db_wf e \<Longrightarrow> db_wf (snd (add_policy_from_toml x draw source name e))"
  unfolding add_policy_from_toml_def
  by (intro act_bind_inv [of db_wf]) (simp_all add: upsert_all_wf act_bind_inv [of db_wf])

lemma upsert_in_force:
  assumes "upsert_policy x p e = (Inr (), e')" "storable x p" "p_enabled p" "db_wf e'"
    and "policies_now x e' = Inr ps"
  shows "\<exists>q\<in>set ps. p_name q = p_name p \<and> p_rules q = p_rules p \<and> p_priority q = p_priority p"
proof -
  from assms(1) obtain s r where r: "json_to_string x (enc_rules x (p_rules p)) = Inr s"
    "r \<in> set (db_policies e')"
    "r = merge_row (store_map (db_policies e) (p_name p)) (policy_to_row x p s)"
    by (rule upsert_policy_row)
  have "pr_enabled r = 1" using assms(3) r(3)
    by (auto simp: merge_row_def policy_to_row_def split: option.split)
  then have "r \<in> set (enabled_rows e')" using r(2) assms(4)
    by (simp add: enabled_rows_set)
  then obtain q where "q \<in> set ps" "row_to_policy x r = Inr q"
    using map_res_Inr_mem [OF assms(5) [unfolded policies_now_def]] by blast
  with merge_row_rules [OF assms(2) r(1)] r(3) show ?thesis by blast
qed

lemma upsert_poison:
  assumes "upsert_policy x p e = (Inr (), e')" "storable x p" "p_enabled p" "engine_inv x e'"
    and "\<not> list_all rule_finite (p_rules p)"
  shows "\<exists>err. policies_now x e' = Inl err"
proof (cases "policies_now x e'")
  case (Inr ps)
  from assms(1) obtain s r where r: "json_to_string x (enc_rules x (p_rules p)) = Inr s"
    "r \<in> set (db_policies e')"
    "r = merge_row (store_map (db_policies e) (p_name p)) (policy_to_row x p s)"
    by (rule upsert_policy_row)
  have "pr_enabled r = 1" using assms(3) r(3)
    by (auto simp: merge_row_def policy_to_row_def split: option.split)
  then have "r \<in> set (enabled_rows e')" using r(2) assms(4)
    by (simp add: enabled_rows_set engine_inv_def)
  then obtain q where "row_to_policy x r = Inr q"
    using map_res_Inr_mem [OF Inr [unfolded policies_now_def]] by blast
  with merge_row_rules [OF assms(2) r(1)] r(3) assms(5) show ?thesis by blast
qed simp

section \<open>Names in the table\<close>

lemma upsert_policy_dom:
  "upsert_policy x p e = (Inr (), e') \<Longrightarrow>
     dom (store_map (db_policies e')) = insert (p_name p) (dom (store_map (db_policies e)))"
proof (erule upsert_policy_Inr)
  fix s t
  assume "upsert_row (policy_to_row x p s) (db_policies e) = Inr t"
    and "e' = e\<lparr>db_faults := tl (db_faults e), db_policies := t, pe_cache := []\<rparr>"
  with upsert_row_map [of "policy_to_row x p s" "db_policies e" t] show ?thesis
    by (simp add: policy_to_row_def)
qed

lemma upsert_all_dom:
  "upsert_all x ps latest e = (Inr r, e') \<Longrightarrow>
     dom (store_map (db_policies e')) = p_name ` set ps \<union> dom (store_map (db_policies e))"
proof (induction ps arbitrary: latest e)
  case (Cons p ps)
  then obtain e1 where e1: "upsert_policy x p e = (Inr (), e1)" "upsert_all x ps (Some p) e1 = (Inr r, e')"
    by (auto simp: act_bind_Inr)
  from Cons.IH [OF e1(2)] upsert_policy_dom [OF e1(1)] show ?case by auto
qed simp

lemma add_policy_dom:
  assumes "add_policy_from_toml x draw source name e = (Inr p, e')"
  shows "\<exists>ps. parse_policy_source x draw source name = Inr ps \<and> ps \<noteq> [] \<and> p = last ps \<and>
    dom (store_map (db_policies e')) = p_name ` set ps \<union> dom (store_map (db_policies e))"
proof -
  from assms obtain ps where ps: "parse_policy_source x draw source name = Inr ps"
    "upsert_all x ps None e = (Inr (Some p), e')"
    by (auto simp: add_policy_from_toml_def act_bind_Inr ok_or_Inr_iff)
  then have "ps \<noteq> []" by (cases ps) auto
  with ps upsert_all_Inr [OF ps(2)] upsert_all_dom [OF ps(2)] show ?thesis by blast
qed

lemma load_entries_dom:
  "load_entries x draw k entries e = (Inr n, e') \<Longrightarrow>
     n = k + length entries \<and> dom (store_map (db_policies e)) \<subseteq> dom (store_map (db_policies e')) \<and>
     (\<forall>i<length entries. \<exists>f source ps. entries ! i = Inr f \<and> pe_source f = Inr source \<and>
        parse_policy_source x (draw (k + i)) source
          (case pe_stem f of Some s \<Rightarrow> s | None \<Rightarrow> ''policy'') = Inr ps \<and>
        ps \<noteq> [] \<and> p_name ` set ps \<subseteq> dom (store_map (db_policies e')))"
proof (induction entries arbitrary: k e)
  case (Cons entry entries)
  then obtain f source where f: "entry = Inr f" "pe_source f = Inr source"
    by (cases entry; cases "pe_source (projr entry)") auto
  let ?name = "case pe_stem f of Some s \<Rightarrow> s | None \<Rightarrow> ''policy''"
  from Cons.prems f obtain p e1 where e1: "add_policy_from_toml x (draw k) source ?name e = (Inr p, e1)"
    "load_entries x draw (Suc k) entries e1 = (Inr n, e')"
    by (auto simp: act_bind_Inr)
  from add_policy_dom [OF e1(1)] obtain ps where ps: "parse_policy_source x (draw k) source ?name = Inr ps"
    "ps \<noteq> []" "dom (store_map (db_policies e1)) = p_name ` set ps \<union> dom (store_map (db_policies e))"
    by blast
  note IH = Cons.IH [OF e1(2)]
  show ?case
  proof (intro conjI allI impI)
    fix i assume "i < length (entry # entries)"
    then show "\<exists>f source ps. (entry # entries) ! i = Inr f \<and> pe_source f = Inr source \<and>
        parse_policy_source x (draw (k + i)) source
          (case pe_stem f of Some s \<Rightarrow> s | None \<Rightarrow> ''policy'') = Inr ps \<and>
        ps \<noteq> [] \<and> p_name ` set ps \<subseteq> dom (store_map (db_policies e'))"
      using IH f ps by (cases i) auto
  qed (use IH ps in auto)
qed simp

end
