(* ===== verification/Policy_Claims.thy ===== *)
theory Policy_Claims
  imports Policy_Engine
begin

text \<open>
  The properties of the policy store and its cache, each with an instance: evaluation answers from
  the table after any sequence of calls, the order and contents of a load, what adding, adding again
  and removing a policy do.
\<close>

section \<open>Sequences of calls\<close>

text \<open>\<open>PolicyEngine::new\<close> over a database.\<close>

definition engine_new :: "db \<Rightarrow> engine" where
  "engine_new d = db.extend d (engine.fields [])"

lemma engine_new_simps [simp]:
  "db_policies (engine_new d) = db_policies d"
  "db_sessions (engine_new d) = db_sessions d"
  "db_faults (engine_new d) = db_faults d"
  "scan_policies (engine_new d) = scan_policies d"
  "pe_cache (engine_new d) = []"
  by (simp_all add: engine_new_def db.defs engine.defs)

lemma engine_new_inv: "db_wf d \<Longrightarrow> ids_shown x (db_policies d) \<Longrightarrow> engine_inv x (engine_new d)"
  by (simp add: engine_inv_def cache_coherent_def db_wf_def engine_new_def db.defs engine.defs)

datatype engine_call =
    Call_evaluate eval_context
  | Call_list
  | Call_add "nat \<Rightarrow> uuid \<times> datetime" string string
  | Call_load "nat \<Rightarrow> nat \<Rightarrow> uuid \<times> datetime" "(string + (string + policy_entry) list) option"
  | Call_remove uuid

fun engine_call_step :: "extern \<Rightarrow> engine_call \<Rightarrow> 'a engine_scheme \<Rightarrow> 'a engine_scheme" where
  "engine_call_step x (Call_evaluate ctx) e = snd (evaluate x ctx e)"
| "engine_call_step x Call_list e = snd (list_policies x e)"
| "engine_call_step x (Call_add draw source name) e = snd (add_policy_from_toml x draw source name e)"
| "engine_call_step x (Call_load draw dir) e = snd (load_from_dir x draw dir e)"
| "engine_call_step x (Call_remove i) e = snd (remove_policy x i e)"

lemma engine_call_inv: "engine_inv x e \<Longrightarrow> engine_inv x (engine_call_step x c e)"
  by (cases c) (simp_all add: evaluate_op.inv list_op.inv add_op.inv load_dir_op.inv remove_op.inv)

lemma engine_calls_inv: "engine_inv x e \<Longrightarrow> engine_inv x (fold (engine_call_step x) calls e)"
  by (induction calls arbitrary: e) (simp_all add: engine_call_inv)

section \<open>An instance\<close>

definition demo_rules :: "policy_rule list" where
  "demo_rules = [DenyIf (ResourceIs ''vault'') ''sealed'', AllowIf (RoleIs ''admin'')]"

definition demo_policy :: "uuid \<Rightarrow> policy_rule list \<Rightarrow> policy" where
  "demo_policy i rules = \<lparr>p_id = i, p_name = ''ops'', p_description = None, p_rules = rules,
     p_priority = 5, p_enabled = True, p_created_at = 7000000, p_updated_at = 7000000\<rparr>"

definition nan_rules :: "policy_rule list" where
  "nan_rules = [DenyIf (RiskAbove NaN) ''too risky'']"

definition demo_rules_json :: json where
  "demo_rules_json = JArray
     [JObject [(''DenyIf'', JObject [(''condition'', JObject [(''ResourceIs'', JString ''vault'')]),
                                     (''reason'', JString ''sealed'')])],
      JObject [(''AllowIf'', JObject [(''condition'', JObject [(''RoleIs'', JString ''admin'')])])]]"

definition nan_rules_json :: json where
  "nan_rules_json = JArray
     [JObject [(''DenyIf'', JObject [(''condition'', JObject [(''RiskAbove'', JNull)]),
                                     (''reason'', JString ''too risky'')])]]"

definition demo_toml :: toml where
  "demo_toml = TTable
     [(''priority'', TInteger 5),
      (''rules'', TArray
        [TTable [(''type'', TString ''deny_if''), (''reason'', TString ''sealed''),
                 (''condition'', TTable [(''resource_is'', TString ''vault'')])],
         TTable [(''type'', TString ''allow_if''),
                 (''condition'', TTable [(''role_is'', TString ''admin'')])]])]"

definition demo_x :: extern where
  "demo_x = demo_extern [(demo_rules_json, ''R1''), (nan_rules_json, ''R2'')] [(''T'', demo_toml)] []"

definition demo_row :: "nat \<Rightarrow> string \<Rightarrow> policy_row" where
  "demo_row n rules = \<lparr>pr_id = replicate n (CHR ''u''), pr_name = ''ops'', pr_description = None,
     pr_rules = rules, pr_priority = 5, pr_enabled = 1, pr_created_at = 7, pr_updated_at = 7\<rparr>"

definition demo_engine :: "policy_row list \<Rightarrow> engine" where
  "demo_engine t = engine_new (empty_db\<lparr>db_policies := t\<rparr>)"

lemma demo_engine_inv: "engine_inv demo_x (demo_engine [demo_row 1 r])"
  unfolding demo_engine_def
  by (rule engine_new_inv)
     (auto simp: db_wf_def empty_db_def ids_shown_def demo_row_def demo_x_def demo_extern_def unary_def
        intro: exI [of _ 1])

lemma demo_rules_enc [simp]:
  "enc_rules y demo_rules = demo_rules_json"
  "enc_rules y nan_rules = nan_rules_json"
  by (simp_all add: enc_rules_def demo_rules_def nan_rules_def demo_rules_json_def nan_rules_json_def
      enc_f64_def f64_is_finite_def)

lemma demo_json [simp]:
  "json_text demo_x demo_rules_json = Inr ''R1''"
  "json_text demo_x nan_rules_json = Inr ''R2''"
  "json_parse demo_x ''R1'' = Inr demo_rules_json"
  "json_parse demo_x ''R2'' = Inr nan_rules_json"
  by (simp_all add: demo_x_def demo_extern_def demo_rules_json_def nan_rules_json_def)

lemma demo_json_rt [simp]:
  "json_to_string demo_x demo_rules_json = Inr ''R1''"
  "json_to_string demo_x nan_rules_json = Inr ''R2''"
  "json_rt demo_x demo_rules_json" "json_rt demo_x nan_rules_json"
  by (simp_all add: json_to_string_def json_rt_def)

lemma demo_x_laws [simp]: "uuid_laws demo_x" "chrono_laws demo_x"
  by (simp_all add: demo_x_def)

lemma demo_show [simp]:
  "uuid_show demo_x u = replicate (unat u) (CHR ''u'')" "ts_millis demo_x t = t div 1000000"
  by (simp_all add: demo_x_def demo_extern_def unary_def)

lemma demo_toml_parse: "toml_parse demo_x ''T'' = Inr demo_toml"
  by (simp add: demo_x_def demo_extern_def)

lemma demo_dt: "\<bar>t\<bar> \<le> 8000000000000000000000 \<Longrightarrow> dt_ok demo_x t"
  by (simp add: demo_x_def)

lemma demo_storable: "storable demo_x (demo_policy i demo_rules)" "storable demo_x (demo_policy i nan_rules)"
  by (simp_all add: storable_def demo_policy_def demo_dt)

section \<open>Evaluation\<close>

text \<open>
  C4. After any sequence of calls on a new engine - evaluations, listings, additions, directory
  loads, removals, each of which may fail at any statement - an evaluation answers what first-match
  over the rules of the enabled policies of the table, in their order, gives: the cache never shows.
  It is an error only if the table does not decode or the load's statement fails.
\<close>

theorem evaluate_after_calls:
  assumes "db_wf d" and "ids_shown x (db_policies d)"
    and "e = fold (engine_call_step x) calls (engine_new d)"
    and "pe_cache e \<noteq> [] \<or> next_fault e = None"
  shows "fst (evaluate x ctx e) =
    (case policies_now x e of
       Inl err \<Rightarrow> Inl err
     | Inr ps \<Rightarrow> Inr (first_match (concat (map p_rules ps)) ctx))"
proof -
  have "engine_inv x e"
    unfolding assms(3) by (intro engine_calls_inv engine_new_inv assms(1,2))
  with assms(4) show ?thesis
    by (auto simp: evaluate_cases eval_policies_first_match split: sum.split)
qed

definition demo_ctx :: "string \<Rightarrow> string \<Rightarrow> eval_context" where
  "demo_ctx role resource = \<lparr>ec_agent_id = 1, ec_workspace_id = 2, ec_role = role, ec_scopes = [],
     ec_task = ''read'', ec_resource = resource, ec_action = ''read'', ec_risk_score = f64_zero\<rparr>"

lemma demo_from_ms [simp]: "\<bar>m\<bar> \<le> 8000000000000000 \<Longrightarrow> from_ms demo_x m = Inr (m * 1000000)"
  by (simp add: from_ms_def demo_x_def demo_extern_def)

lemma demo_uuid [simp]: "parse_uuid demo_x (replicate n (CHR ''u'')) = Inr (of_nat n)"
  by (auto simp: parse_uuid_def demo_x_def demo_extern_def)

lemma demo_json_from [simp]:
  "json_from_str demo_x (dec_rules demo_x) ''R1'' = Inr demo_rules"
  using dec_enc_rules [of demo_x demo_rules]
  by (simp add: json_from_str_def) (simp add: demo_rules_def)

lemma demo_row_policy:
  "row_to_policy demo_x (demo_row n ''R1'') = Inr (demo_policy (of_nat n) demo_rules)"
  by (simp add: row_to_policy_def demo_row_def demo_policy_def)

lemma demo_policies_now:
  "policies_now demo_x (demo_engine [demo_row n ''R1'']) = Inr [demo_policy (of_nat n) demo_rules]"
  by (simp add: policies_now_def enabled_rows_def select_rows_def demo_engine_def empty_db_def
      demo_row_policy) (simp add: demo_row_def)

lemma demo_evaluate:
  "fst (evaluate demo_x (demo_ctx ''admin'' ''vault'') (demo_engine [demo_row 1 ''R1''])) =
     Inr (Deny ''sealed'')"
proof -
  have "next_fault (demo_engine [demo_row 1 ''R1'']) = None"
    by (simp add: demo_engine_def empty_db_def next_fault_def)
  then have "fst (evaluate demo_x (demo_ctx ''admin'' ''vault'') (demo_engine [demo_row 1 ''R1''])) =
      Inr (eval_policies [demo_policy 1 demo_rules] (demo_ctx ''admin'' ''vault''))"
    using demo_policies_now [of 1] unfolding evaluate_cases [OF demo_engine_inv]
    by (simp del: eval_policies.simps)
  then show ?thesis
    by (simp add: demo_policy_def demo_rules_def eval_policies_first_match first_match_def demo_ctx_def)
qed

theorem evaluate_after_calls_witness:
  "fst (evaluate demo_x (demo_ctx ''admin'' ''vault'') (demo_engine [demo_row 1 ''R1''])) =
     Inr (Deny ''sealed'')"
proof -
  have inv: "db_wf (empty_db\<lparr>db_policies := [demo_row 1 ''R1'']\<rparr>)"
    "ids_shown demo_x (db_policies (empty_db\<lparr>db_policies := [demo_row 1 ''R1'']\<rparr>))"
    by (auto simp: db_wf_def empty_db_def ids_shown_def demo_row_def demo_x_def demo_extern_def
        unary_def intro: exI [of _ 1])
  show ?thesis
    using evaluate_after_calls [OF inv, of "demo_engine [demo_row 1 ''R1'']" "[]" "demo_ctx ''admin'' ''vault''"]
      demo_policies_now [of 1]
    by (simp add: demo_engine_def empty_db_def next_fault_def demo_policy_def demo_rules_def
        first_match_def demo_ctx_def)
qed

section \<open>Loading\<close>

text \<open>
  C17. A load that succeeds returns exactly the enabled rows of the table, once each, by descending
  priority and, within a priority, most recently updated first.
\<close>

theorem load_order:
  assumes "db_wf d" and "chrono_laws x" and "fst (load_policies_from_db x d) = Inr ps"
  shows "sorted_wrt (\<lambda>p q. p_priority q \<le> p_priority p \<and>
        (p_priority q = p_priority p \<longrightarrow> p_updated_at q \<le> p_updated_at p)) ps \<and>
    mset (map p_name ps) = image_mset pr_name (filter_mset (\<lambda>r. pr_enabled r = 1) (mset (db_policies d)))"
proof -
  from assms(3) have now: "policies_now x d = Inr ps"
    by (simp add: load_step split: option.splits)
  then have rows: "list_all2 (\<lambda>r p. row_to_policy x r = Inr p) (enabled_rows d) ps"
    by (simp add: policies_now_def map_res_Inr_iff)
  have "p_priority p = pr_priority r \<and> p_updated_at p = pr_updated_at r * 1000000"
    if "row_to_policy x r = Inr p" for r p
    using that assms(2) by (auto simp: row_to_policy_def res_bind_Inr_iff dest: from_ms_Inr)
  then have "sorted_wrt (\<lambda>p q. p_priority q \<le> p_priority p \<and>
        (p_priority q = p_priority p \<longrightarrow> p_updated_at q \<le> p_updated_at p)) ps"
    by (intro sorted_wrt_list_all2 [OF rows enabled_rows_sorted]) auto
  moreover have "map p_name ps = map pr_name (enabled_rows d)"
    using rows by (induction rule: list_all2_induct) (auto dest: row_to_policy_fields)
  moreover have "mset (enabled_rows d) = filter_mset (\<lambda>r. pr_enabled r = 1) (mset (db_policies d))"
    using assms(1) by (simp add: enabled_rows_def mset_select_rows db_wf_def)
  ultimately show ?thesis by (metis mset_map)
qed

lemma load_order_witness:
  "\<exists>ps. fst (load_policies_from_db demo_x (demo_engine [demo_row 1 ''R1''])) = Inr ps \<and>
     mset (map p_name ps) = {#''ops''#}"
proof -
  have wf: "db_wf (demo_engine [demo_row 1 ''R1''])"
    using demo_engine_inv [of "''R1''"] by (simp add: engine_inv_def)
  have load: "fst (load_policies_from_db demo_x (demo_engine [demo_row 1 ''R1''])) =
      Inr [demo_policy 1 demo_rules]"
    using demo_policies_now [of 1] by (simp add: load_step next_fault_def demo_engine_def empty_db_def)
  have "filter_mset (\<lambda>r. pr_enabled r = 1) (mset (db_policies (demo_engine [demo_row 1 ''R1'']))) =
      {#demo_row 1 ''R1''#}"
    by (simp add: demo_engine_def empty_db_def) (simp add: demo_row_def)
  with load_order [OF wf demo_x_laws(2) load] load show ?thesis
    by (intro exI [of _ "[demo_policy 1 demo_rules]"]) (simp add: demo_row_def)
qed

section \<open>Storing\<close>

text \<open>
  C18. A policy that is written to a row reads back as itself, with its times cut to milliseconds,
  exactly when every \<open>RiskAbove\<close> threshold in it is finite; otherwise the row does not decode.
\<close>

theorem policy_row_round_trip:
  assumes "storable x p" and "json_to_string x (enc_rules x (p_rules p)) = Inr s"
  shows "row_to_policy x (policy_to_row x p s) =
    (if list_all rule_finite (p_rules p) then Inr (stored_policy p)
     else Inl (SerializationError (serde_mismatch x)))"
  using assms by (rule row_round_trip)

lemma policy_row_round_trip_witness:
  "row_to_policy demo_x (policy_to_row demo_x (demo_policy 1 demo_rules) ''R1'') =
     Inr (stored_policy (demo_policy 1 demo_rules)) \<and>
   row_to_policy demo_x (policy_to_row demo_x (demo_policy 1 nan_rules) ''R2'') =
     Inl (SerializationError (serde_mismatch demo_x))"
  using policy_row_round_trip [OF demo_storable(1) [of 1], of "''R1''"]
    policy_row_round_trip [OF demo_storable(2) [of 1], of "''R2''"]
  by (simp add: demo_policy_def) (simp add: demo_rules_def nan_rules_def f64_is_finite_def)

text \<open>
  C19. The upsert refines a map from names to rows: it updates the entry of the policy's name and no
  other, keeps the identifier and the creation time of an entry that was there, empties the cache,
  and leaves every other table alone.
\<close>

theorem upsert_refines_map:
  assumes "upsert_policy x p e = (Inr (), e')"
  shows "(\<exists>s. json_text x (enc_rules x (p_rules p)) = Inr s \<and>
      store_map (db_policies e') = (store_map (db_policies e))
        (p_name p \<mapsto> merge_row (store_map (db_policies e) (p_name p)) (policy_to_row x p s))) \<and>
    pe_cache e' = [] \<and> engine_frame e e'"
proof -
  from assms obtain s t where "json_to_string x (enc_rules x (p_rules p)) = Inr s"
    "upsert_row (policy_to_row x p s) (db_policies e) = Inr t"
    "e' = e\<lparr>db_faults := tl (db_faults e), db_policies := t, pe_cache := []\<rparr>"
    by (rule upsert_policy_Inr)
  with upsert_row_map [of "policy_to_row x p s" "db_policies e" t] show ?thesis
    by (auto simp: json_to_string_Inr policy_to_row_def)
qed

lemma demo_upsert:
  "upsert_policy demo_x (demo_policy 2 demo_rules) (demo_engine [demo_row 1 s]) =
     (Inr (), demo_engine [demo_row 1 ''R1''])"
  "upsert_policy demo_x (demo_policy 2 nan_rules) (demo_engine [demo_row 1 s]) =
     (Inr (), demo_engine [demo_row 1 ''R2''])"
  by (simp_all add: upsert_policy_unfold demo_policy_def demo_engine_def empty_db_def
      exec_policies_healthy act_bind_case upsert_row_def policy_to_row_def demo_row_def
      update_rows_def engine_new_def db.defs engine.defs
      invalidate_cache_def)

theorem upsert_refines_map_witness:
  "map_option pr_id (store_map (db_policies (demo_engine [demo_row 1 ''R1''])) ''ops'') = Some ''u''"
  using upsert_refines_map [OF demo_upsert(1) [of "''R0''"]]
  by (auto simp: demo_policy_def demo_engine_def empty_db_def store_map_def demo_row_def merge_row_def)

text \<open>
  C20. A policy returned by \<open>add_policy_from_toml\<close> is in force at once if it is enabled (and its rules
  and times are such that the libraries read back what they wrote, \<open>storable\<close>): an evaluation after
  the call, if it returns a decision, took it from a list that has a policy of that name with its
  rules and its priority, whatever the cache held before the call.
\<close>

theorem add_policy_in_force:
  assumes "add_policy_from_toml x draw source name e = (Inr p, e')" and "db_wf e"
    and "storable x p" and "p_enabled p"
    and "fst (evaluate x ctx e') = Inr decision"
  shows "\<exists>ps. decision = eval_policies ps ctx \<and> pe_cache (snd (evaluate x ctx e')) = ps \<and>
    (\<exists>q\<in>set ps. p_name q = p_name p \<and> p_rules q = p_rules p \<and> p_priority q = p_priority p)"
proof -
  have wf: "db_wf e'" using add_policy_wf [OF assms(2), of x draw source name] assms(1) by simp
  obtain e0 where e0: "upsert_policy x p e0 = (Inr (), e')" using assms(1) by (rule add_policy_Inr)
  have "pe_cache e' = []" using e0 by (rule upsert_policy_Inr) simp
  then obtain ps where ps: "policies_now x e' = Inr ps" "decision = eval_policies ps ctx"
    "pe_cache (snd (evaluate x ctx e')) = ps"
    using assms(5) by (auto simp: evaluate_def cached_policies_def act_bind_case load_step
        split: option.splits sum.splits)
  with upsert_in_force [OF e0 assms(3,4) wf] show ?thesis by blast
qed

lemma demo_parse:
  "parse_policy_source demo_x (\<lambda>_. (i, 7000000)) ''T'' ''ops'' = Inr [demo_policy i demo_rules]"
  by (simp add: parse_policy_source_def str_contains_def toml_from_str_def demo_toml_parse
      demo_toml_def de_policy_file_def de_opt_string_def de_priority_def de_enabled_def
      default_enabled_def de_list_def de_rule_file_def policy_from_file_def parse_rule_def
      parse_condition.simps demo_policy_def demo_rules_def)

lemma demo_add:
  "add_policy_from_toml demo_x (\<lambda>_. (2, 7000000)) ''T'' ''ops'' (demo_engine [demo_row 1 s]) =
     (Inr (demo_policy 2 demo_rules), demo_engine [demo_row 1 ''R1''])"
  using demo_upsert(1) [of s] by (simp add: add_policy_from_toml_def demo_parse act_bind_case)

theorem add_policy_in_force_witness:
  "\<exists>ps. Deny ''sealed'' = eval_policies ps (demo_ctx ''admin'' ''vault'') \<and>
     (\<exists>q\<in>set ps. p_name q = ''ops'' \<and> p_rules q = demo_rules)"
proof -
  have eval: "fst (evaluate demo_x (demo_ctx ''admin'' ''vault'') (demo_engine [demo_row 1 ''R1''])) =
      Inr (Deny ''sealed'')"
    by (rule demo_evaluate)
  have en: "p_enabled (demo_policy 2 demo_rules)" by (simp add: demo_policy_def)
  have wf: "db_wf (demo_engine [demo_row 1 ''R0''])"
    using demo_engine_inv [of "''R0''"] by (simp add: engine_inv_def)
  from add_policy_in_force [OF demo_add wf demo_storable(1) en eval]
  show ?thesis by (auto simp: demo_policy_def)
qed

text \<open>
  A directory load that succeeds has loaded every file: it counts the entries, each file was
  read and parsed to at least one policy, and afterwards the table has a row for the name of every
  policy of every file.
\<close>

theorem load_from_dir_complete:
  assumes "load_from_dir x draw (Some (Inr entries)) e = (Inr n, e')"
  shows "n = length entries \<and>
    (\<forall>i<length entries. \<exists>f source ps. entries ! i = Inr f \<and> pe_source f = Inr source \<and>
       parse_policy_source x (draw i) source
         (case pe_stem f of Some s \<Rightarrow> s | None \<Rightarrow> ''policy'') = Inr ps \<and>
       ps \<noteq> [] \<and> p_name ` set ps \<subseteq> pr_name ` set (db_policies e'))"
  using load_entries_dom [of x draw 0 entries e n e'] assms
  by (simp add: load_from_dir_def store_map_dom)

theorem load_from_dir_complete_witness:
  "''ops'' \<in> pr_name ` set (db_policies (demo_engine [demo_row 1 ''R1'']))"
proof -
  let ?f = "\<lparr>pe_stem = Some ''ops'', pe_source = Inr ''T''\<rparr>"
  have "load_from_dir demo_x (\<lambda>_ _. (2, 7000000)) (Some (Inr [Inr ?f])) (demo_engine [demo_row 1 ''R0'']) =
      (Inr 1, demo_engine [demo_row 1 ''R1''])"
    using demo_add [of "''R0''"] by (simp add: load_from_dir_def act_bind_case)
  from load_from_dir_complete [OF this] show ?thesis
    by (auto simp: demo_parse demo_policy_def)
qed

text \<open>
  C36. One accepted, enabled policy with a threshold that is not finite (\<open>risk_above = nan\<close> is legal
  TOML) makes every evaluation fail, for all policies and all requests.
\<close>

theorem nonfinite_threshold_blocks:
  assumes "upsert_policy x p e = (Inr (), e')" and "engine_inv x e"
    and "storable x p" and "p_enabled p" and "\<not> list_all rule_finite (p_rules p)"
  shows "\<exists>err. fst (evaluate x ctx e') = Inl err"
proof -
  have inv: "engine_inv x e'" using upsert_op.inv [OF assms(2), of p] assms(1) by simp
  obtain err where "policies_now x e' = Inl err"
    using upsert_poison [OF assms(1,3,4) inv assms(5)] by blast
  with inv show ?thesis by (simp add: evaluate_cases split: option.split)
qed

theorem nonfinite_threshold_blocks_witness:
  "\<exists>err. fst (evaluate demo_x (demo_ctx ''admin'' ''doc'') (demo_engine [demo_row 1 ''R2''])) = Inl err"
proof -
  have "p_enabled (demo_policy 2 nan_rules)" "\<not> list_all rule_finite (p_rules (demo_policy 2 nan_rules))"
    by (simp_all add: demo_policy_def nan_rules_def f64_is_finite_def)
  then show ?thesis
    by (rule nonfinite_threshold_blocks [OF demo_upsert(2) demo_engine_inv demo_storable(2)])
qed

section \<open>Identifiers and removal\<close>





text \<open>
  A removal that succeeds deletes the row of the identifier and no other, and no later load of
  that table returns a policy with it.
\<close>

theorem remove_policy_effect:
  assumes "remove_policy x i e = (Inr (), e')" and "engine_inv x e" and "uuid_laws x"
  shows "db_policies e' = filter (\<lambda>r. pr_id r \<noteq> uuid_show x i) (db_policies e) \<and> pe_cache e' = [] \<and>
    (\<forall>ps. policies_now x e' = Inr ps \<longrightarrow> i \<notin> p_id ` set ps)"
proof (cases rule: exec_policies_cases [of "\<lambda>t. Inr (delete_rows (\<lambda>r. pr_id r = uuid_show x i) t)" e])
  case (1 err)
  with assms(1) show ?thesis by (simp add: remove_policy_def)
next
  case (2 t)
  with assms(1) have e': "e' = e\<lparr>db_faults := tl (db_faults e), db_policies := t, pe_cache := []\<rparr>"
    by (simp add: remove_policy_def invalidate_cache_def)
  have inv: "engine_inv x e'" using remove_op.inv [OF assms(2), of i] assms(1) by simp
  have "i \<notin> p_id ` set ps" if now: "policies_now x e' = Inr ps" for ps
  proof
    assume "i \<in> p_id ` set ps"
    then obtain p where p: "p \<in> set ps" "p_id p = i" by auto
    then obtain r where r: "r \<in> set (enabled_rows e')" "row_to_policy x r = Inr p"
      using map_res_Inr_from [OF now [unfolded policies_now_def] p(1)] by blast
    then have "r \<in> set (db_policies e')" using inv by (simp add: enabled_rows_set engine_inv_def)
    then obtain u where "pr_id r = uuid_show x u" "pr_id r \<noteq> uuid_show x i"
      using inv 2(1) e' by (auto simp: engine_inv_def ids_shown_def delete_rows_def)
    with r(2) p(2) assms(3) show False by (auto simp: row_to_policy_def res_bind_Inr_iff)
  qed
  with 2(1) e' show ?thesis by (simp add: delete_rows_def)
qed

theorem remove_policy_effect_witness:
  "db_policies (demo_engine []) =
     filter (\<lambda>r. pr_id r \<noteq> ''u'') (db_policies (demo_engine [demo_row 1 ''R1'']))"
proof -
  have "remove_policy demo_x 1 (demo_engine [demo_row 1 ''R1'']) = (Inr (), demo_engine [])"
    by (simp add: remove_policy_def demo_engine_def empty_db_def exec_policies_healthy act_bind_case
        delete_rows_def demo_row_def engine_new_def db.defs
        engine.defs invalidate_cache_def)
  from remove_policy_effect [OF this demo_engine_inv demo_x_laws(1)] show ?thesis
    by simp
qed

end
