(* ===== verification/Policy_Race.thy ===== *)
theory Policy_Race
  imports Policy_Claims
begin

text \<open>
  The policy cache under concurrency. The operations of \<open>PolicyEngine\<close> hold no lock across their
  awaits, so other tasks run between them: \<open>cached_policies\<close> is a check of the cache, a load, and a
  store into the cache; \<open>upsert_policy\<close> and \<open>remove_policy\<close> are a statement and an invalidation.
  The state is the engine and the multiset of the tasks between two awaits; one step is one such
  piece of one task.
\<close>

section \<open>Steps\<close>

datatype task =
    Checked
  | Loaded "policy list"
  | Executed

inductive race_step ::
    "extern \<Rightarrow> engine \<times> task multiset \<Rightarrow> engine \<times> task multiset \<Rightarrow> bool"
  for x where
  check: "pe_cache e = [] \<Longrightarrow> race_step x (e, T) (e, add_mset Checked T)"
| load: "policies_now x e = Inr ps \<Longrightarrow>
    race_step x (e, add_mset Checked T) (e, add_mset (Loaded ps) T)"
| load_fails: "race_step x (e, add_mset Checked T) (e, T)"
| store: "race_step x (e, add_mset (Loaded ps) T) (e\<lparr>pe_cache := ps\<rparr>, T)"
| upsert: "json_to_string x (enc_rules x (p_rules p)) = Inr s \<Longrightarrow>
    upsert_row (policy_to_row x p s) (db_policies e) = Inr t \<Longrightarrow>
    race_step x (e, T) (e\<lparr>db_policies := t\<rparr>, add_mset Executed T)"
| remove: "race_step x (e, T)
      (e\<lparr>db_policies := delete_rows (\<lambda>r. pr_id r = uuid_show x i) (db_policies e)\<rparr>, add_mset Executed T)"
| clear: "race_step x (e, add_mset Executed T) (invalidate_cache e, T)"

abbreviation race_reach ::
    "extern \<Rightarrow> engine \<times> task multiset \<Rightarrow> engine \<times> task multiset \<Rightarrow> bool" where
  "race_reach x \<equiv> (race_step x)\<^sup>*\<^sup>*"

inductive_cases race_stepE: "race_step x (e, T) s"

section \<open>Invariants\<close>

text \<open>What a run has loaded, it loaded from a table of that run.\<close>

definition seen :: "extern \<Rightarrow> engine \<times> task multiset \<Rightarrow> engine \<times> task multiset \<Rightarrow> policy list \<Rightarrow> bool" where
  "seen x s0 s ps \<longleftrightarrow>
     (\<exists>e' T'. race_reach x s0 (e', T') \<and> race_reach x (e', T') s \<and> policies_now x e' = Inr ps)"

lemma seen_step: "seen x s0 s ps \<Longrightarrow> race_step x s s' \<Longrightarrow> seen x s0 s' ps"
  unfolding seen_def by (meson rtranclp.rtrancl_into_rtrancl)

lemma seen_now:
  "race_reach x s0 (e, T) \<Longrightarrow> policies_now x e = Inr ps \<Longrightarrow> seen x s0 (e, T) ps"
  unfolding seen_def by blast

definition history_inv :: "extern \<Rightarrow> engine \<times> task multiset \<Rightarrow> engine \<times> task multiset \<Rightarrow> bool" where
  "history_inv x s0 s \<longleftrightarrow>
     (pe_cache (fst s) = [] \<or> seen x s0 s (pe_cache (fst s))) \<and>
     (\<forall>ps. Loaded ps \<in># snd s \<longrightarrow> seen x s0 s ps)"

lemma history_inv_step:
  assumes "race_reach x s0 s" "race_step x s s'" "history_inv x s0 s"
  shows "history_inv x s0 s'"
proof -
  have keep: "seen x s0 s' ps" if "seen x s0 s ps" for ps
    using that assms(2) by (rule seen_step)
  from assms(2) show ?thesis
  proof cases
    case (load e ps T)
    then have "seen x s0 s ps" using assms(1) seen_now by blast
    then have "seen x s0 s' ps" by (rule keep)
    then show ?thesis using assms(3) keep load by (auto simp: history_inv_def)
  qed (use assms(3) keep in \<open>auto simp: history_inv_def invalidate_cache_def\<close>)
qed

lemma history_inv_reach:
  assumes "race_reach x (e0, {#}) s" "pe_cache e0 = []"
  shows "history_inv x (e0, {#}) s"
  using assms(1)
proof (induction rule: rtranclp_induct)
  case base
  show ?case using assms(2) by (simp add: history_inv_def)
next
  case (step s s')
  then show ?case using history_inv_step by blast
qed

text \<open>
  A run with its trace, the pairs of states before and after each step. In it a load was overtaken when
  a step changed what a load returns while the policies, just what the table held, were on their way
  from the table to the cache.
\<close>

type_synonym race_trace = "((engine \<times> task multiset) \<times> engine \<times> task multiset) list"

inductive race_run ::
    "extern \<Rightarrow> engine \<times> task multiset \<Rightarrow> race_trace \<Rightarrow> engine \<times> task multiset \<Rightarrow> bool"
  for x s0 where
  start: "race_run x s0 [] s0"
| more: "race_run x s0 tr s \<Longrightarrow> race_step x s s' \<Longrightarrow> race_run x s0 (tr @ [(s, s')]) s'"

lemma reach_race_run:
  assumes "race_reach x s0 s"
  obtains tr where "race_run x s0 tr s"
proof -
  from assms have "\<exists>tr. race_run x s0 tr s"
    by (induction rule: rtranclp_induct) (auto intro: race_run.intros)
  then show ?thesis using that by blast
qed

definition overtaken :: "extern \<Rightarrow> race_trace \<Rightarrow> policy list \<Rightarrow> bool" where
  "overtaken x tr ps \<longleftrightarrow>
     (\<exists>e1 T1 e2 T2. ((e1, T1), (e2, T2)) \<in> set tr \<and> Loaded ps \<in># T1 \<and>
        policies_now x e1 = Inr ps \<and> policies_now x e2 \<noteq> Inr ps)"

definition overtaken_inv :: "extern \<Rightarrow> race_trace \<Rightarrow> engine \<times> task multiset \<Rightarrow> bool" where
  "overtaken_inv x tr s \<longleftrightarrow>
     (\<forall>ps. Loaded ps \<in># snd s \<longrightarrow> policies_now x (fst s) = Inr ps \<or> overtaken x tr ps) \<and>
     (cache_coherent x (fst s) \<or> Executed \<in># snd s \<or> overtaken x tr (pe_cache (fst s)))"

lemma overtaken_inv_step:
  assumes "race_step x s s'" "overtaken_inv x tr s"
  shows "overtaken_inv x (tr @ [(s, s')]) s'"
proof -
  have keep: "overtaken x (tr @ [(s, s')]) ps" if "overtaken x tr ps" for ps
    using that unfolding overtaken_def set_append by blast
  have loaded: "policies_now x (fst s') = Inr ps \<or> overtaken x (tr @ [(s, s')]) ps" if "Loaded ps \<in># snd s" for ps
  proof (cases "policies_now x (fst s) = Inr ps \<and> policies_now x (fst s') \<noteq> Inr ps")
    case True
    with that show ?thesis unfolding overtaken_def by (cases s; cases s') auto
  next
    case False
    with that assms(2) keep show ?thesis by (auto simp: overtaken_inv_def)
  qed
  from assms(1) show ?thesis
    using loaded keep assms(2)
    by cases (auto simp: overtaken_inv_def cache_coherent_def invalidate_cache_def)
qed

lemma overtaken_inv_run:
  "race_run x (e0, {#}) tr s \<Longrightarrow> cache_coherent x e0 \<Longrightarrow> overtaken_inv x tr s"
  by (induction rule: race_run.induct) (auto simp: overtaken_inv_step, simp add: overtaken_inv_def)

section \<open>Properties\<close>

text \<open>
  Whatever the interleaving, the cache is empty or holds what a load returned at some earlier
  moment of the run: never a mixture of two states, never rows that were not in the table.
\<close>

theorem cache_is_some_past_load:
  assumes "race_reach x (engine_new d, {#}) (e, T)" and "pe_cache e \<noteq> []"
  shows "\<exists>e' T'. race_reach x (engine_new d, {#}) (e', T') \<and>
    race_reach x (e', T') (e, T) \<and> policies_now x e' = Inr (pe_cache e)"
  using history_inv_reach [OF assms(1)] assms(2) by (simp add: history_inv_def seen_def)

text \<open>
  C21. In every run the cache is empty, or holds what a load would return now, or is about to be cleared by a
  writer that has executed its statement; the one exception is a load that was overtaken: it was in
  a reader's hands, still what the table held, when a step of the run changed the table.
\<close>

theorem stale_cache_was_overtaken:
  assumes "race_run x (engine_new d, {#}) tr (e, T)"
    and "\<not> cache_coherent x e" and "Executed \<notin># T"
  shows "\<exists>e1 T1 e2 T2. ((e1, T1), (e2, T2)) \<in> set tr \<and> Loaded (pe_cache e) \<in># T1 \<and>
    policies_now x e1 = Inr (pe_cache e) \<and> policies_now x e2 \<noteq> Inr (pe_cache e)"
proof -
  have "cache_coherent x (engine_new d)" by (simp add: cache_coherent_def)
  with overtaken_inv_run [OF assms(1)] assms(2,3) show ?thesis
    by (simp add: overtaken_inv_def overtaken_def)
qed

section \<open>A stale cache\<close>

text \<open>
  The interleaving: a reader loads; the policy it loaded is removed and the cache cleared; the
  reader stores. Nothing is in progress any more and the cache holds the removed policy.
\<close>

lemma demo_engine_tables [simp]:
  "db_policies (demo_engine t) = t" "pe_cache (demo_engine t) = []"
  by (simp_all add: demo_engine_def)

lemma demo_engine_set [simp]: "demo_engine t\<lparr>db_policies := t'\<rparr> = demo_engine t'"
  by (simp add: demo_engine_def engine_new_def db.defs engine.defs empty_db_def)

lemma demo_engine_clear [simp]: "invalidate_cache (demo_engine t) = demo_engine t"
  by (simp add: invalidate_cache_def demo_engine_def engine_new_def db.defs engine.defs)

lemma stale_run:
  assumes "policies_now x (demo_engine [demo_row 1 s]) = Inr ps" "uuid_show x 1 = ''u''"
  shows "race_reach x (demo_engine [demo_row 1 s], {#}) (demo_engine []\<lparr>pe_cache := ps\<rparr>, {#})"
proof -
  let ?e = "demo_engine [demo_row 1 s]"
  have "race_step x (?e, {#}) (?e, {#Checked#})"
    by (rule check) simp
  moreover have "race_step x (?e, {#Checked#}) (?e, {#Loaded ps#})"
    using assms(1) by (rule load)
  moreover have "race_step x (?e, {#Loaded ps#}) (demo_engine [], {#Executed, Loaded ps#})"
    using remove [of x ?e "{#Loaded ps#}" 1] assms(2) by (simp add: delete_rows_def demo_row_def)
  moreover have "race_step x (demo_engine [], {#Executed, Loaded ps#}) (demo_engine [], {#Loaded ps#})"
    using clear [of x "demo_engine []" "{#Loaded ps#}"] by simp
  moreover have "race_step x (demo_engine [], {#Loaded ps#}) (demo_engine []\<lparr>pe_cache := ps\<rparr>, {#})"
    by (rule store)
  ultimately show ?thesis by (meson converse_rtranclp_into_rtranclp rtranclp.rtrancl_refl)
qed

text \<open>
  C22. So a stale cache is reachable: a state with no operation in progress in
  which the table has no policy at all, and an evaluation still answers \<open>Allow\<close> from the cache.
\<close>

theorem stale_cache_reachable:
  "\<exists>d e. race_reach demo_x (engine_new d, {#}) (e, {#}) \<and> db_policies e = [] \<and>
     fst (evaluate demo_x (demo_ctx ''admin'' ''doc'') e) = Inr Allow"
proof -
  let ?e = "demo_engine []\<lparr>pe_cache := [demo_policy 1 demo_rules]\<rparr>"
  have "race_reach demo_x (demo_engine [demo_row 1 ''R1''], {#}) (?e, {#})"
    by (rule stale_run) (use demo_policies_now [of 1] in simp_all)
  moreover have "fst (evaluate demo_x (demo_ctx ''admin'' ''doc'') ?e) = Inr Allow"
    by (simp add: evaluate_def cached_policies_def act_bind_case demo_policy_def demo_rules_def demo_ctx_def)
  ultimately show ?thesis
    unfolding demo_engine_def [of "[demo_row 1 ''R1'']"]
    by (intro exI conjI) (assumption | simp)+
qed

theorem cache_is_some_past_load_witness:
  "\<exists>e' T'. race_reach demo_x (demo_engine [demo_row 1 ''R1''], {#}) (e', T') \<and>
     policies_now demo_x e' = Inr [demo_policy 1 demo_rules]"
proof -
  have "race_reach demo_x (demo_engine [demo_row 1 ''R1''], {#})
      (demo_engine []\<lparr>pe_cache := [demo_policy 1 demo_rules]\<rparr>, {#})"
    by (rule stale_run) (use demo_policies_now [of 1] in simp_all)
  from cache_is_some_past_load [OF this [unfolded demo_engine_def [of "[demo_row 1 ''R1'']"]]]
  show ?thesis by (auto simp: demo_engine_def)
qed

theorem stale_cache_was_overtaken_witness:
  "\<exists>tr e1 T1 e2 T2. race_run demo_x (demo_engine [demo_row 1 ''R1''], {#}) tr
       (demo_engine []\<lparr>pe_cache := [demo_policy 1 demo_rules]\<rparr>, {#}) \<and>
     ((e1, T1), (e2, T2)) \<in> set tr \<and> Loaded [demo_policy 1 demo_rules] \<in># T1 \<and>
     policies_now demo_x e2 \<noteq> Inr [demo_policy 1 demo_rules]"
proof -
  let ?e = "demo_engine []\<lparr>pe_cache := [demo_policy 1 demo_rules]\<rparr>"
  have "race_reach demo_x (demo_engine [demo_row 1 ''R1''], {#}) (?e, {#})"
    by (rule stale_run) (use demo_policies_now [of 1] in simp_all)
  then obtain tr where run: "race_run demo_x (demo_engine [demo_row 1 ''R1''], {#}) tr (?e, {#})"
    by (rule reach_race_run)
  have "\<not> cache_coherent demo_x ?e"
    by (simp add: cache_coherent_def policies_now_def enabled_rows_def select_rows_def demo_engine_def
        empty_db_def)
  from stale_cache_was_overtaken [OF run [unfolded demo_engine_def [of "[demo_row 1 ''R1'']"]] this]
  obtain e1 T1 e2 T2 where "((e1, T1), (e2, T2)) \<in> set tr" "Loaded [demo_policy 1 demo_rules] \<in># T1"
    "policies_now demo_x e2 \<noteq> Inr [demo_policy 1 demo_rules]" by auto
  with run show ?thesis by blast
qed

end
