(* ===== verification/Keys.thy ===== *)
theory Keys
  imports Database
begin

text \<open>
  \<open>ApiKeyManager\<close> of \<open>src/keys.rs\<close>: creating, validating, revoking and listing API keys. The random
  bytes, the identifier and the clock are arguments. A successful validation spawns a task that
  records the time of use; it is returned as a job, which \<open>run_key_job\<close> performs at any later time
  (its result is dropped by the code).
\<close>

section \<open>State and operations\<close>

record api_key_record =
  ak_id :: uuid
  ak_key_hash :: string
  ak_workspace_id :: uuid
  ak_label :: "string option"
  ak_created_at :: datetime
  ak_revoked :: bool
  ak_last_used_at :: "datetime option"

datatype key_job = Touch_key uuid

definition exec_keys ::
    "(key_row list \<Rightarrow> sqlx_error + key_row list) \<Rightarrow> ('a db_scheme, unit) action" where
  "exec_keys f =
     sql (\<lambda>d. case f (db_keys d) of Inl e \<Rightarrow> Inl e | Inr t \<Rightarrow> Inr ((), d\<lparr>db_keys := t\<rparr>))"

definition row_to_api_key_record :: "extern \<Rightarrow> key_row \<Rightarrow> api_key_record guard_result" where
  "row_to_api_key_record x r =
     res_bind (parse_uuid x (kr_id r)) (\<lambda>i.
     res_bind (parse_uuid x (kr_workspace_id r)) (\<lambda>w.
     res_bind (from_ms x (kr_created_at r)) (\<lambda>created.
     res_bind (opt_res (from_ms x) (kr_last_used_at r)) (\<lambda>used.
     Inr \<lparr>ak_id = i, ak_key_hash = kr_key_hash r, ak_workspace_id = w, ak_label = kr_label r,
          ak_created_at = created, ak_revoked = (kr_revoked r \<noteq> 0), ak_last_used_at = used\<rparr>))))"

definition key_digest :: "extern \<Rightarrow> string \<Rightarrow> string" where
  "key_digest x raw_key = hash_hex x (blake3_hash x raw_key)"

definition create_key ::
    "extern \<Rightarrow> 8 word list \<Rightarrow> uuid \<Rightarrow> datetime \<Rightarrow> uuid \<Rightarrow> string \<Rightarrow>
       ('a db_scheme, string \<times> api_key_record) action" where
  "create_key x bytes new_id now workspace_id label =
     (let raw_key = base64_url x bytes;
          key_hash = key_digest x raw_key;
          stored_label = (if label = [] then None else Some label)
      in act_bind (exec_keys (insert_row key_uniques
             \<lparr>kr_id = uuid_show x new_id, kr_key_hash = key_hash,
              kr_workspace_id = uuid_show x workspace_id, kr_label = stored_label,
              kr_created_at = ts_millis x now, kr_revoked = 0, kr_last_used_at = None\<rparr>)) (\<lambda>_.
         act_return
           (raw_key,
            \<lparr>ak_id = new_id, ak_key_hash = key_hash, ak_workspace_id = workspace_id,
             ak_label = stored_label, ak_created_at = now, ak_revoked = False,
             ak_last_used_at = None\<rparr>)))"

definition check_key_row :: "extern \<Rightarrow> 256 word \<Rightarrow> key_row \<Rightarrow> api_key_record guard_result" where
  "check_key_row x candidate_hash r =
     (if kr_revoked r \<noteq> 0 then Inl InvalidToken
      else case hash_from_hex x (kr_key_hash r) of
        Inl m \<Rightarrow> Inl (ConfigError (''invalid stored key hash: '' @ m))
      | Inr stored_hash \<Rightarrow>
          (if stored_hash \<noteq> candidate_hash then Inl InvalidToken else row_to_api_key_record x r))"

definition validate_key ::
    "extern \<Rightarrow> string \<Rightarrow> ('a db_scheme, api_key_record \<times> key_job) action" where
  "validate_key x raw_key =
     act_bind (query (\<lambda>d. List.find (\<lambda>r. kr_key_hash r = key_digest x raw_key) (db_keys d))) (\<lambda>row.
     act_bind (act_lift (ok_or InvalidToken row)) (\<lambda>r.
     act_bind (act_lift (check_key_row x (blake3_hash x raw_key) r)) (\<lambda>record.
     act_return (record, Touch_key (ak_id record)))))"

fun run_key_job :: "extern \<Rightarrow> datetime \<Rightarrow> key_job \<Rightarrow> 'a db_scheme \<Rightarrow> 'a db_scheme" where
  "run_key_job x now (Touch_key i) d =
     snd (exec_keys (\<lambda>t. Inr (update_rows (\<lambda>r. kr_id r = uuid_show x i)
       (\<lambda>r. r\<lparr>kr_last_used_at := Some (ts_millis x now)\<rparr>) t)) d)"

definition revoke_key :: "extern \<Rightarrow> uuid \<Rightarrow> ('a db_scheme, unit) action" where
  "revoke_key x i =
     exec_keys (\<lambda>t. Inr (update_rows (\<lambda>r. kr_id r = uuid_show x i) (\<lambda>r. r\<lparr>kr_revoked := 1\<rparr>) t))"

definition list_keys :: "extern \<Rightarrow> uuid \<Rightarrow> ('a db_scheme, api_key_record list) action" where
  "list_keys x workspace_id =
     act_bind (query (\<lambda>d. select_rows (scan_keys d)
         (\<lambda>r. kr_workspace_id r = uuid_show x workspace_id) (\<lambda>r. Desc (kr_created_at r)) (db_keys d)))
       (\<lambda>rows. act_lift (map_res (row_to_api_key_record x) rows))"

section \<open>What each operation does to the table\<close>

lemma exec_keys_cases:
  obtains err where "exec_keys f d = (Inl err, d\<lparr>db_faults := tl (db_faults d)\<rparr>)"
  | t where "f (db_keys d) = Inr t" "next_fault d = None"
      "exec_keys f d = (Inr (), d\<lparr>db_faults := tl (db_faults d), db_keys := t\<rparr>)"
  by (cases "next_fault d"; cases "f (db_keys d)")
     (simp_all add: exec_keys_def sql_fault sql_step)

lemma validate_key_step:
  "validate_key x raw_key d =
     (case next_fault d of
        Some m \<Rightarrow> Inl (DatabaseError (Io_failure m))
      | None \<Rightarrow>
          (case List.find (\<lambda>r. kr_key_hash r = key_digest x raw_key) (db_keys d) of
             None \<Rightarrow> Inl InvalidToken
           | Some r \<Rightarrow>
               (case check_key_row x (blake3_hash x raw_key) r of
                  Inl e \<Rightarrow> Inl e
                | Inr record \<Rightarrow> Inr (record, Touch_key (ak_id record)))),
      d\<lparr>db_faults := tl (db_faults d)\<rparr>)"
  by (auto simp: validate_key_def act_bind_case query_step split: option.split sum.split)

datatype key_call =
    Key_create "8 word list" uuid datetime uuid string
  | Key_validate string
  | Key_job datetime key_job
  | Key_revoke uuid
  | Key_list uuid

fun key_call_step :: "extern \<Rightarrow> key_call \<Rightarrow> 'a db_scheme \<Rightarrow> 'a db_scheme" where
  "key_call_step x (Key_create bytes i now w label) d = snd (create_key x bytes i now w label d)"
| "key_call_step x (Key_validate raw_key) d = snd (validate_key x raw_key d)"
| "key_call_step x (Key_job now job) d = run_key_job x now job d"
| "key_call_step x (Key_revoke i) d = snd (revoke_key x i d)"
| "key_call_step x (Key_list w) d = snd (list_keys x w d)"

lemma exec_keys_grows:
  assumes "\<And>t'. f (db_keys d) = Inr t' \<Longrightarrow> table_grows key P (db_keys d) t'"
  shows "table_grows key P (db_keys d) (db_keys (snd (exec_keys f d)))"
  by (cases rule: exec_keys_cases [of f d]) (auto simp: assms table_grows_refl)

lemma act_bind_return_state [simp]:
  "snd (act_bind m (\<lambda>v. act_return (f v)) s) = snd (m s)"
  by (simp add: act_bind_case split: prod.split sum.split)

lemma list_keys_state [simp]: "snd (list_keys x w d) = d\<lparr>db_faults := tl (db_faults d)\<rparr>"
  by (auto simp: list_keys_def act_bind_case query_step split: option.split)

lemma key_calls_grow:
  "table_grows kr_key_hash (\<lambda>r. kr_revoked r \<noteq> 0) (db_keys d) (db_keys (key_call_step x c d))"
proof (cases c)
  case (Key_create bytes i now w label)
  then show ?thesis
    by (auto simp: create_key_def Let_def intro!: exec_keys_grows dest: table_grows_insert)
next
  case (Key_job now job)
  then show ?thesis
    by (cases job) (auto intro!: exec_keys_grows table_grows_update)
next
  case (Key_revoke i)
  then show ?thesis
    by (auto simp: revoke_key_def intro!: exec_keys_grows table_grows_update)
qed (simp_all add: validate_key_step table_grows_refl)

interpretation key_revocable: revocable
  "\<lambda>d k. List.find (\<lambda>r. kr_key_hash r = k) (db_keys d)" "\<lambda>r. kr_revoked r \<noteq> 0" "key_call_step x" for x
  by unfold_locales (rule table_grows_lookup [OF key_calls_grow])

lemma create_key_Inr:
  assumes "create_key x bytes i now w label d = (Inr (raw_key, rec), d')"
  obtains r where "insert_row key_uniques r (db_keys d) = Inr (db_keys d')" "raw_key = base64_url x bytes"
    "r = \<lparr>kr_id = uuid_show x i, kr_key_hash = key_digest x raw_key, kr_workspace_id = uuid_show x w,
          kr_label = (if label = [] then None else Some label), kr_created_at = ts_millis x now,
          kr_revoked = 0, kr_last_used_at = None\<rparr>"
    "rec = \<lparr>ak_id = i, ak_key_hash = key_digest x raw_key, ak_workspace_id = w,
          ak_label = (if label = [] then None else Some label), ak_created_at = now,
          ak_revoked = False, ak_last_used_at = None\<rparr>"
proof -
  let ?r = "\<lparr>kr_id = uuid_show x i, kr_key_hash = key_digest x (base64_url x bytes),
    kr_workspace_id = uuid_show x w, kr_label = (if label = [] then None else Some label),
    kr_created_at = ts_millis x now, kr_revoked = 0, kr_last_used_at = None\<rparr>"
  from assms have ex: "exec_keys (insert_row key_uniques ?r) d = (Inr (), d')"
    and out: "raw_key = base64_url x bytes"
      "rec = \<lparr>ak_id = i, ak_key_hash = key_digest x raw_key, ak_workspace_id = w,
          ak_label = (if label = [] then None else Some label), ak_created_at = now,
          ak_revoked = False, ak_last_used_at = None\<rparr>"
    by (cases "label = []"; auto simp: create_key_def Let_def act_bind_Inr)+
  show ?thesis
  proof (cases rule: exec_keys_cases [of "insert_row key_uniques ?r" d])
    case (1 err)
    with ex show ?thesis by simp
  next
    case (2 t)
    with ex have "insert_row key_uniques ?r (db_keys d) = Inr (db_keys d')" by auto
    with out show ?thesis by (intro that) simp_all
  qed
qed

lemma revoke_key_Inr:
  assumes "revoke_key x i d = (Inr (), d')"
  shows "db_keys d' = update_rows (\<lambda>r. kr_id r = uuid_show x i) (\<lambda>r. r\<lparr>kr_revoked := 1\<rparr>) (db_keys d)"
  by (cases rule: exec_keys_cases [of "\<lambda>t. Inr (update_rows (\<lambda>r. kr_id r = uuid_show x i)
        (\<lambda>r. r\<lparr>kr_revoked := 1\<rparr>) t)" d]) (use assms in \<open>auto simp: revoke_key_def\<close>)

lemma fresh_key_row_decodes:
  assumes "uuid_laws x" "chrono_laws x" "hash_laws x" "dt_ok x now"
  shows "check_key_row x (blake3_hash x raw_key)
    \<lparr>kr_id = uuid_show x i, kr_key_hash = key_digest x raw_key, kr_workspace_id = uuid_show x w,
     kr_label = l, kr_created_at = ts_millis x now, kr_revoked = 0, kr_last_used_at = None\<rparr> =
    Inr \<lparr>ak_id = i, ak_key_hash = key_digest x raw_key, ak_workspace_id = w, ak_label = l,
         ak_created_at = trunc_ms now, ak_revoked = False, ak_last_used_at = None\<rparr>"
  using assms by (simp add: check_key_row_def key_digest_def row_to_api_key_record_def from_ms_stored)

section \<open>Properties\<close>

text \<open>
  C16. The key that \<open>create_key\<close> returns validates against the table it leaves, and gives the record
  that was returned with its creation time cut to milliseconds; the use will be noted for that key.
\<close>

theorem create_then_validate_key:
  assumes "create_key x bytes i now w label d = (Inr (raw_key, rec), d')"
    and "uuid_laws x" and "chrono_laws x" and "hash_laws x" and "dt_ok x now"
    and "next_fault d' = None"
  shows "fst (validate_key x raw_key d') =
    Inr (rec\<lparr>ak_created_at := trunc_ms (ak_created_at rec)\<rparr>, Touch_key i)"
proof -
  from assms(1) obtain r where r: "insert_row key_uniques r (db_keys d) = Inr (db_keys d')"
    "r = \<lparr>kr_id = uuid_show x i, kr_key_hash = key_digest x raw_key, kr_workspace_id = uuid_show x w,
          kr_label = (if label = [] then None else Some label), kr_created_at = ts_millis x now,
          kr_revoked = 0, kr_last_used_at = None\<rparr>"
    "rec = \<lparr>ak_id = i, ak_key_hash = key_digest x raw_key, ak_workspace_id = w,
          ak_label = (if label = [] then None else Some label), ak_created_at = now,
          ak_revoked = False, ak_last_used_at = None\<rparr>"
    by (rule create_key_Inr)
  have "List.find (\<lambda>q. kr_key_hash q = key_digest x raw_key) (db_keys d') = Some r"
    using key_hashes.insert_find [OF r(1)] r(2) by simp
  then show ?thesis
    using assms(6) fresh_key_row_decodes [OF assms(2-5)] r by (simp add: validate_key_step)
qed

definition demo_key :: "api_key_record" where
  "demo_key = \<lparr>ak_id = 3, ak_key_hash = ''hh'', ak_workspace_id = 2, ak_label = None,
     ak_created_at = 5000001, ak_revoked = False, ak_last_used_at = None\<rparr>"

definition demo_key_row :: "key_row" where
  "demo_key_row = \<lparr>kr_id = ''uuu'', kr_key_hash = ''hh'', kr_workspace_id = ''uu'', kr_label = None,
     kr_created_at = 5, kr_revoked = 0, kr_last_used_at = None\<rparr>"

abbreviation demo_0 :: extern where
  "demo_0 \<equiv> demo_extern [] [] []"

lemma demo_create:
  "create_key demo_0 [2] 3 5000001 2 [] empty_db =
     (Inr (''bb'', demo_key), empty_db\<lparr>db_keys := [demo_key_row]\<rparr>)"
  by (simp add: create_key_def exec_keys_def sql_healthy empty_db_def insert_row_def key_uniques_def
      key_digest_def demo_extern_def unary_def act_bind_case demo_key_def demo_key_row_def Let_def)

theorem create_then_validate_key_witness:
  "fst (validate_key demo_0 ''bb'' (empty_db\<lparr>db_keys := [demo_key_row]\<rparr>)) =
     Inr (demo_key\<lparr>ak_created_at := 5000000\<rparr>, Touch_key 3)"
  using create_then_validate_key [OF demo_create]
  by (simp add: demo_key_def trunc_ms_def empty_db_def)

text \<open>
  A key is accepted only if the table has a row with its digest that is not revoked, and the
  record is that row's; nothing but the digest of the key is ever compared.
\<close>

theorem validate_key_sound:
  assumes "fst (validate_key x raw_key d) = Inr (rec, job)"
  shows "\<exists>r\<in>set (db_keys d). kr_key_hash r = key_digest x raw_key \<and> kr_revoked r = 0 \<and>
    hash_from_hex x (kr_key_hash r) = Inr (blake3_hash x raw_key) \<and>
    row_to_api_key_record x r = Inr rec \<and> job = Touch_key (ak_id rec)"
proof -
  from assms obtain r where "List.find (\<lambda>r. kr_key_hash r = key_digest x raw_key) (db_keys d) = Some r"
    "check_key_row x (blake3_hash x raw_key) r = Inr rec" "job = Touch_key (ak_id rec)"
    by (auto simp: validate_key_step split: option.splits sum.splits)
  then show ?thesis
    by (auto simp: find_Some_split check_key_row_def split: if_splits sum.splits)
qed

theorem validate_key_sound_witness:
  "\<exists>r\<in>{demo_key_row}. kr_revoked r = 0 \<and> kr_key_hash r = key_digest demo_0 ''bb''"
proof -
  have "fst (validate_key demo_0 ''bb'' (empty_db\<lparr>db_keys := [demo_key_row]\<rparr>)) =
      Inr (demo_key\<lparr>ak_created_at := 5000000\<rparr>, Touch_key 3)"
    by (simp add: validate_key_step next_fault_def empty_db_def demo_key_row_def key_digest_def
        demo_extern_def unary_def check_key_row_def row_to_api_key_record_def parse_uuid_def from_ms_def
        demo_key_def)
  from validate_key_sound [OF this] show ?thesis by (auto simp: empty_db_def)
qed

text \<open>
  C15. Revocation is final: once a key's row has been revoked, validation of that key fails with an
  invalid token (or a database failure) after any sequence of operations on keys, creations of other
  keys and pending use notes included.
\<close>

theorem revoked_key_stays_invalid:
  assumes "fst (validate_key x raw_key d) = Inr (rec, job)" and "uuid_laws x"
    and "ids_written x (map kr_id (db_keys d))"
    and "revoke_key x (ak_id rec) d = (Inr (), d')"
    and "d'' = fold (key_call_step x) calls d'"
  shows "fst (validate_key x raw_key d'') \<in>
    {Inl InvalidToken} \<union> range (\<lambda>m. Inl (DatabaseError (Io_failure m)))"
proof -
  let ?h = "key_digest x raw_key"
  from assms(1) obtain r where r: "List.find (\<lambda>r. kr_key_hash r = ?h) (db_keys d) = Some r"
    "check_key_row x (blake3_hash x raw_key) r = Inr rec"
    by (auto simp: validate_key_step split: option.splits sum.splits)
  then have "r \<in> set (db_keys d)" "kr_key_hash r = ?h" by (auto simp: find_Some_split)
  moreover have "parse_uuid x (kr_id r) = Inr (ak_id rec)"
    using r(2) by (auto simp: check_key_row_def row_to_api_key_record_def res_bind_Inr_iff
        split: if_splits sum.splits)
  ultimately have id: "kr_id r = uuid_show x (ak_id rec)"
    using assms(2,3) by (auto simp: ids_written_def)
  let ?f = "\<lambda>r. if kr_id r = uuid_show x (ak_id rec) then r\<lparr>kr_revoked := 1\<rparr> else r"
  have "db_keys d' = map ?f (db_keys d)"
    using revoke_key_Inr [OF assms(4)] by (simp add: update_rows_def)
  moreover have "List.find (\<lambda>r. kr_key_hash r = ?h) (map ?f t) =
      map_option ?f (List.find (\<lambda>r. kr_key_hash r = ?h) t)" for t
    by (induction t) auto
  note this [of "db_keys d"]
  ultimately have "List.find (\<lambda>r. kr_key_hash r = ?h) (db_keys d') = Some (?f r)"
    using r(1) by (simp only: option.map)
  then have "List.find (\<lambda>r. kr_key_hash r = ?h) (db_keys d') = Some (r\<lparr>kr_revoked := 1\<rparr>)"
    using id by simp
  from key_revocable.revoked_forever [OF this, of x calls] obtain r' where
    "List.find (\<lambda>r. kr_key_hash r = ?h) (db_keys d'') = Some r'" "kr_revoked r' \<noteq> 0"
    using assms(5) by auto
  then show ?thesis by (simp add: validate_key_step check_key_row_def split: option.split)
qed

theorem revoked_key_stays_invalid_witness:
  "fst (validate_key demo_0 ''bb'' (fold (key_call_step demo_0) [Key_list 2, Key_revoke 3]
      (empty_db\<lparr>db_keys := [demo_key_row\<lparr>kr_revoked := 1\<rparr>]\<rparr>))) \<in>
    {Inl InvalidToken} \<union> range (\<lambda>m. Inl (DatabaseError (Io_failure m)))"
proof -
  let ?d = "empty_db\<lparr>db_keys := [demo_key_row]\<rparr>"
  let ?d' = "empty_db\<lparr>db_keys := [demo_key_row\<lparr>kr_revoked := 1\<rparr>]\<rparr>"
  have v: "fst (validate_key demo_0 ''bb'' ?d) = Inr (demo_key\<lparr>ak_created_at := 5000000\<rparr>, Touch_key 3)"
    by (simp add: validate_key_step next_fault_def empty_db_def demo_key_row_def key_digest_def
        demo_extern_def unary_def check_key_row_def row_to_api_key_record_def parse_uuid_def from_ms_def
        demo_key_def)
  have w: "ids_written demo_0 (map kr_id (db_keys ?d))"
    by (auto simp: ids_written_def demo_key_row_def demo_extern_def unary_def intro!: exI [of _ 3])
  have r: "revoke_key demo_0 (ak_id (demo_key\<lparr>ak_created_at := 5000000\<rparr>)) ?d = (Inr (), ?d')"
    by (simp add: revoke_key_def exec_keys_def sql_healthy empty_db_def update_rows_def demo_key_row_def
        demo_key_def demo_extern_def unary_def)
  show ?thesis
    by (rule revoked_key_stays_invalid [OF v demo_uuid_laws w r refl])
qed

text \<open>
  Listing a workspace's keys returns exactly the keys of that workspace, newest first; no key of
  another workspace is ever in the list.
\<close>

theorem list_keys_isolated:
  assumes "fst (list_keys x w d) = Inr recs" and "db_wf d" and "uuid_laws x" and "chrono_laws x"
  shows "mset (map ak_key_hash recs) =
      image_mset kr_key_hash (filter_mset (\<lambda>r. kr_workspace_id r = uuid_show x w) (mset (db_keys d))) \<and>
    (\<forall>rec\<in>set recs. ak_workspace_id rec = w) \<and>
    sorted_wrt (\<lambda>a b. ak_created_at b \<le> ak_created_at a) recs"
proof -
  let ?rows = "select_rows (scan_keys d) (\<lambda>r. kr_workspace_id r = uuid_show x w)
    (\<lambda>r. Desc (kr_created_at r)) (db_keys d)"
  have scan: "scan_ok (scan_keys d)" using assms(2) by (simp add: db_wf_def)
  have rows: "list_all2 (\<lambda>r rec. row_to_api_key_record x r = Inr rec) ?rows recs"
    using assms(1)
    by (auto simp: list_keys_def act_bind_case query_step map_res_Inr_iff split: option.splits)
  have rec: "ak_key_hash rec = kr_key_hash r \<and> ak_created_at rec = kr_created_at r * 1000000 \<and>
      parse_uuid x (kr_workspace_id r) = Inr (ak_workspace_id rec)"
    if "row_to_api_key_record x r = Inr rec" for r rec
    using that assms(4) by (auto simp: row_to_api_key_record_def res_bind_Inr_iff dest: from_ms_Inr)
  have "map ak_key_hash recs = map kr_key_hash ?rows"
    using rows by (induction rule: list_all2_induct) (auto dest: rec)
  moreover have "mset ?rows = filter_mset (\<lambda>r. kr_workspace_id r = uuid_show x w) (mset (db_keys d))"
    by (rule mset_select_rows [OF scan])
  ultimately have "mset (map ak_key_hash recs) =
      image_mset kr_key_hash (filter_mset (\<lambda>r. kr_workspace_id r = uuid_show x w) (mset (db_keys d)))"
    by (simp only: mset_map [of kr_key_hash ?rows])
  moreover have "ak_workspace_id rec = w" if "rec \<in> set recs" for rec
  proof -
    from list_all2_mem [OF rows that] obtain r where
      "r \<in> set ?rows" "row_to_api_key_record x r = Inr rec" by blast
    then show ?thesis using scan assms(3) rec [of r rec] by simp
  qed
  moreover have "sorted (map (\<lambda>r. Desc (kr_created_at r)) ?rows)" by (rule select_rows_sorted)
  then have "sorted_wrt (\<lambda>a b. kr_created_at b \<le> kr_created_at a) ?rows"
    by (simp add: sorted_wrt_map)
  then have "sorted_wrt (\<lambda>a b. ak_created_at b \<le> ak_created_at a) recs"
    by (rule sorted_wrt_list_all2 [OF rows]) (simp add: rec)
  ultimately show ?thesis by blast
qed

theorem list_keys_isolated_witness:
  "\<exists>recs. fst (list_keys demo_0 2 (empty_db\<lparr>db_keys := [demo_key_row]\<rparr>)) = Inr recs \<and>
     (\<forall>rec\<in>set recs. ak_workspace_id rec = 2)"
proof -
  have l: "fst (list_keys demo_0 2 (empty_db\<lparr>db_keys := [demo_key_row]\<rparr>)) =
      Inr [demo_key\<lparr>ak_created_at := 5000000\<rparr>]"
    by (simp add: list_keys_def act_bind_case query_step next_fault_def empty_db_def select_rows_def
        demo_key_row_def demo_extern_def unary_def row_to_api_key_record_def parse_uuid_def from_ms_def
        demo_key_def)
  have wf: "db_wf (empty_db\<lparr>db_keys := [demo_key_row]\<rparr>)"
    by (simp add: db_wf_def empty_db_def)
  from list_keys_isolated [OF l wf demo_uuid_laws demo_chrono_laws] l show ?thesis by blast
qed

end
