(* ===== verification/Sessions.thy ===== *)
theory Sessions
  imports Database Config Policy_Codec
begin

text \<open>
  \<open>SessionManager\<close> of \<open>src/session.rs\<close>: issuing, validating, revoking and listing sessions. The
  clock and the fresh identifier are arguments. Creating a session can panic (the expiry out of
  chrono's range), and so can listing when the build checks arithmetic overflow: both return an
  \<open>outcome\<close>.
\<close>

section \<open>State and operations\<close>

record list_options =
  lo_limit :: u64
  lo_offset :: u64

definition default_list_options :: list_options where
  "default_list_options = \<lparr>lo_limit = 50, lo_offset = 0\<rparr>"

record 'a list_page =
  lp_items :: "'a list"
  lp_next_offset :: "u64 option"

record session_record =
  se_id :: uuid
  se_agent_id :: uuid
  se_workspace_id :: uuid
  se_role :: string
  se_scopes :: "string list"
  se_created_at :: datetime
  se_expires_at :: datetime
  se_revoked :: bool

definition exec_sessions ::
    "(session_row list \<Rightarrow> sqlx_error + session_row list) \<Rightarrow> ('a db_scheme, unit) action" where
  "exec_sessions f =
     sql (\<lambda>d. case f (db_sessions d) of Inl e \<Rightarrow> Inl e | Inr t \<Rightarrow> Inr ((), d\<lparr>db_sessions := t\<rparr>))"

definition enc_scopes :: "string list \<Rightarrow> json" where
  "enc_scopes scopes = JArray (map JString scopes)"

definition dec_scopes :: "json \<Rightarrow> string list option" where
  "dec_scopes v = dec_list dec_string v"

definition row_to_session_record :: "extern \<Rightarrow> session_row \<Rightarrow> session_record guard_result" where
  "row_to_session_record x r =
     res_bind (parse_uuid x (sr_id r)) (\<lambda>i.
     res_bind (parse_uuid x (sr_agent_id r)) (\<lambda>a.
     res_bind (parse_uuid x (sr_workspace_id r)) (\<lambda>w.
     res_bind (json_from_str x dec_scopes (sr_scopes r)) (\<lambda>scopes.
     res_bind (from_ms x (sr_created_at r)) (\<lambda>created.
     res_bind (from_ms x (sr_expires_at r)) (\<lambda>expires.
     Inr \<lparr>se_id = i, se_agent_id = a, se_workspace_id = w, se_role = sr_role r, se_scopes = scopes,
          se_created_at = created, se_expires_at = expires, se_revoked = (sr_revoked r \<noteq> 0)\<rparr>))))))"

definition session_claims_of ::
    "extern \<Rightarrow> uuid \<Rightarrow> uuid \<Rightarrow> uuid \<Rightarrow> string \<Rightarrow> string list \<Rightarrow> datetime \<Rightarrow> session_claims" where
  "session_claims_of x i a w role scopes expires_at =
     \<lparr>sc_sub = uuid_show x i, sc_agent_id = uuid_show x a, sc_workspace_id = uuid_show x w,
      sc_role = role, sc_scopes = scopes, sc_exp = word_of_int (ts_secs x expires_at)\<rparr>"

definition session_to_row ::
    "extern \<Rightarrow> uuid \<Rightarrow> uuid \<Rightarrow> uuid \<Rightarrow> string \<Rightarrow> string \<Rightarrow> datetime \<Rightarrow> datetime \<Rightarrow> session_row" where
  "session_to_row x i a w role scopes created_at expires_at =
     \<lparr>sr_id = uuid_show x i, sr_agent_id = uuid_show x a, sr_workspace_id = uuid_show x w,
      sr_role = role, sr_scopes = scopes, sr_created_at = ts_millis x created_at,
      sr_expires_at = ts_millis x expires_at, sr_revoked = 0\<rparr>"

text \<open>After the expiry is known: sign, serialise the scopes, insert.\<close>

definition store_session ::
    "extern \<Rightarrow> guard_config \<Rightarrow> uuid \<Rightarrow> datetime \<Rightarrow> datetime \<Rightarrow> uuid \<Rightarrow> uuid \<Rightarrow> string \<Rightarrow> string list \<Rightarrow>
       ('a db_scheme, guard_session) action" where
  "store_session x cfg i created_at expires_at agent_id workspace_id role scopes =
     act_bind (act_lift (case jwt_encode x (jwt_secret cfg)
           (session_claims_of x i agent_id workspace_id role scopes expires_at) of
         Inl m \<Rightarrow> Inl (JwtError m) | Inr t \<Rightarrow> Inr t)) (\<lambda>token.
     act_bind (act_lift (json_to_string x (enc_scopes scopes))) (\<lambda>scopes_text.
     act_bind (exec_sessions (insert_row session_uniques
         (session_to_row x i agent_id workspace_id role scopes_text created_at expires_at))) (\<lambda>_.
     act_return \<lparr>gs_id = i, gs_agent_id = agent_id, gs_workspace_id = workspace_id, gs_role = role,
       gs_scopes = scopes, gs_expires_at = expires_at, gs_token = token\<rparr>)))"

definition create_session ::
    "extern \<Rightarrow> guard_config \<Rightarrow> uuid \<Rightarrow> datetime \<Rightarrow> uuid \<Rightarrow> uuid \<Rightarrow> string \<Rightarrow> string list \<Rightarrow> u64 \<Rightarrow>
       'a db_scheme \<Rightarrow> guard_session guard_result outcome \<times> 'a db_scheme" where
  "create_session x cfg new_id now agent_id workspace_id role scopes ttl_secs d =
     (case dt_add_secs x now (as_i64 ttl_secs) of
        None \<Rightarrow> (Panicked, d)
      | Some expires_at \<Rightarrow>
          (case store_session x cfg new_id now expires_at agent_id workspace_id role scopes d of
             (r, d') \<Rightarrow> (Done r, d')))"

text \<open>What a row that was found says about the session at time \<open>now\<close>.\<close>

definition check_session_row :: "extern \<Rightarrow> datetime \<Rightarrow> session_row \<Rightarrow> session_record guard_result" where
  "check_session_row x now r =
     res_bind (row_to_session_record x r) (\<lambda>record.
     if se_revoked record then Inl SessionRevoked
     else if se_expires_at record \<le> now then Inl SessionExpired
     else Inr record)"

text \<open>\<open>jwt_now\<close> is the clock that \<open>jsonwebtoken\<close> reads, \<open>now\<close> the one read for the row.\<close>

definition validate_session ::
    "extern \<Rightarrow> guard_config \<Rightarrow> datetime \<Rightarrow> datetime \<Rightarrow> string \<Rightarrow> ('a db_scheme, guard_session) action" where
  "validate_session x cfg jwt_now now token =
     act_bind (act_lift (case jwt_decode x (jwt_secret cfg) jwt_now token of
         Inl _ \<Rightarrow> Inl InvalidToken | Inr c \<Rightarrow> Inr c)) (\<lambda>claims.
     act_bind (act_lift (parse_uuid x (sc_sub claims))) (\<lambda>session_id.
     act_bind (query (\<lambda>d. List.find (\<lambda>r. sr_id r = uuid_show x session_id) (db_sessions d))) (\<lambda>row.
     act_bind (act_lift (ok_or InvalidToken row)) (\<lambda>r.
     act_bind (act_lift (check_session_row x now r)) (\<lambda>record.
     act_return \<lparr>gs_id = se_id record, gs_agent_id = se_agent_id record,
       gs_workspace_id = se_workspace_id record, gs_role = se_role record,
       gs_scopes = se_scopes record, gs_expires_at = se_expires_at record, gs_token = token\<rparr>)))))"

definition revoke_session :: "extern \<Rightarrow> uuid \<Rightarrow> ('a db_scheme, unit) action" where
  "revoke_session x session_id =
     exec_sessions (\<lambda>t. Inr (update_rows (\<lambda>r. sr_id r = uuid_show x session_id)
       (\<lambda>r. r\<lparr>sr_revoked := 1\<rparr>) t))"

definition active_rows :: "extern \<Rightarrow> uuid \<Rightarrow> datetime \<Rightarrow> 'a db_scheme \<Rightarrow> session_row list" where
  "active_rows x agent_id now d =
     select_rows (scan_sessions d)
       (\<lambda>r. sr_agent_id r = uuid_show x agent_id \<and> sr_revoked r = 0 \<and> ts_millis x now < sr_expires_at r)
       (\<lambda>r. Desc (sr_created_at r)) (db_sessions d)"

text \<open>\<open>overflow_checks\<close> is the build profile's: \<open>offset + limit\<close> is computed in any case.\<close>

definition list_active_sessions ::
    "extern \<Rightarrow> bool \<Rightarrow> uuid \<Rightarrow> datetime \<Rightarrow> list_options option \<Rightarrow> 'a db_scheme \<Rightarrow>
       session_record list_page guard_result outcome \<times> 'a db_scheme" where
  "list_active_sessions x overflow_checks agent_id now opts d =
     (let o' = (case opts of Some v \<Rightarrow> v | None \<Rightarrow> default_list_options) in
      case act_bind (query (\<lambda>d. limit_offset (as_i64 (lo_limit o')) (as_i64 (lo_offset o'))
               (active_rows x agent_id now d)))
             (\<lambda>rows. act_lift (map_res (row_to_session_record x) rows)) d of
        (Inl e, d') \<Rightarrow> (Done (Inl e), d')
      | (Inr items, d') \<Rightarrow>
          (if overflow_checks \<and> 2 ^ 64 \<le> unat (lo_offset o') + unat (lo_limit o') then (Panicked, d')
           else (Done (Inr \<lparr>lp_items = items, lp_next_offset =
                    (if of_nat (length items) = lo_limit o'
                     then Some (lo_offset o' + lo_limit o') else None)\<rparr>), d')))"

definition session_row_active :: "extern \<Rightarrow> datetime \<Rightarrow> session_row \<Rightarrow> unit guard_result" where
  "session_row_active x now r =
     (if sr_revoked r \<noteq> 0 then Inl SessionRevoked
      else res_bind (from_ms x (sr_expires_at r)) (\<lambda>expires_at.
        if expires_at \<le> now then Inl SessionExpired else Inr ()))"

definition assert_session_active ::
    "extern \<Rightarrow> datetime \<Rightarrow> guard_session \<Rightarrow> ('a db_scheme, unit) action" where
  "assert_session_active x now session =
     act_bind (query (\<lambda>d. List.find (\<lambda>r. sr_id r = uuid_show x (gs_id session)) (db_sessions d))) (\<lambda>row.
     act_bind (act_lift (ok_or InvalidToken row)) (\<lambda>r.
     act_lift (session_row_active x now r)))"

section \<open>What each operation does\<close>

lemma exec_sessions_cases:
  obtains err where "exec_sessions f d = (Inl err, d\<lparr>db_faults := tl (db_faults d)\<rparr>)"
  | t where "f (db_sessions d) = Inr t" "next_fault d = None"
      "exec_sessions f d = (Inr (), d\<lparr>db_faults := tl (db_faults d), db_sessions := t\<rparr>)"
  by (cases "next_fault d"; cases "f (db_sessions d)")
     (simp_all add: exec_sessions_def sql_fault sql_step)

lemma exec_sessions_grows:
  assumes "\<And>t'. f (db_sessions d) = Inr t' \<Longrightarrow> table_grows key P (db_sessions d) t'"
  shows "table_grows key P (db_sessions d) (db_sessions (snd (exec_sessions f d)))"
  by (cases rule: exec_sessions_cases [of f d]) (auto simp: assms table_grows_refl)

lemma dec_enc_scopes: "dec_scopes (enc_scopes scopes) = Some scopes"
  using string_codec.dec_enc_list [of scopes] by (simp add: dec_scopes_def enc_scopes_def list.pred_True)

lemma fresh_session_row:
  assumes "uuid_laws x" "chrono_laws x" "dt_ok x created_at" "dt_ok x expires_at"
    and "json_rt x (enc_scopes scopes)" "json_to_string x (enc_scopes scopes) = Inr s"
  shows "row_to_session_record x (session_to_row x i a w role s created_at expires_at) =
    Inr \<lparr>se_id = i, se_agent_id = a, se_workspace_id = w, se_role = role, se_scopes = scopes,
         se_created_at = trunc_ms created_at, se_expires_at = trunc_ms expires_at, se_revoked = False\<rparr>"
proof -
  have "json_from_str x dec_scopes s = Inr scopes"
    using json_rt_read [OF assms(5), of dec_scopes] assms(6) by (auto simp: dec_enc_scopes)
  with assms(1-4) show ?thesis
    by (simp add: row_to_session_record_def session_to_row_def from_ms_stored)
qed

lemma store_session_Inr:
  assumes "store_session x cfg i created_at expires_at a w role scopes d = (Inr s, d')"
  obtains token scopes_text where
    "jwt_encode x (jwt_secret cfg) (session_claims_of x i a w role scopes expires_at) = Inr token"
    "json_to_string x (enc_scopes scopes) = Inr scopes_text"
    "insert_row session_uniques (session_to_row x i a w role scopes_text created_at expires_at)
       (db_sessions d) = Inr (db_sessions d')"
    "s = \<lparr>gs_id = i, gs_agent_id = a, gs_workspace_id = w, gs_role = role, gs_scopes = scopes,
          gs_expires_at = expires_at, gs_token = token\<rparr>"
proof -
  from assms obtain token scopes_text where *:
    "jwt_encode x (jwt_secret cfg) (session_claims_of x i a w role scopes expires_at) = Inr token"
    "json_to_string x (enc_scopes scopes) = Inr scopes_text"
    "exec_sessions (insert_row session_uniques
       (session_to_row x i a w role scopes_text created_at expires_at)) d = (Inr (), d')"
    "s = \<lparr>gs_id = i, gs_agent_id = a, gs_workspace_id = w, gs_role = role, gs_scopes = scopes,
          gs_expires_at = expires_at, gs_token = token\<rparr>"
    by (auto simp: store_session_def act_bind_Inr split: sum.splits)
  let ?f = "insert_row session_uniques (session_to_row x i a w role scopes_text created_at expires_at)"
  have "?f (db_sessions d) = Inr (db_sessions d')"
    by (cases rule: exec_sessions_cases [of ?f d]) (use *(3) in auto)
  with * show ?thesis by (intro that)
qed

lemma create_session_Done:
  "create_session x cfg i now a w role scopes ttl d = (Done r, d') \<longleftrightarrow>
     (\<exists>expires_at. dt_add_secs x now (as_i64 ttl) = Some expires_at \<and>
        store_session x cfg i now expires_at a w role scopes d = (r, d'))"
  by (auto simp: create_session_def split: option.split prod.split)

lemma validate_session_step:
  "fst (validate_session x cfg jwt_now now token d) =
     (case jwt_decode x (jwt_secret cfg) jwt_now token of
        Inl _ \<Rightarrow> Inl InvalidToken
      | Inr claims \<Rightarrow>
     (case parse_uuid x (sc_sub claims) of
        Inl e \<Rightarrow> Inl e
      | Inr i \<Rightarrow>
     (case next_fault d of
        Some m \<Rightarrow> Inl (DatabaseError (Io_failure m))
      | None \<Rightarrow>
     (case List.find (\<lambda>r. sr_id r = uuid_show x i) (db_sessions d) of
        None \<Rightarrow> Inl InvalidToken
      | Some r \<Rightarrow>
     (case check_session_row x now r of
        Inl e \<Rightarrow> Inl e
      | Inr record \<Rightarrow> Inr \<lparr>gs_id = se_id record, gs_agent_id = se_agent_id record,
          gs_workspace_id = se_workspace_id record, gs_role = se_role record,
          gs_scopes = se_scopes record, gs_expires_at = se_expires_at record, gs_token = token\<rparr>)))))"
  by (auto simp: validate_session_def act_bind_case query_step split: option.split sum.split)

lemma validate_session_Inr:
  assumes "fst (validate_session x cfg jwt_now now token d) = Inr s"
  obtains claims i r rec where
    "jwt_decode x (jwt_secret cfg) jwt_now token = Inr claims" "parse_uuid x (sc_sub claims) = Inr i"
    "List.find (\<lambda>r. sr_id r = uuid_show x i) (db_sessions d) = Some r" "sr_id r = uuid_show x i"
    "row_to_session_record x r = Inr rec" "\<not> se_revoked rec" "now < se_expires_at rec"
    "s = \<lparr>gs_id = se_id rec, gs_agent_id = se_agent_id rec, gs_workspace_id = se_workspace_id rec,
        gs_role = se_role rec, gs_scopes = se_scopes rec, gs_expires_at = se_expires_at rec,
        gs_token = token\<rparr>"
proof -
  from assms obtain claims i r where *:
    "jwt_decode x (jwt_secret cfg) jwt_now token = Inr claims" "parse_uuid x (sc_sub claims) = Inr i"
    "List.find (\<lambda>r. sr_id r = uuid_show x i) (db_sessions d) = Some r"
    by (auto simp: validate_session_step split: sum.splits option.splits)
  with assms obtain rec where rec: "check_session_row x now r = Inr rec"
    "s = \<lparr>gs_id = se_id rec, gs_agent_id = se_agent_id rec, gs_workspace_id = se_workspace_id rec,
        gs_role = se_role rec, gs_scopes = se_scopes rec, gs_expires_at = se_expires_at rec,
        gs_token = token\<rparr>"
    by (auto simp: validate_session_step split: sum.splits option.splits)
  have "sr_id r = uuid_show x i" using *(3) by (auto simp: find_Some_split)
  moreover have "row_to_session_record x r = Inr rec" "\<not> se_revoked rec" "now < se_expires_at rec"
    using rec(1) by (auto simp: check_session_row_def res_bind_Inr_iff split: if_splits)
  ultimately show ?thesis using * rec(2) that by blast
qed

lemma session_record_columns:
  assumes "row_to_session_record x r = Inr rec"
  shows "parse_uuid x (sr_id r) = Inr (se_id rec)" "parse_uuid x (sr_agent_id r) = Inr (se_agent_id rec)"
    "parse_uuid x (sr_workspace_id r) = Inr (se_workspace_id rec)" "se_role rec = sr_role r"
    "json_from_str x dec_scopes (sr_scopes r) = Inr (se_scopes rec)"
    "from_ms x (sr_expires_at r) = Inr (se_expires_at rec)" "se_revoked rec = (sr_revoked r \<noteq> 0)"
  using assms by (auto simp: row_to_session_record_def res_bind_Inr_iff)

lemma assert_session_active_step:
  "assert_session_active x now s d =
     (case next_fault d of
        Some m \<Rightarrow> Inl (DatabaseError (Io_failure m))
      | None \<Rightarrow>
          (case List.find (\<lambda>r. sr_id r = uuid_show x (gs_id s)) (db_sessions d) of
             None \<Rightarrow> Inl InvalidToken
           | Some r \<Rightarrow> session_row_active x now r),
      d\<lparr>db_faults := tl (db_faults d)\<rparr>)"
  by (auto simp: assert_session_active_def act_bind_case query_step split: option.split)

lemma session_reads_state [simp]:
  "db_sessions (snd (validate_session x cfg jwt_now now token d)) = db_sessions d"
  "db_sessions (snd (list_active_sessions x oc a now opts d)) = db_sessions d"
  by (auto simp: validate_session_def list_active_sessions_def Let_def act_bind_case query_step
      split: option.split sum.split)

text \<open>All the operations, as calls.\<close>

datatype session_call =
    Session_create uuid datetime uuid uuid string "string list" u64
  | Session_validate datetime datetime string
  | Session_revoke uuid
  | Session_list bool uuid datetime "list_options option"
  | Session_assert datetime guard_session

fun session_call_step :: "extern \<Rightarrow> guard_config \<Rightarrow> session_call \<Rightarrow> 'a db_scheme \<Rightarrow> 'a db_scheme" where
  "session_call_step x cfg (Session_create i now a w role scopes ttl) d =
     snd (create_session x cfg i now a w role scopes ttl d)"
| "session_call_step x cfg (Session_validate jwt_now now token) d = snd (validate_session x cfg jwt_now now token d)"
| "session_call_step x cfg (Session_revoke i) d = snd (revoke_session x i d)"
| "session_call_step x cfg (Session_list oc a now opts) d = snd (list_active_sessions x oc a now opts d)"
| "session_call_step x cfg (Session_assert now s) d = snd (assert_session_active x now s d)"

lemma create_session_grows:
  "table_grows sr_id P (db_sessions d)
     (db_sessions (snd (create_session x cfg i now a w role scopes ttl d)))"
proof (cases "dt_add_secs x now (as_i64 ttl)")
  case None
  then show ?thesis by (simp add: create_session_def table_grows_refl)
next
  case (Some expires_at)
  have "table_grows sr_id P (db_sessions d)
      (db_sessions (snd (store_session x cfg i now expires_at a w role scopes d)))"
    unfolding store_session_def
    by (intro act_bind_inv [of "\<lambda>d'. table_grows sr_id P (db_sessions d) (db_sessions d')"])
       (auto simp: table_grows_refl intro!: exec_sessions_grows dest: table_grows_insert)
  with Some show ?thesis by (auto simp: create_session_def split: prod.split)
qed

lemma session_calls_grow:
  "table_grows sr_id (\<lambda>r. sr_revoked r \<noteq> 0) (db_sessions d) (db_sessions (session_call_step x cfg c d))"
proof (cases c)
  case (Session_revoke i)
  then show ?thesis
    by (auto simp: revoke_session_def intro!: exec_sessions_grows table_grows_update)
qed (simp_all add: create_session_grows table_grows_refl assert_session_active_step)

interpretation session_revocable: revocable
  "\<lambda>d k. List.find (\<lambda>r. sr_id r = k) (db_sessions d)" "\<lambda>r. sr_revoked r \<noteq> 0" "session_call_step x cfg"
  for x cfg
  by unfold_locales (rule table_grows_lookup [OF session_calls_grow])

lemma revoke_session_Inr:
  assumes "revoke_session x i d = (Inr (), d')"
  shows "db_sessions d' =
    update_rows (\<lambda>r. sr_id r = uuid_show x i) (\<lambda>r. r\<lparr>sr_revoked := 1\<rparr>) (db_sessions d)"
  by (cases rule: exec_sessions_cases [of "\<lambda>t. Inr (update_rows (\<lambda>r. sr_id r = uuid_show x i)
        (\<lambda>r. r\<lparr>sr_revoked := 1\<rparr>) t)" d]) (use assms in \<open>auto simp: revoke_session_def\<close>)

text \<open>The listing and the check compare the same instants, in different units.\<close>

lemma active_iff_check:
  assumes "chrono_laws x" "from_ms x (sr_expires_at r) = Inr t"
  shows "session_row_active x now r = Inr () \<longleftrightarrow> sr_revoked r = 0 \<and> ts_millis x now < sr_expires_at r"
  using assms from_ms_Inr [OF assms] millis_le_iff [of "sr_expires_at r" now]
  by (auto simp: session_row_active_def ts_millis_div)

end
