(* ===== verification/Session_Claims.thy ===== *)
theory Session_Claims
  imports Sessions
begin

text \<open>
  The properties of the session manager, each with an instance: what a validated session rests on,
  that creation and validation agree, that revocation is final, that listing agrees with the check
  and that pages add up to the list.
\<close>

text \<open>A token that was signed with a secret and has not reached its expiry decodes with it.\<close>

definition jwt_laws :: "extern \<Rightarrow> string \<Rightarrow> bool" where
  "jwt_laws x secret \<longleftrightarrow>
     (\<forall>claims token now. jwt_encode x secret claims = Inr token \<longrightarrow> ts_secs x now \<le> uint (sc_exp claims) \<longrightarrow>
        jwt_decode x secret now token = Inr claims)"

section \<open>An instance\<close>

definition demo_cfg :: guard_config where
  "demo_cfg = \<lparr>db_path = ''guard.db'', jwt_secret = ''secret'', policy_dir = None,
     sensitive_resources = [], audit_flush_interval_ms = 100, audit_batch_size = 2,
     business_hours_start_hour = 8, business_hours_end_hour = 18\<rparr>"

definition demo_claims :: "u64 \<Rightarrow> session_claims" where
  "demo_claims e = \<lparr>sc_sub = ''u'', sc_agent_id = ''uu'', sc_workspace_id = ''uuu'', sc_role = ''dev'',
     sc_scopes = [], sc_exp = e\<rparr>"

definition demo_s :: extern where
  "demo_s = demo_extern [(JArray [], ''[]'')] [] [(''tok'', demo_claims 65), (''old'', demo_claims (- 4))]"

definition demo_session_row :: "int \<Rightarrow> session_row" where
  "demo_session_row revoked = \<lparr>sr_id = ''u'', sr_agent_id = ''uu'', sr_workspace_id = ''uuu'',
     sr_role = ''dev'', sr_scopes = ''[]'', sr_created_at = 5000, sr_expires_at = 65000,
     sr_revoked = revoked\<rparr>"

definition demo_session :: "guard_session" where
  "demo_session = \<lparr>gs_id = 1, gs_agent_id = 2, gs_workspace_id = 3, gs_role = ''dev'', gs_scopes = [],
     gs_expires_at = 65000000000, gs_token = ''tok''\<rparr>"

abbreviation demo_db :: "int \<Rightarrow> db" where
  "demo_db revoked \<equiv> empty_db\<lparr>db_sessions := [demo_session_row revoked]\<rparr>"

lemma demo_s_simps [simp]:
  "uuid_show demo_s u = replicate (unat u) (CHR ''u'')"
  "ts_millis demo_s t = t div 1000000" "ts_secs demo_s t = t div 1000000000"
  "parse_uuid demo_s (replicate n (CHR ''u'')) = Inr (of_nat n)"
  "uuid_laws demo_s" "chrono_laws demo_s"
  "json_to_string demo_s (enc_scopes []) = Inr ''[]''"
  "json_rt demo_s (enc_scopes [])"
  "json_from_str demo_s dec_scopes ''[]'' = Inr []"
  by (auto simp: demo_s_def) (auto simp: demo_extern_def unary_def parse_uuid_def json_to_string_def
      json_rt_def enc_scopes_def json_from_str_def dec_scopes_def dec_list_def)

lemma demo_s_uuids [simp]:
  "parse_uuid demo_s ''u'' = Inr 1" "parse_uuid demo_s ''uu'' = Inr 2" "parse_uuid demo_s ''uuu'' = Inr 3"
  using demo_s_simps(4) [of 1] demo_s_simps(4) [of 2] demo_s_simps(4) [of 3]
  by (simp_all del: demo_s_simps)

lemma demo_s_from_ms [simp]: "\<bar>m\<bar> \<le> 8000000000000000 \<Longrightarrow> from_ms demo_s m = Inr (m * 1000000)"
  by (simp add: from_ms_def demo_s_def demo_extern_def)

lemma demo_s_dt_ok [simp]: "\<bar>t\<bar> \<le> 8000000000000000000000 \<Longrightarrow> dt_ok demo_s t"
  by (simp add: demo_s_def)

lemma demo_claims_neq [simp]: "demo_claims 65 \<noteq> demo_claims (- 4)"
  by (simp add: demo_claims_def)

lemma demo_jwt_laws: "jwt_laws demo_s secret"
  using demo_claims_neq
  by (auto simp: jwt_laws_def demo_s_def demo_extern_def split: if_splits)

lemma demo_jwt [simp]:
  "jwt_encode demo_s secret (demo_claims 65) = Inr ''tok''"
  "jwt_encode demo_s secret (demo_claims (- 4)) = Inr ''old''"
  using demo_claims_neq [symmetric] by (auto simp: demo_s_def demo_extern_def)

lemma demo_created:
  "create_session demo_s demo_cfg 1 5000000000 2 3 ''dev'' [] 60 empty_db =
     (Done (Inr demo_session), demo_db 0)"
proof -
  have "dt_add_secs demo_s 5000000000 60 = Some 65000000000" by (simp add: demo_s_def demo_extern_def)
  moreover have "session_claims_of demo_s 1 2 3 ''dev'' [] 65000000000 = demo_claims 65"
    by (simp add: session_claims_of_def demo_claims_def)
  ultimately show ?thesis
    by (simp add: create_session_def store_session_def act_bind_case exec_sessions_def sql_healthy
        empty_db_def insert_row_def session_uniques_def session_to_row_def demo_session_row_def
        demo_session_def)
qed

lemma demo_row_decodes:
  "row_to_session_record demo_s (demo_session_row revoked) =
     Inr \<lparr>se_id = 1, se_agent_id = 2, se_workspace_id = 3, se_role = ''dev'', se_scopes = [],
          se_created_at = 5000000000, se_expires_at = 65000000000, se_revoked = (revoked \<noteq> 0)\<rparr>"
  by (simp add: row_to_session_record_def demo_session_row_def)

section \<open>Creation and validation\<close>

text \<open>
  C14. The token that \<open>create_session\<close> returns validates, as long as the session has not expired, to
  the session that was returned, with its expiry cut to milliseconds.
\<close>

theorem create_then_validate_session:
  assumes "create_session x cfg i now a w role scopes ttl d = (Done (Inr s), d')"
    and "uuid_laws x" and "chrono_laws x" and "jwt_laws x (jwt_secret cfg)"
    and "json_rt x (enc_scopes scopes)" and "dt_ok x now" and "dt_ok x (gs_expires_at s)"
    and "0 \<le> gs_expires_at s" and "gs_expires_at s < 2 ^ 64 * 1000000000"
    and "next_fault d' = None" and "jwt_now \<le> now'" and "now' < trunc_ms (gs_expires_at s)"
  shows "fst (validate_session x cfg jwt_now now' (gs_token s) d') =
    Inr (s\<lparr>gs_expires_at := trunc_ms (gs_expires_at s)\<rparr>)"
proof -
  from assms(1) obtain e where "store_session x cfg i now e a w role scopes d = (Inr s, d')"
    by (auto simp: create_session_Done)
  then obtain token scope_text where *:
    "jwt_encode x (jwt_secret cfg) (session_claims_of x i a w role scopes e) = Inr token"
    "json_to_string x (enc_scopes scopes) = Inr scope_text"
    "insert_row session_uniques (session_to_row x i a w role scope_text now e) (db_sessions d) = Inr (db_sessions d')"
    "s = \<lparr>gs_id = i, gs_agent_id = a, gs_workspace_id = w, gs_role = role, gs_scopes = scopes,
          gs_expires_at = e, gs_token = token\<rparr>"
    by (rule store_session_Inr)
  have "jwt_now \<le> e" using assms(11,12) trunc_ms_le [of e] *(4) by simp
  then have "ts_secs x jwt_now \<le> ts_secs x e" using assms(3) by (simp add: chrono_laws_def zdiv_mono1)
  moreover have "0 \<le> ts_secs x e \<and> ts_secs x e < 2 ^ 64"
  proof -
    have "0 \<le> e" "e < 2 ^ 64 * 1000000000" using assms(8,9) *(4) by simp_all
    then have "0 \<le> e div 1000000000 \<and> e div 1000000000 < 2 ^ 64"
      by (simp add: int_div_less_self div_int_pos_iff)
    then show ?thesis using assms(3) by (simp add: chrono_laws_def)
  qed
  ultimately have "ts_secs x jwt_now \<le> uint (sc_exp (session_claims_of x i a w role scopes e))"
    by (simp add: session_claims_of_def unsigned_of_int take_bit_int_eq_self)
  then have dec: "jwt_decode x (jwt_secret cfg) jwt_now token = Inr (session_claims_of x i a w role scopes e)"
    using assms(4) *(1) unfolding jwt_laws_def by blast
  have found: "List.find (\<lambda>r. sr_id r = uuid_show x i) (db_sessions d') =
      Some (session_to_row x i a w role scope_text now e)"
    using session_ids.insert_find [OF *(3)] by (simp add: session_to_row_def)
  have "check_session_row x now' (session_to_row x i a w role scope_text now e) =
      Inr \<lparr>se_id = i, se_agent_id = a, se_workspace_id = w, se_role = role, se_scopes = scopes,
           se_created_at = trunc_ms now, se_expires_at = trunc_ms e, se_revoked = False\<rparr>"
    using fresh_session_row [OF assms(2,3,6) _ assms(5) *(2), of e] assms(7,12) *(4)
    by (simp add: check_session_row_def)
  with dec found assms(2,10) *(4) show ?thesis
    by (simp add: validate_session_step session_claims_of_def)
qed

theorem create_then_validate_session_witness:
  "fst (validate_session demo_s demo_cfg 64999999999 64999999999 ''tok'' (demo_db 0)) = Inr demo_session"
  using create_then_validate_session [OF demo_created demo_s_simps(5,6) demo_jwt_laws demo_s_simps(8),
      of 64999999999 64999999999]
  by (simp add: demo_session_def trunc_ms_def empty_db_def)

text \<open>
  A session is validated only on the strength of its row: the token verifies and names a row of
  the table that is not revoked and not expired, and agent, workspace, role and scopes are the
  row's, whatever the token's other claims say.
\<close>

theorem validate_session_sound:
  assumes "fst (validate_session x cfg jwt_now now token d) = Inr s" and "uuid_laws x" and "chrono_laws x"
  shows "\<exists>claims r. jwt_decode x (jwt_secret cfg) jwt_now token = Inr claims \<and>
    uuid_parse x (sc_sub claims) = Inr (gs_id s) \<and>
    r \<in> set (db_sessions d) \<and> sr_id r = uuid_show x (gs_id s) \<and> sr_revoked r = 0 \<and>
    ts_millis x now < sr_expires_at r \<and>
    parse_uuid x (sr_agent_id r) = Inr (gs_agent_id s) \<and>
    parse_uuid x (sr_workspace_id r) = Inr (gs_workspace_id s) \<and>
    gs_role s = sr_role r \<and> json_from_str x dec_scopes (sr_scopes r) = Inr (gs_scopes s) \<and>
    gs_expires_at s = sr_expires_at r * 1000000 \<and> gs_token s = token"
proof -
  from assms(1) obtain claims i r rec where *:
    "jwt_decode x (jwt_secret cfg) jwt_now token = Inr claims" "parse_uuid x (sc_sub claims) = Inr i"
    "List.find (\<lambda>r. sr_id r = uuid_show x i) (db_sessions d) = Some r" "sr_id r = uuid_show x i"
    "row_to_session_record x r = Inr rec" "\<not> se_revoked rec" "now < se_expires_at rec"
    "s = \<lparr>gs_id = se_id rec, gs_agent_id = se_agent_id rec, gs_workspace_id = se_workspace_id rec,
        gs_role = se_role rec, gs_scopes = se_scopes rec, gs_expires_at = se_expires_at rec,
        gs_token = token\<rparr>"
    by (rule validate_session_Inr)
  note cols = session_record_columns [OF *(5)]
  have "r \<in> set (db_sessions d)" using *(3) by (auto simp: find_Some_split)
  moreover have "se_id rec = i" using cols(1) *(4) assms(2) by simp
  moreover have "uuid_parse x (sc_sub claims) = Inr i"
    using *(2) by (simp add: parse_uuid_def split: sum.splits)
  moreover have "se_expires_at rec = sr_expires_at r * 1000000"
    using from_ms_Inr [OF assms(3) cols(6)] .
  moreover from this have "ts_millis x now < sr_expires_at r"
    using *(7) millis_le_iff [of "sr_expires_at r" now] assms(3) by (simp add: ts_millis_div)
  ultimately show ?thesis using * cols by (intro exI [of _ claims] exI [of _ r]) simp
qed

theorem validate_session_sound_witness:
  "\<exists>r\<in>set (db_sessions (demo_db 0)). sr_revoked r = 0 \<and> gs_role demo_session = sr_role r"
proof -
  have "jwt_decode demo_s (jwt_secret demo_cfg) 6000000000 ''tok'' = Inr (demo_claims 65)"
    by (simp add: demo_s_def demo_extern_def demo_claims_def)
  moreover have "check_session_row demo_s 6000000000 (demo_session_row 0) =
      Inr \<lparr>se_id = 1, se_agent_id = 2, se_workspace_id = 3, se_role = ''dev'', se_scopes = [],
          se_created_at = 5000000000, se_expires_at = 65000000000, se_revoked = False\<rparr>"
    by (simp add: check_session_row_def demo_row_decodes)
  ultimately have "fst (validate_session demo_s demo_cfg 6000000000 6000000000 ''tok'' (demo_db 0)) = Inr demo_session"
    by (simp add: validate_session_step demo_claims_def empty_db_def next_fault_def demo_session_def)
       (simp add: demo_session_row_def)
  from validate_session_sound [OF this demo_s_simps(5,6)] show ?thesis by blast
qed

section \<open>Revocation\<close>

lemma revoked_row_rejected:
  assumes "List.find (\<lambda>r. sr_id r = uuid_show x i) (db_sessions d) = Some r" "sr_revoked r \<noteq> 0" "gs_id s = i"
  shows "fst (assert_session_active x now s d) \<in>
    {Inl SessionRevoked} \<union> range (\<lambda>m. Inl (DatabaseError (Io_failure m)))"
  using assms by (simp add: assert_session_active_step session_row_active_def split: option.split)

text \<open>
  Revocation is final: after \<open>revoke_session\<close> has succeeded for a session that exists, and after
  any further sequence of operations on sessions, the check rejects it as revoked (or the database
  fails), and no token validates to it.
\<close>

theorem revoked_session_stays_rejected:
  assumes "List.find (\<lambda>r. sr_id r = uuid_show x i) (db_sessions d) = Some r0" and "uuid_laws x" and "chrono_laws x"
    and "revoke_session x i d = (Inr (), d')"
    and "d'' = fold (session_call_step x cfg) calls d'"
  shows "(gs_id s = i \<longrightarrow> fst (assert_session_active x now s d'') \<in>
      {Inl SessionRevoked} \<union> range (\<lambda>m. Inl (DatabaseError (Io_failure m)))) \<and>
    (fst (validate_session x cfg jwt_now now token d'') = Inr s \<longrightarrow> gs_id s \<noteq> i)"
proof -
  have "List.find (\<lambda>r. sr_id r = uuid_show x i) (db_sessions d') = Some (r0\<lparr>sr_revoked := 1\<rparr>)"
    unfolding revoke_session_Inr [OF assms(4)]
    by (subst session_ids.update_find) (simp_all add: assms(1))
  from session_revocable.revoked_forever [OF this, of x cfg calls] obtain r' where r':
    "List.find (\<lambda>r. sr_id r = uuid_show x i) (db_sessions d'') = Some r'" "sr_revoked r' \<noteq> 0"
    using assms(5) by auto
  have "gs_id s \<noteq> i" if v: "fst (validate_session x cfg jwt_now now token d'') = Inr s"
  proof
    assume "gs_id s = i"
    from v obtain j r rec where *: "List.find (\<lambda>r. sr_id r = uuid_show x j) (db_sessions d'') = Some r"
      "sr_id r = uuid_show x j" "row_to_session_record x r = Inr rec" "\<not> se_revoked rec" "gs_id s = se_id rec"
      by (rule validate_session_Inr) auto
    with session_record_columns [OF *(3)] r' \<open>gs_id s = i\<close> assms(2) show False by simp
  qed
  with revoked_row_rejected [OF r', of s now] show ?thesis by blast
qed

theorem revoked_session_stays_rejected_witness:
  "fst (assert_session_active demo_s 6000000000 demo_session
      (fold (session_call_step demo_s demo_cfg) [Session_revoke 1, Session_validate 0 0 ''tok''] (demo_db 1))) \<in>
    {Inl SessionRevoked} \<union> range (\<lambda>m. Inl (DatabaseError (Io_failure m)))"
proof -
  have found: "List.find (\<lambda>r. sr_id r = uuid_show demo_s 1) (db_sessions (demo_db 0)) = Some (demo_session_row 0)"
    by (simp add: demo_session_row_def)
  have revoked: "revoke_session demo_s 1 (demo_db 0) = (Inr (), demo_db 1)"
    by (simp add: revoke_session_def exec_sessions_def sql_healthy empty_db_def update_rows_def
        demo_session_row_def)
  have "gs_id demo_session = 1" by (simp add: demo_session_def)
  with revoked_session_stays_rejected [OF found demo_s_simps(5,6) revoked refl] show ?thesis by blast
qed

section \<open>Expiry\<close>

lemma as_i64_negative:
  assumes "2 ^ 63 \<le> unat (w :: u64)"
  shows "as_i64 w < 0"
proof -
  have "unat w div 2 ^ 63 = 1" using assms unat_u64_bound [of w] by (simp add: div_nat_eqI)
  then have "bit (unat w) 63" by (simp add: bit_iff_odd)
  then have "bit w 63" by (simp add: bit_unsigned_iff)
  then show ?thesis using bit_last_iff [of w] by simp
qed

text \<open>
  C38. The expiry is the creation time plus the time to live read as a signed number; in particular a
  time to live of \<open>2^63\<close> seconds or more gives a session that was never valid: no token of it
  validates at or after its creation.
\<close>

theorem huge_ttl_never_valid:
  assumes "create_session x cfg i now a w role scopes ttl d = (Done (Inr s), d')"
    and "chrono_laws x" and "uuid_laws x" and "2 ^ 63 \<le> unat ttl" and "now \<le> now'"
  shows "gs_expires_at s < now \<and>
    (\<forall>jwt_now token s'. fst (validate_session x cfg jwt_now now' token d') = Inr s' \<longrightarrow> gs_id s' \<noteq> i)"
proof -
  from assms(1) obtain e where e: "dt_add_secs x now (as_i64 ttl) = Some e"
    "store_session x cfg i now e a w role scopes d = (Inr s, d')"
    by (auto simp: create_session_Done)
  have "as_i64 ttl < 0"
    by (rule as_i64_negative [OF assms(4)])
  moreover have "e = now + as_i64 ttl * 1000000000" using e(1) assms(2) by (simp add: chrono_laws_def)
  ultimately have past: "e < now" by simp
  from e(2) obtain token scope_text where *:
    "insert_row session_uniques (session_to_row x i a w role scope_text now e) (db_sessions d) = Inr (db_sessions d')"
    "s = \<lparr>gs_id = i, gs_agent_id = a, gs_workspace_id = w, gs_role = role, gs_scopes = scopes,
          gs_expires_at = e, gs_token = token\<rparr>"
    by (rule store_session_Inr)
  have found: "List.find (\<lambda>r. sr_id r = uuid_show x i) (db_sessions d') =
      Some (session_to_row x i a w role scope_text now e)"
    using session_ids.insert_find [OF *(1)] by (simp add: session_to_row_def)
  have "gs_id s' \<noteq> i" if v: "fst (validate_session x cfg jwt_now now' tok d') = Inr s'" for jwt_now tok s'
  proof
    assume "gs_id s' = i"
    from v obtain j r rec where r: "List.find (\<lambda>r. sr_id r = uuid_show x j) (db_sessions d') = Some r"
      "sr_id r = uuid_show x j" "row_to_session_record x r = Inr rec" "now' < se_expires_at rec"
      "gs_id s' = se_id rec"
      by (rule validate_session_Inr) auto
    note cols = session_record_columns [OF r(3)]
    have "r = session_to_row x i a w role scope_text now e"
      using cols(1) found r(1,2,5) \<open>gs_id s' = i\<close> assms(3) by simp
    then have "se_expires_at rec = e div 1000000 * 1000000"
      using from_ms_Inr [OF assms(2) cols(6)] assms(2)
      by (simp add: session_to_row_def ts_millis_div)
    with r(4) past assms(5) show False using trunc_ms_le [of e] by (simp add: trunc_ms_def)
  qed
  with past *(2) show ?thesis by simp
qed

theorem huge_ttl_never_valid_witness:
  "\<exists>s d'. create_session demo_s demo_cfg 1 5000000000 2 3 ''dev'' [] (- 9) empty_db = (Done (Inr s), d') \<and>
     gs_expires_at s < 5000000000"
proof -
  have add: "dt_add_secs demo_s 5000000000 (- 9) = Some (- 4000000000)"
    by (simp add: demo_s_def demo_extern_def)
  have "session_claims_of demo_s 1 2 3 ''dev'' [] (- 4000000000) = demo_claims (- 4)"
    by (simp add: session_claims_of_def demo_claims_def)
  then obtain s d' where c:
    "create_session demo_s demo_cfg 1 5000000000 2 3 ''dev'' [] (- 9) empty_db = (Done (Inr s), d')"
    using add by (simp add: create_session_def store_session_def act_bind_case exec_sessions_def
        sql_healthy empty_db_def insert_row_def session_uniques_def)
  have "2 ^ 63 \<le> unat (- 9 :: u64)" by simp
  from huge_ttl_never_valid [OF c demo_s_simps(6,5) this, of 5000000000] c show ?thesis by auto
qed

section \<open>Listing\<close>

text \<open>
  C39. Listing and checking agree: with a limit that covers the table, a row of the agent is among the
  listed sessions exactly when \<open>assert_session_active\<close> accepts a session with its identifier at the
  same instant.
\<close>

theorem listing_agrees_with_check:
  assumes "list_active_sessions x oc a now (Some \<lparr>lo_limit = l, lo_offset = 0\<rparr>) d = (Done (Inr page), d')"
    and "db_wf d" and "uuid_laws x" and "chrono_laws x" and "next_fault d = None"
    and "int (length (db_sessions d)) \<le> as_i64 l"
    and "r \<in> set (db_sessions d)" and "sr_agent_id r = uuid_show x a"
    and "row_to_session_record x r = Inr rec" and "sr_id r = uuid_show x (gs_id s)"
  shows "rec \<in> set (lp_items page) \<longleftrightarrow> fst (assert_session_active x now s d) = Inr ()"
proof -
  let ?rows = "active_rows x a now d"
  have scan: "scan_ok (scan_sessions d)" and dist: "distinct (map sr_id (db_sessions d))"
    using assms(2) by (simp_all add: db_wf_def)
  have rows: "set ?rows = {r \<in> set (db_sessions d). sr_agent_id r = uuid_show x a \<and> sr_revoked r = 0 \<and>
      ts_millis x now < sr_expires_at r}"
    unfolding active_rows_def by (rule set_select_rows [OF scan])
  have "size (mset ?rows) \<le> size (mset (db_sessions d))"
    unfolding active_rows_def mset_select_rows [OF scan] by (rule size_filter_mset_lesseq)
  then have "length ?rows \<le> nat (as_i64 l)" using assms(6) by simp
  then have "limit_offset (as_i64 l) 0 ?rows = ?rows"
    using assms(6) by (simp add: limit_offset_def)
  then have items: "map_res (row_to_session_record x) ?rows = Inr (lp_items page)"
    using assms(1,5)
    by (auto simp: list_active_sessions_def Let_def act_bind_case query_step active_rows_def
        split: sum.splits prod.splits if_splits)
  have found: "List.find (\<lambda>q. sr_id q = uuid_show x (gs_id s)) (db_sessions d) = Some r"
    using find_Some_unique [OF dist assms(7)] assms(10) by simp
  note cols = session_record_columns [OF assms(9)]
  have "fst (assert_session_active x now s d) = session_row_active x now r"
    using assms(5) found by (simp add: assert_session_active_step)
  then have check: "fst (assert_session_active x now s d) = Inr () \<longleftrightarrow> r \<in> set ?rows"
    using active_iff_check [OF assms(4) cols(6)] rows assms(7,8) by simp
  have "rec \<in> set (lp_items page) \<longleftrightarrow> r \<in> set ?rows"
  proof
    assume "rec \<in> set (lp_items page)"
    then obtain q where q: "q \<in> set ?rows" "row_to_session_record x q = Inr rec"
      using map_res_Inr_from [OF items] by blast
    then have "r \<in> set (db_sessions d)" "q \<in> set (db_sessions d)" using rows assms(7) by auto
    show "r \<in> set ?rows"
    proof -
      have "sr_expires_at r * 1000000 = sr_expires_at q * 1000000"
        using from_ms_Inr [OF assms(4) cols(6)]
          from_ms_Inr [OF assms(4) session_record_columns(6) [OF q(2)]] by simp
      moreover have "(sr_revoked r \<noteq> 0) = (sr_revoked q \<noteq> 0)"
        using cols(7) session_record_columns(7) [OF q(2)] by simp
      moreover have "sr_revoked q = 0" "ts_millis x now < sr_expires_at q" using q(1) rows by auto
      ultimately have "sr_revoked r = 0" "ts_millis x now < sr_expires_at r" by simp_all
      then show ?thesis using rows assms(7,8) by simp
    qed
  next
    assume "r \<in> set ?rows"
    from map_res_Inr_mem [OF items this] assms(9) show "rec \<in> set (lp_items page)" by auto
  qed
  with check show ?thesis by simp
qed

lemma demo_listed:
  "list_active_sessions demo_s oc 2 6000000000 (Some \<lparr>lo_limit = 9, lo_offset = 0\<rparr>) (demo_db 0) =
     (Done (Inr \<lparr>lp_items = [\<lparr>se_id = 1, se_agent_id = 2, se_workspace_id = 3, se_role = ''dev'',
        se_scopes = [], se_created_at = 5000000000, se_expires_at = 65000000000, se_revoked = False\<rparr>],
        lp_next_offset = None\<rparr>), demo_db 0)"
proof -
  have "active_rows demo_s 2 6000000000 (demo_db 0) = [demo_session_row 0]"
    by (simp add: active_rows_def select_rows_def empty_db_def) (simp add: demo_session_row_def)
  then show ?thesis
    by (simp add: list_active_sessions_def Let_def act_bind_case query_healthy empty_db_def
        limit_offset_def demo_row_decodes)
qed

theorem listing_agrees_with_check_witness:
  "fst (assert_session_active demo_s 6000000000 demo_session (demo_db 0)) = Inr ()"
proof -
  have "db_wf (demo_db 0)" by (simp add: db_wf_def empty_db_def)
  moreover have "demo_session_row 0 \<in> set (db_sessions (demo_db 0))" by simp
  ultimately show ?thesis
    using listing_agrees_with_check [OF demo_listed _ demo_s_simps(5,6) _ _ _ _ demo_row_decodes, of 0 demo_session]
    by (auto simp: empty_db_def next_fault_def demo_session_row_def demo_session_def)
qed

section \<open>Pagination\<close>

text \<open>
  A client that follows \<open>next_offset\<close>, page after page, at most \<open>n\<close> times. Each request reads the
  clock anew and meets the database as it is then: request \<open>k\<close> has \<open>clock k\<close> and \<open>view k\<close>, which may
  differ in the rows and in the order in which the query finds equal keys.
\<close>

fun all_pages ::
    "extern \<Rightarrow> uuid \<Rightarrow> u64 \<Rightarrow> (nat \<Rightarrow> datetime) \<Rightarrow> (nat \<Rightarrow> 'a db_scheme) \<Rightarrow> nat \<Rightarrow> nat \<Rightarrow> u64 \<Rightarrow>
       session_record list option" where
  "all_pages x a l clock view 0 k off = None"
| "all_pages x a l clock view (Suc n) k off =
     (case fst (list_active_sessions x True a (clock k) (Some \<lparr>lo_limit = l, lo_offset = off\<rparr>) (view k)) of
        Done (Inr page) \<Rightarrow>
          (case lp_next_offset page of
             None \<Rightarrow> Some (lp_items page)
           | Some off' \<Rightarrow>
               map_option (\<lambda>rest. lp_items page @ rest) (all_pages x a l clock view n (Suc k) off'))
      | _ \<Rightarrow> None)"

lemma map_res_limit:
  "map_res f xs = Inr ys \<Longrightarrow> map_res f (limit_offset l off xs) = Inr (limit_offset l off ys)"
  by (auto simp: map_res_Inr_iff limit_offset_def Let_def)

lemma as_i64_small:
  assumes "unat (w :: u64) < 2 ^ 63"
  shows "as_i64 w = int (unat w)"
proof -
  have "int (unat w) < int (2 ^ 63)" using assms by (simp only: of_nat_less_iff)
  then have "uint w < 2 ^ 63" by simp
  moreover have "- (2 ^ 63) \<le> uint w" by (rule order_trans [OF _ uint_ge_0]) simp
  ultimately have "signed_take_bit 63 (uint w) = uint w"
    using signed_take_bit_int_eq_self [of 63 "uint w"] by blast
  then show ?thesis by (simp add: sint_uint)
qed

lemma list_page:
  assumes "healthy d" "map_res (row_to_session_record x) (active_rows x a now d) = Inr recs"
    and "unat l + unat off < 2 ^ 63"
  shows "list_active_sessions x oc a now (Some \<lparr>lo_limit = l, lo_offset = off\<rparr>) d =
    (Done (Inr \<lparr>lp_items = take (unat l) (drop (unat off) recs),
      lp_next_offset = (if unat l \<le> length recs - unat off then Some (off + l) else None)\<rparr>), d)"
proof -
  have l: "as_i64 l = int (unat l)" "as_i64 off = int (unat off)"
    using assms(3) by (simp_all add: as_i64_small)
  have "map_res (row_to_session_record x) (limit_offset (as_i64 l) (as_i64 off) (active_rows x a now d)) =
      Inr (take (unat l) (drop (unat off) recs))"
    using map_res_limit [OF assms(2), of "as_i64 l" "as_i64 off"] by (simp add: l limit_offset_def)
  moreover have "(of_nat (length (take (unat l) (drop (unat off) recs))) = l) =
      (unat l \<le> length recs - unat off)"
  proof -
    let ?n = "length (take (unat l) (drop (unat off) recs))"
    have "?n \<le> unat l" "?n < 2 ^ 64" using unat_u64_bound [of l] by auto
    then have "(of_nat ?n = l) = (?n = unat l)" by (simp add: word_unat_eq_iff unat_of_nat)
    then show ?thesis by auto
  qed
  ultimately show ?thesis using assms(1,3)
    by (simp add: list_active_sessions_def Let_def act_bind_case query_healthy)
qed

lemma unat_sum_small: "unat l + unat off < 2 ^ 63 \<Longrightarrow> unat (off + l :: u64) = unat off + unat l"
  by (simp add: unat_word_ariths)

text \<open>Whatever happens between the requests, the pages end, and hold active sessions only.\<close>

lemma all_pages_end:
  assumes "\<forall>k. healthy (view k)"
    and "\<forall>k. \<exists>recs. map_res (row_to_session_record x) (active_rows x a (clock k) (view k)) = Inr recs"
    and "\<forall>k. length (active_rows x a (clock k) (view k)) \<le> bound" and "0 < unat l"
  shows "unat off \<le> bound \<Longrightarrow> bound < unat off + n * unat l \<Longrightarrow> unat off + n * unat l < 2 ^ 63 \<Longrightarrow>
    \<exists>items. all_pages x a l clock view n k off = Some items \<and>
      (\<forall>item\<in>set items. \<exists>j<k + n. \<exists>r\<in>set (active_rows x a (clock j) (view j)).
         row_to_session_record x r = Inr item)"
proof (induction n arbitrary: k off)
  case 0
  then show ?case by simp
next
  case (Suc n)
  have small: "unat l + unat off < 2 ^ 63" using Suc.prems(3) by simp
  obtain recs where recs: "map_res (row_to_session_record x) (active_rows x a (clock k) (view k)) = Inr recs"
    using assms(2) by blast
  have page: "list_active_sessions x True a (clock k) (Some \<lparr>lo_limit = l, lo_offset = off\<rparr>) (view k) =
    (Done (Inr \<lparr>lp_items = take (unat l) (drop (unat off) recs),
      lp_next_offset = (if unat l \<le> length recs - unat off then Some (off + l) else None)\<rparr>), view k)"
    using assms(1) by (intro list_page [OF _ recs small]) simp
  have "length recs \<le> bound"
    using assms(3) list_all2_lengthD [OF recs [unfolded map_res_Inr_iff]] by metis
  have here: "\<exists>j<k + Suc n. \<exists>r\<in>set (active_rows x a (clock j) (view j)). row_to_session_record x r = Inr item"
    if "item \<in> set (take (unat l) (drop (unat off) recs))" for item
  proof -
    have "item \<in> set recs" using that by (meson in_set_dropD in_set_takeD)
    from map_res_Inr_from [OF recs this] show ?thesis by (intro exI [of _ k]) auto
  qed
  show ?case
  proof (cases "unat l \<le> length recs - unat off")
    case False
    then show ?thesis using here by (simp add: page)
  next
    case True
    have off: "unat (off + l) = unat l + unat off" using unat_sum_small [OF small] by simp
    have "unat (off + l) \<le> bound" using True \<open>length recs \<le> bound\<close> assms(4) off by linarith
    then obtain items where items: "all_pages x a l clock view n (Suc k) (off + l) = Some items"
      "\<forall>item\<in>set items. \<exists>j<Suc k + n. \<exists>r\<in>set (active_rows x a (clock j) (view j)).
         row_to_session_record x r = Inr item"
      using Suc.IH [of "off + l" "Suc k"] Suc.prems off by auto
    with True here show ?thesis by (simp add: page) blast
  qed
qed

text \<open>If the requests see the same list, the pages are that list.\<close>

lemma all_pages_from:
  assumes "\<forall>k. healthy (view k)"
    and "\<forall>k. map_res (row_to_session_record x) (active_rows x a (clock k) (view k)) = Inr recs"
    and "0 < unat l"
  shows "unat off \<le> length recs \<Longrightarrow> length recs < unat off + n * unat l \<Longrightarrow> unat off + n * unat l < 2 ^ 63 \<Longrightarrow>
    all_pages x a l clock view n k off = Some (drop (unat off) recs)"
proof (induction n arbitrary: k off)
  case 0
  then show ?case by simp
next
  case (Suc n)
  have small: "unat l + unat off < 2 ^ 63" using Suc.prems(3) by simp
  have page: "list_active_sessions x True a (clock k) (Some \<lparr>lo_limit = l, lo_offset = off\<rparr>) (view k) =
    (Done (Inr \<lparr>lp_items = take (unat l) (drop (unat off) recs),
      lp_next_offset = (if unat l \<le> length recs - unat off then Some (off + l) else None)\<rparr>), view k)"
    using assms(1,2) by (intro list_page [OF _ _ small]) simp_all
  show ?case
  proof (cases "unat l \<le> length recs - unat off")
    case False
    then show ?thesis by (simp add: page)
  next
    case True
    have off: "unat (off + l) = unat l + unat off" using unat_sum_small [OF small] by simp
    have "all_pages x a l clock view n (Suc k) (off + l) = Some (drop (unat (off + l)) recs)"
      by (rule Suc.IH) (use Suc.prems off True in simp_all)
    then have "all_pages x a l clock view (Suc n) k off =
        Some (take (unat l) (drop (unat off) recs) @ drop (unat l) (drop (unat off) recs))"
      using True by (simp add: page off)
    then show ?thesis by (simp only: append_take_drop_id)
  qed
qed

text \<open>
  Requests see the same list if the table does not change, none of the agent's sessions expires in
  between, and no two of them were created in the same millisecond.
\<close>

lemma active_rows_stable:
  assumes "db_sessions d = db_sessions d'" "scan_ok (scan_sessions d)" "scan_ok (scan_sessions d')"
    and "\<forall>r\<in>set (db_sessions d). sr_agent_id r = uuid_show x a \<longrightarrow>
      (ts_millis x now < sr_expires_at r \<longleftrightarrow> ts_millis x now' < sr_expires_at r)"
    and "inj_on sr_created_at {r \<in> set (db_sessions d). sr_agent_id r = uuid_show x a}"
  shows "active_rows x a now d = active_rows x a now' d'"
proof -
  let ?P = "\<lambda>now r. sr_agent_id r = uuid_show x a \<and> sr_revoked r = 0 \<and> ts_millis x now < sr_expires_at r"
  have same: "filter (?P now) (db_sessions d) = filter (?P now') (db_sessions d')"
    unfolding assms(1) [symmetric] by (rule filter_cong) (use assms(4) in auto)
  let ?fs = "filter (?P now) (db_sessions d)"
  have fs: "mset (scan_sessions d ?fs) = mset ?fs" using assms(2) unfolding scan_ok_def by blast
  have "mset (scan_sessions d' ?fs) = mset ?fs" using assms(3) unfolding scan_ok_def by blast
  then have "mset ?fs = mset (active_rows x a now' d')"
    unfolding active_rows_def select_rows_def mset_sort same [symmetric] by (rule sym)
  with fs have "mset (scan_sessions d ?fs) = mset (active_rows x a now' d')" by (rule trans)
  moreover have "inj_on (\<lambda>r. Desc (sr_created_at r)) (set (scan_sessions d (filter (?P now) (db_sessions d))))"
  proof -
    have "set (scan_sessions d (filter (?P now) (db_sessions d))) = set (filter (?P now) (db_sessions d))"
      using fs by (rule mset_eq_setD)
    moreover have "inj_on (\<lambda>r. Desc (sr_created_at r)) {r \<in> set (db_sessions d). sr_agent_id r = uuid_show x a}"
      using assms(5) by (simp add: inj_on_def)
    ultimately show ?thesis by (elim inj_on_subset) auto
  qed
  moreover have "sorted (map (\<lambda>r. Desc (sr_created_at r)) (active_rows x a now' d'))"
    unfolding active_rows_def by (rule select_rows_sorted)
  ultimately show ?thesis
    unfolding active_rows_def [of x a now d] select_rows_def by (rule sort_key_inj_key_eq)
qed

text \<open>
  C40. Following \<open>next_offset\<close> from the start with any positive limit ends, whatever the clock reads
  and other calls do between the requests: after one request more than there are full pages in the
  longest list met, and every item was an active session of the agent at its request. If moreover
  the table stays as it is, no session of the agent expires in between and no two of them were
  created in the same millisecond, then the pages together are the whole list, each session once
  and in order.
\<close>

theorem pages_cover_the_list:
  assumes "\<forall>k. healthy (view k)"
    and "\<forall>k. \<exists>recs. map_res (row_to_session_record x) (active_rows x a (clock k) (view k)) = Inr recs"
    and "\<forall>k. length (active_rows x a (clock k) (view k)) \<le> bound"
    and "0 < unat l" and "bound + unat l < 2 ^ 63"
  shows "\<exists>items. all_pages x a l clock view (bound div unat l + 1) 0 0 = Some items \<and>
    (\<forall>item\<in>set items. \<exists>k \<le> bound div unat l. \<exists>r\<in>set (active_rows x a (clock k) (view k)).
       row_to_session_record x r = Inr item) \<and>
    ((\<forall>k. db_sessions (view 0) = db_sessions (view k) \<and> scan_ok (scan_sessions (view k))) \<and>
     (\<forall>k. \<forall>r\<in>set (db_sessions (view 0)). sr_agent_id r = uuid_show x a \<longrightarrow>
        (ts_millis x (clock 0) < sr_expires_at r \<longleftrightarrow> ts_millis x (clock k) < sr_expires_at r)) \<and>
     inj_on sr_created_at {r \<in> set (db_sessions (view 0)). sr_agent_id r = uuid_show x a} \<longrightarrow>
     map_res (row_to_session_record x) (active_rows x a (clock 0) (view 0)) = Inr items)"
proof -
  let ?n = "bound div unat l + 1"
  let ?stable = "(\<forall>k. db_sessions (view 0) = db_sessions (view k) \<and> scan_ok (scan_sessions (view k))) \<and>
     (\<forall>k. \<forall>r\<in>set (db_sessions (view 0)). sr_agent_id r = uuid_show x a \<longrightarrow>
        (ts_millis x (clock 0) < sr_expires_at r \<longleftrightarrow> ts_millis x (clock k) < sr_expires_at r)) \<and>
     inj_on sr_created_at {r \<in> set (db_sessions (view 0)). sr_agent_id r = uuid_show x a}"
  have n: "bound < ?n * unat l"
    using assms(4) by (metis add.commute dividend_less_div_times mult.commute mult_Suc plus_1_eq_Suc)
  have "?n * unat l \<le> bound + unat l" by (simp add: div_times_less_eq_dividend)
  then have n': "?n * unat l < 2 ^ 63" using assms(5) by (rule le_less_trans)
  obtain items where items: "all_pages x a l clock view ?n 0 0 = Some items"
    "\<forall>item\<in>set items. \<exists>j<0 + ?n. \<exists>r\<in>set (active_rows x a (clock j) (view j)).
       row_to_session_record x r = Inr item"
    using all_pages_end [OF assms(1-4), of 0 ?n 0] n n' by (auto simp del: all_pages.simps)
  obtain recs where recs: "map_res (row_to_session_record x) (active_rows x a (clock 0) (view 0)) = Inr recs"
    using assms(2) by blast
  have whole: "items = recs"
    if stable: "\<forall>k. db_sessions (view 0) = db_sessions (view k) \<and> scan_ok (scan_sessions (view k))"
      "\<forall>k. \<forall>r\<in>set (db_sessions (view 0)). sr_agent_id r = uuid_show x a \<longrightarrow>
        (ts_millis x (clock 0) < sr_expires_at r \<longleftrightarrow> ts_millis x (clock k) < sr_expires_at r)"
      "inj_on sr_created_at {r \<in> set (db_sessions (view 0)). sr_agent_id r = uuid_show x a}"
  proof -
    have "active_rows x a (clock 0) (view 0) = active_rows x a (clock k) (view k)" for k
    proof (rule active_rows_stable)
      show "db_sessions (view 0) = db_sessions (view k)" "scan_ok (scan_sessions (view 0))"
        "scan_ok (scan_sessions (view k))" using stable(1) by blast+
      show "\<forall>r\<in>set (db_sessions (view 0)). sr_agent_id r = uuid_show x a \<longrightarrow>
        (ts_millis x (clock 0) < sr_expires_at r \<longleftrightarrow> ts_millis x (clock k) < sr_expires_at r)"
        using stable(2) by blast
      show "inj_on sr_created_at {r \<in> set (db_sessions (view 0)). sr_agent_id r = uuid_show x a}"
        by (rule stable(3))
    qed
    then have same: "\<forall>k. map_res (row_to_session_record x) (active_rows x a (clock k) (view k)) = Inr recs"
      using recs by metis
    have "length recs \<le> bound"
      using assms(3) list_all2_lengthD [OF recs [unfolded map_res_Inr_iff]] by metis
    with n n' have "all_pages x a l clock view ?n 0 0 = Some recs"
      using all_pages_from [OF assms(1) same assms(4), of 0 ?n 0] by (simp del: all_pages.simps)
    with items(1) show ?thesis by simp
  qed
  with recs whole have "(?stable \<longrightarrow> map_res (row_to_session_record x) (active_rows x a (clock 0) (view 0)) = Inr items)"
    by blast
  moreover have "\<forall>item\<in>set items. \<exists>k \<le> bound div unat l. \<exists>r\<in>set (active_rows x a (clock k) (view k)).
       row_to_session_record x r = Inr item"
    using items(2) unfolding less_Suc_eq_le add_0 Suc_eq_plus1 [symmetric] by blast
  ultimately show ?thesis using items(1) by blast
qed

abbreviation record_a :: session_record where
  "record_a \<equiv> \<lparr>se_id = 1, se_agent_id = 2, se_workspace_id = 3, se_role = ''dev'', se_scopes = [],
     se_created_at = 5000000000, se_expires_at = 65000000000, se_revoked = False\<rparr>"

theorem pages_cover_the_list_witness:
  "all_pages demo_s 2 1 (\<lambda>k. if k = 0 then 6000000000 else 7000000000) (\<lambda>k. demo_db 0) (Suc (Suc 0)) 0 0 = Some [record_a]"
proof -
  let ?clock = "\<lambda>k::nat. if k = 0 then 6000000000 else 7000000000"
  have active: "active_rows demo_s 2 (?clock k) (demo_db 0) = [demo_session_row 0]" for k
    by (simp add: active_rows_def select_rows_def empty_db_def) (simp add: demo_session_row_def)
  have row: "map_res (row_to_session_record demo_s) [demo_session_row 0] = Inr [record_a]"
    by (simp add: demo_row_decodes)
  have rows: "db_sessions (demo_db 0) = [demo_session_row 0]" "healthy (demo_db 0)"
    "scan_ok (scan_sessions (demo_db 0))" by (simp_all add: empty_db_def)
  have clock: "ts_millis demo_s (?clock k) < sr_expires_at (demo_session_row 0)" for k
    by (simp add: demo_session_row_def)
  obtain items where items: "all_pages demo_s 2 1 ?clock (\<lambda>k. demo_db 0) (1 div unat (1 :: 64 word) + 1) 0 0 = Some items"
    "map_res (row_to_session_record demo_s) (active_rows demo_s 2 (?clock 0) (demo_db 0)) = Inr items"
    using pages_cover_the_list [of "\<lambda>k. demo_db 0" demo_s 2 ?clock 1 1] row
    unfolding active rows
    by (auto simp: inj_on_def demo_session_row_def scan_ok_def empty_db_def simp del: all_pages.simps map_res.simps)
  have "items = [record_a]" using items(2) unfolding active row by simp
  moreover have "1 div unat (1 :: 64 word) + 1 = Suc (Suc 0)" by simp
  ultimately show ?thesis using items(1) by (simp only:)
qed

text \<open>
  Without those conditions sessions are skipped: one that has been listed expires before the next
  request, and the offset passes over one that is active at both.
\<close>

definition older_row :: session_row where
  "older_row = \<lparr>sr_id = ''uu'', sr_agent_id = ''uu'', sr_workspace_id = ''uuu'', sr_role = ''dev'',
     sr_scopes = ''[]'', sr_created_at = 4000, sr_expires_at = 99000, sr_revoked = 0\<rparr>"

lemma expiry_skips_rows:
  defines "clock \<equiv> \<lambda>k::nat. if k = 0 then 6000000000 else 70000000000"
  defines "d \<equiv> empty_db\<lparr>db_sessions := [demo_session_row 0, older_row]\<rparr>"
  shows "(\<forall>k. older_row \<in> set (active_rows demo_s 2 (clock k) d)) \<and>
    all_pages demo_s 2 1 clock (\<lambda>k. d) 2 0 0 = Some [record_a]"
proof -
  have first: "active_rows demo_s 2 6000000000 d = [demo_session_row 0, older_row]"
    by (simp add: active_rows_def select_rows_def d_def empty_db_def)
       (simp add: demo_session_row_def older_row_def)
  have later: "active_rows demo_s 2 70000000000 d = [older_row]"
    by (simp add: active_rows_def select_rows_def d_def empty_db_def)
       (simp add: demo_session_row_def older_row_def)
  obtain rec where "row_to_session_record demo_s older_row = Inr rec"
    by (simp add: row_to_session_record_def older_row_def)
  then have recs: "map_res (row_to_session_record demo_s) [demo_session_row 0, older_row] = Inr [record_a, rec]"
    "map_res (row_to_session_record demo_s) [older_row] = Inr [rec]"
    by (simp_all add: demo_row_decodes)
  have healthy: "healthy d" by (simp add: d_def empty_db_def)
  have "list_active_sessions demo_s True 2 6000000000 (Some \<lparr>lo_limit = 1, lo_offset = 0\<rparr>) d =
      (Done (Inr \<lparr>lp_items = [record_a], lp_next_offset = Some 1\<rparr>), d)"
    using list_page [OF healthy recs(1) [folded first], of 1 0 True] by simp
  moreover have "list_active_sessions demo_s True 2 70000000000 (Some \<lparr>lo_limit = 1, lo_offset = 1\<rparr>) d =
      (Done (Inr \<lparr>lp_items = [], lp_next_offset = None\<rparr>), d)"
    using list_page [OF healthy recs(2) [folded later], of 1 1 True] by simp
  ultimately have "all_pages demo_s 2 1 clock (\<lambda>k. d) 2 0 0 = Some [record_a]"
    by (simp add: clock_def numeral_2_eq_2)
  then show ?thesis using first later by (simp add: clock_def)
qed

text \<open>
  With limit zero the page is empty and \<open>next_offset\<close> is the offset asked for: a client that
  follows it never comes to an end.
\<close>

theorem zero_limit_never_ends:
  assumes "\<forall>k. healthy (view k)" and "unat off < 2 ^ 63"
    and "\<forall>k. \<exists>recs. map_res (row_to_session_record x) (active_rows x a (clock k) (view k)) = Inr recs"
  shows "all_pages x a 0 clock view n k off = None"
proof (induction n arbitrary: k)
  case (Suc n)
  obtain recs where recs: "map_res (row_to_session_record x) (active_rows x a (clock k) (view k)) = Inr recs"
    using assms(3) by blast
  have "list_active_sessions x True a (clock k) (Some \<lparr>lo_limit = 0, lo_offset = off\<rparr>) (view k) =
      (Done (Inr \<lparr>lp_items = [], lp_next_offset = Some off\<rparr>), view k)"
    using list_page [OF _ recs, of 0 off] assms(1,2) by simp
  with Suc show ?case by simp
qed simp

end
