(* ===== verification/Audit_Log.thy ===== *)
theory Audit_Log
  imports Database Policy_Codec
begin

text \<open>
  The audit log of \<open>src/audit/mod.rs\<close>: entries and their rows, the direct write, filtered queries
  and the CSV export. A double column holds no NaN in SQLite: it is stored as \<open>NULL\<close>.
\<close>

section \<open>Entries\<close>

record audit_entry =
  ae_id :: uuid
  ae_session_id :: "uuid option"
  ae_workspace_id :: uuid
  ae_agent_id :: "uuid option"
  ae_action :: string
  ae_resource :: string
  ae_resource_id :: "string option"
  ae_decision :: string
  ae_reason :: "string option"
  ae_risk_score :: f64
  ae_metadata :: json
  ae_ts :: datetime

record audit_filter =
  af_workspace_id :: "uuid option"
  af_session_id :: "uuid option"
  af_decision :: "string option"
  af_start_time :: "datetime option"
  af_end_time :: "datetime option"
  af_resource :: "string option"
  af_limit :: "32 word option"

definition entry_to_row :: "extern \<Rightarrow> audit_entry \<Rightarrow> string \<Rightarrow> audit_row" where
  "entry_to_row x e metadata =
     \<lparr>ar_id = uuid_show x (ae_id e), ar_session_id = map_option (uuid_show x) (ae_session_id e),
      ar_workspace_id = uuid_show x (ae_workspace_id e),
      ar_agent_id = map_option (uuid_show x) (ae_agent_id e), ar_action = ae_action e,
      ar_resource = ae_resource e, ar_resource_id = ae_resource_id e, ar_decision = ae_decision e,
      ar_reason = ae_reason e,
      ar_risk_score = (if ae_risk_score e = NaN then None else Some (ae_risk_score e)),
      ar_metadata = Some metadata, ar_ts = ts_millis x (ae_ts e)\<rparr>"

text \<open>\<open>try_get\<close> of a column that is \<open>NULL\<close> into a type that is not an option.\<close>

definition get_column :: "string \<Rightarrow> 'v option \<Rightarrow> 'v guard_result" where
  "get_column name v = ok_or (DatabaseError (Column_decode name)) v"

definition row_to_audit_entry :: "extern \<Rightarrow> audit_row \<Rightarrow> audit_entry guard_result" where
  "row_to_audit_entry x r =
     res_bind (parse_uuid x (ar_id r)) (\<lambda>i.
     res_bind (opt_res (parse_uuid x) (ar_session_id r)) (\<lambda>session_id.
     res_bind (parse_uuid x (ar_workspace_id r)) (\<lambda>workspace_id.
     res_bind (opt_res (parse_uuid x) (ar_agent_id r)) (\<lambda>agent_id.
     res_bind (get_column ''risk_score'' (ar_risk_score r)) (\<lambda>risk_score.
     res_bind (get_column ''metadata'' (ar_metadata r)) (\<lambda>metadata_text.
     res_bind (json_from_str x Some metadata_text) (\<lambda>metadata.
     res_bind (from_ms x (ar_ts r)) (\<lambda>ts.
     Inr \<lparr>ae_id = i, ae_session_id = session_id, ae_workspace_id = workspace_id,
          ae_agent_id = agent_id, ae_action = ar_action r, ae_resource = ar_resource r,
          ae_resource_id = ar_resource_id r, ae_decision = ar_decision r, ae_reason = ar_reason r,
          ae_risk_score = risk_score, ae_metadata = metadata, ae_ts = ts\<rparr>))))))))"

section \<open>Writing\<close>

definition exec_audit ::
    "(audit_row list \<Rightarrow> sqlx_error + audit_row list) \<Rightarrow> ('a db_scheme, unit) action" where
  "exec_audit f =
     sql (\<lambda>d. case f (db_audit d) of Inl e \<Rightarrow> Inl e | Inr t \<Rightarrow> Inr ((), d\<lparr>db_audit := t\<rparr>))"

definition write_direct :: "extern \<Rightarrow> audit_entry \<Rightarrow> ('a db_scheme, unit) action" where
  "write_direct x e =
     act_bind (act_lift (json_to_string x (ae_metadata e))) (\<lambda>metadata.
     exec_audit (insert_row audit_uniques (entry_to_row x e metadata)))"

section \<open>Querying\<close>

definition opt_matches :: "('v \<Rightarrow> bool) \<Rightarrow> 'v option \<Rightarrow> bool" where
  "opt_matches P v = (case v of None \<Rightarrow> True | Some a \<Rightarrow> P a)"

text \<open>The \<open>WHERE\<close> clause that the builder pushes together.\<close>

definition row_matches :: "extern \<Rightarrow> audit_filter \<Rightarrow> audit_row \<Rightarrow> bool" where
  "row_matches x f r \<longleftrightarrow>
     opt_matches (\<lambda>w. ar_workspace_id r = uuid_show x w) (af_workspace_id f) \<and>
     opt_matches (\<lambda>s. ar_session_id r = Some (uuid_show x s)) (af_session_id f) \<and>
     opt_matches (\<lambda>d. ar_decision r = d) (af_decision f) \<and>
     opt_matches (\<lambda>t. ts_millis x t \<le> ar_ts r) (af_start_time f) \<and>
     opt_matches (\<lambda>t. ar_ts r \<le> ts_millis x t) (af_end_time f) \<and>
     opt_matches (\<lambda>v. ar_resource r = v) (af_resource f)"

definition query_rows :: "extern \<Rightarrow> audit_filter \<Rightarrow> 'a db_scheme \<Rightarrow> audit_row list" where
  "query_rows x f d =
     (let rows = select_rows (scan_audit d) (row_matches x f) (\<lambda>r. Desc (ar_ts r)) (db_audit d) in
      case af_limit f of None \<Rightarrow> rows | Some l \<Rightarrow> limit_offset (uint l) 0 rows)"

definition query_audit_rows :: "extern \<Rightarrow> audit_filter \<Rightarrow> ('a db_scheme, audit_entry list) action" where
  "query_audit_rows x f =
     act_bind (query (query_rows x f)) (\<lambda>rows. act_lift (map_res (row_to_audit_entry x) rows))"

section \<open>CSV\<close>

definition csv_escape :: "string \<Rightarrow> string" where
  "csv_escape v =
     (if str_contains v '','' \<or> str_contains v [CHR 0x22] \<or> str_contains v [CHR 0x0A]
      then [CHR 0x22] @ replace_char (CHR 0x22) [CHR 0x22, CHR 0x22] v @ [CHR 0x22]
      else v)"

definition or_empty :: "string option \<Rightarrow> string" where
  "or_empty v = (case v of None \<Rightarrow> [] | Some s \<Rightarrow> s)"

definition csv_header :: string where
  "csv_header = ''id,session_id,workspace_id,agent_id,action,resource,resource_id,decision,reason,risk_score,ts,metadata'' @ [CHR 0x0A]"

definition csv_fields :: "extern \<Rightarrow> audit_entry \<Rightarrow> string \<Rightarrow> string list" where
  "csv_fields x e metadata =
     [csv_escape (uuid_show x (ae_id e)),
      csv_escape (or_empty (map_option (uuid_show x) (ae_session_id e))),
      csv_escape (uuid_show x (ae_workspace_id e)),
      csv_escape (or_empty (map_option (uuid_show x) (ae_agent_id e))),
      csv_escape (ae_action e), csv_escape (ae_resource e),
      csv_escape (or_empty (ae_resource_id e)), csv_escape (ae_decision e),
      csv_escape (or_empty (ae_reason e)), format_4 (ae_risk_score e),
      csv_escape (dt_rfc3339 x (ae_ts e)), csv_escape metadata]"

fun csv_join :: "string list \<Rightarrow> string" where
  "csv_join [] = [CHR 0x0A]"
| "csv_join [v] = v @ [CHR 0x0A]"
| "csv_join (v # w # vs) = v @ '','' @ csv_join (w # vs)"

text \<open>The writer is a buffer: what has been written when the export ends, with its result.\<close>

fun csv_rows :: "extern \<Rightarrow> audit_entry list \<Rightarrow> string \<Rightarrow> unit guard_result \<times> string" where
  "csv_rows x [] out = (Inr (), out)"
| "csv_rows x (e # es) out =
     (case json_to_string x (ae_metadata e) of
        Inl err \<Rightarrow> (Inl err, out)
      | Inr metadata \<Rightarrow> csv_rows x es (out @ csv_join (csv_fields x e metadata)))"

definition export_csv ::
    "extern \<Rightarrow> audit_filter \<Rightarrow> 'a db_scheme \<Rightarrow> (unit guard_result \<times> string) \<times> 'a db_scheme" where
  "export_csv x f d =
     (case query_audit_rows x f d of
        (Inl err, d') \<Rightarrow> ((Inl err, csv_header), d')
      | (Inr entries, d') \<Rightarrow> (csv_rows x entries csv_header, d'))"

section \<open>Reading CSV back\<close>

text \<open>
  A reader of quoted CSV as the export writes it: quoted fields with doubled quotes, commas between
  fields, a line feed at the end of a record. A carriage return is data to it, quoted or not (RFC 4180
  ends records with both, and would have such a field quoted). It returns the fields of the first
  record and the rest.
\<close>

text \<open>A quoted field after its opening quote: the value and the rest after the closing quote.\<close>

fun csv_quoted :: "string \<Rightarrow> (string \<times> string) option" where
  "csv_quoted [] = None"
| "csv_quoted (c # s) =
     (if c = CHR 0x22 then
        (case s of
           c' # s' \<Rightarrow> (if c' = CHR 0x22 then map_option (apfst (Cons (CHR 0x22))) (csv_quoted s')
                      else Some ([], c' # s'))
         | [] \<Rightarrow> Some ([], []))
      else map_option (apfst (Cons c)) (csv_quoted s))"

text \<open>A bare field: up to a comma or a line feed.\<close>

fun csv_bare :: "string \<Rightarrow> string \<times> string" where
  "csv_bare [] = ([], [])"
| "csv_bare (c # s) =
     (if c = CHR '','' \<or> c = CHR 0x0A then ([], c # s) else apfst (Cons c) (csv_bare s))"

definition csv_field :: "string \<Rightarrow> (string \<times> string) option" where
  "csv_field s =
     (case s of
        c # s' \<Rightarrow> (if c = CHR 0x22 then csv_quoted s' else Some (csv_bare s))
      | [] \<Rightarrow> Some ([], []))"

text \<open>The fields of one record, given how many there are.\<close>

fun csv_record :: "nat \<Rightarrow> string \<Rightarrow> (string list \<times> string) option" where
  "csv_record 0 s = None"
| "csv_record (Suc n) s =
     (case csv_field s of
        None \<Rightarrow> None
      | Some (v, rest) \<Rightarrow>
          (case rest of
             c # rest' \<Rightarrow>
               (if c = CHR 0x0A then (if n = 0 then Some ([v], rest') else None)
                else if c = CHR '','' then map_option (apfst (Cons v)) (csv_record n rest')
                else None)
           | [] \<Rightarrow> None))"

lemma str_contains_char: "str_contains v [c] \<longleftrightarrow> c \<in> set v"
  by (induction v) (auto simp: str_contains_def)

lemma csv_escape_cases:
  "csv_escape v =
     (if CHR '','' \<in> set v \<or> CHR 0x22 \<in> set v \<or> CHR 0x0A \<in> set v
      then CHR 0x22 # concat (map (\<lambda>c. if c = CHR 0x22 then [CHR 0x22, CHR 0x22] else [c]) v) @ [CHR 0x22]
      else v)"
  by (simp add: csv_escape_def str_contains_char replace_char_def)

lemma csv_quoted_escape:
  "rest = [] \<or> hd rest \<noteq> CHR 0x22 \<Longrightarrow>
     csv_quoted (concat (map (\<lambda>c. if c = CHR 0x22 then [CHR 0x22, CHR 0x22] else [c]) v) @ CHR 0x22 # rest) =
       Some (v, rest)"
  by (induction v) (auto split: list.split)

lemma csv_bare_plain:
  "CHR '','' \<notin> set v \<Longrightarrow> CHR 0x0A \<notin> set v \<Longrightarrow> c = CHR '','' \<or> c = CHR 0x0A \<Longrightarrow>
     csv_bare (v @ c # rest) = (v, c # rest)"
  by (induction v) auto

lemma csv_field_escape:
  assumes "c = CHR '','' \<or> c = CHR 0x0A"
  shows "csv_field (csv_escape v @ c # rest) = Some (v, c # rest)"
proof (cases "CHR '','' \<in> set v \<or> CHR 0x22 \<in> set v \<or> CHR 0x0A \<in> set v")
  case True
  have "csv_quoted (concat (map (\<lambda>c. if c = CHR 0x22 then [CHR 0x22, CHR 0x22] else [c]) v)
      @ CHR 0x22 # c # rest) = Some (v, c # rest)"
    by (rule csv_quoted_escape) (use assms in auto)
  with True show ?thesis by (simp add: csv_escape_cases csv_field_def)
next
  case False
  then have "csv_bare (v @ c # rest) = (v, c # rest)" using assms by (intro csv_bare_plain) auto
  with False assms show ?thesis
    by (cases v) (auto simp: csv_escape_cases csv_field_def)
qed

lemma csv_record_join:
  "csv_record (Suc (length vs)) (csv_join (map csv_escape (v # vs)) @ rest) = Some (v # vs, rest)"
proof (induction vs arbitrary: v)
  case Nil
  show ?case using csv_field_escape [of "CHR 0x0A" v rest] by simp
next
  case (Cons w ws)
  have "csv_join (map csv_escape (v # w # ws)) @ rest =
      csv_escape v @ CHR '','' # csv_join (map csv_escape (w # ws)) @ rest" by simp
  with Cons.IH [of w] csv_field_escape [of "CHR '',''" v "csv_join (map csv_escape (w # ws)) @ rest"]
  show ?case by simp
qed

section \<open>Facts\<close>

text \<open>What a filter means for an entry.\<close>

definition entry_matches :: "extern \<Rightarrow> audit_filter \<Rightarrow> audit_entry \<Rightarrow> bool" where
  "entry_matches x f e \<longleftrightarrow>
     opt_matches (\<lambda>w. ae_workspace_id e = w) (af_workspace_id f) \<and>
     opt_matches (\<lambda>s. ae_session_id e = Some s) (af_session_id f) \<and>
     opt_matches (\<lambda>d. ae_decision e = d) (af_decision f) \<and>
     opt_matches (\<lambda>t. ts_millis x t \<le> ts_millis x (ae_ts e)) (af_start_time f) \<and>
     opt_matches (\<lambda>t. ts_millis x (ae_ts e) \<le> ts_millis x t) (af_end_time f) \<and>
     opt_matches (\<lambda>v. ae_resource e = v) (af_resource f)"

lemma opt_matches_simps [simp]:
  "opt_matches P None" "opt_matches P (Some a) = P a"
  by (simp_all add: opt_matches_def)

lemma row_matches_entry:
  "uuid_laws x \<Longrightarrow> row_matches x f (entry_to_row x e m) = entry_matches x f e"
  by (auto simp: row_matches_def entry_matches_def entry_to_row_def uuid_show_inj opt_matches_def
      split: option.split)

lemma audit_columns:
  assumes "row_to_audit_entry x r = Inr e"
  shows "parse_uuid x (ar_id r) = Inr (ae_id e)"
    "opt_res (parse_uuid x) (ar_session_id r) = Inr (ae_session_id e)"
    "parse_uuid x (ar_workspace_id r) = Inr (ae_workspace_id e)"
    "ae_decision e = ar_decision r" "ae_resource e = ar_resource r"
    "from_ms x (ar_ts r) = Inr (ae_ts e)"
  using assms by (auto simp: row_to_audit_entry_def res_bind_Inr_iff)

lemma row_matches_decoded:
  assumes "row_to_audit_entry x r = Inr e" "row_matches x f r" "uuid_laws x" "chrono_laws x"
  shows "entry_matches x f e"
proof -
  note cols = audit_columns [OF assms(1)]
  have "ts_millis x (ae_ts e) = ar_ts r"
    using from_ms_Inr [OF assms(4) cols(6)] assms(4) by (simp add: ts_millis_div)
  moreover have "ae_session_id e = Some s" if "ar_session_id r = Some (uuid_show x s)" for s
    using cols(2) that assms(3) by simp
  ultimately show ?thesis using cols(3-5) assms(2,3)
    by (auto simp: row_matches_def entry_matches_def opt_matches_def split: option.splits)
qed

lemma entry_round_trip:
  assumes "uuid_laws x" "chrono_laws x" "dt_ok x (ae_ts e)" "json_rt x (ae_metadata e)"
    and "json_to_string x (ae_metadata e) = Inr m"
  shows "row_to_audit_entry x (entry_to_row x e m) =
    (if ae_risk_score e = NaN then Inl (DatabaseError (Column_decode ''risk_score''))
     else Inr (e\<lparr>ae_ts := trunc_ms (ae_ts e)\<rparr>))"
proof -
  have "json_from_str x Some m = Inr (ae_metadata e)"
    using json_rt_read [OF assms(4), of Some] assms(5) by auto
  with assms(1-3) show ?thesis
    by (simp add: row_to_audit_entry_def entry_to_row_def get_column_def from_ms_stored)
qed

lemma exec_audit_cases:
  obtains err where "exec_audit f d = (Inl err, d\<lparr>db_faults := tl (db_faults d)\<rparr>)"
  | t where "f (db_audit d) = Inr t" "next_fault d = None"
      "exec_audit f d = (Inr (), d\<lparr>db_faults := tl (db_faults d), db_audit := t\<rparr>)"
  by (cases "next_fault d"; cases "f (db_audit d)")
     (simp_all add: exec_audit_def sql_fault sql_step)

lemma write_direct_cases:
  obtains err fs where "write_direct x e d = (Inl err, d\<lparr>db_faults := fs\<rparr>)"
  | m where "json_to_string x (ae_metadata e) = Inr m" "next_fault d = None"
      "ae_id e \<notin> {i. uuid_show x i \<in> ar_id ` set (db_audit d)}"
      "write_direct x e d = (Inr (), d\<lparr>db_faults := tl (db_faults d),
         db_audit := db_audit d @ [entry_to_row x e m]\<rparr>)"
proof (cases "json_to_string x (ae_metadata e)")
  case (Inl err)
  then have "write_direct x e d = (Inl err, d\<lparr>db_faults := db_faults d\<rparr>)"
    by (simp add: write_direct_def)
  then show ?thesis by (rule that(1))
next
  case (Inr m)
  let ?f = "insert_row audit_uniques (entry_to_row x e m)"
  have w: "write_direct x e d = exec_audit ?f d" using Inr by (simp add: write_direct_def)
  show ?thesis
  proof (cases rule: exec_audit_cases [of ?f d])
    case (1 err)
    with w that(1) show ?thesis by simp
  next
    case (2 t)
    then have "t = db_audit d @ [entry_to_row x e m]" "uuid_show x (ae_id e) \<notin> ar_id ` set (db_audit d)"
      by (auto simp: insert_row_Inr audit_uniques_def entry_to_row_def)
    with 2 w that(2) [OF Inr] show ?thesis by simp
  qed
qed

lemma query_audit_step:
  "query_audit_rows x f d =
     ((case next_fault d of
         Some m \<Rightarrow> Inl (DatabaseError (Io_failure m))
       | None \<Rightarrow> map_res (row_to_audit_entry x) (query_rows x f d)), d\<lparr>db_faults := tl (db_faults d)\<rparr>)"
  by (auto simp: query_audit_rows_def act_bind_case query_step query_rows_def split: option.split)

lemma query_rows_take:
  "query_rows x f d =
     (case af_limit f of None \<Rightarrow> (\<lambda>xs. xs) | Some l \<Rightarrow> take (unat l))
       (select_rows (scan_audit d) (row_matches x f) (\<lambda>r. Desc (ar_ts r)) (db_audit d))"
  by (auto simp: query_rows_def Let_def limit_offset_def split: option.split)

lemma show_nat_chars: "c \<in> set (show_nat n) \<Longrightarrow> 48 \<le> (of_char c :: nat)"
proof (induction n rule: show_nat.induct)
  case (1 n)
  have digit: "48 \<le> (of_char (digit_char d) :: nat)" if "d < 10" for d
    using that by (simp add: digit_char_def)
  from 1 show ?case
    by (cases "n < 10") (auto simp: show_nat.simps [of n] digit)
qed

lemma format_4_plain: "csv_escape (format_4 r) = format_4 r"
proof -
  have special: "(of_char (CHR '','') :: nat) < 48" "(of_char (CHR 0x22) :: nat) < 48"
    "(of_char (CHR 0x0A) :: nat) < 48"
    by simp_all
  have digits: "CHR '','' \<notin> set (show_nat n)" "CHR 0x22 \<notin> set (show_nat n)" "CHR 0x0A \<notin> set (show_nat n)" for n
    using show_nat_chars [of _ n] special by (metis leD)+
  then have pads: "CHR '','' \<notin> set (pad4 n)" "CHR 0x22 \<notin> set (pad4 n)" "CHR 0x0A \<notin> set (pad4 n)" for n
    by (auto simp: pad4_def)
  show ?thesis
    using digits pads by (cases r) (auto simp: csv_escape_cases format_4_def Let_def)
qed

end
