(* ===== verification/Audit_Claims.thy ===== *)
theory Audit_Claims
  imports Audit_Log
begin

text \<open>The properties of the audit log: queries, round trips, the CSV export.\<close>

section \<open>Queries\<close>

text \<open>The first elements of a sorted list, and the others.\<close>

lemma sorted_wrt_take_rest:
  assumes "sorted_wrt P xs"
  shows "mset (take n xs) \<subseteq># mset xs \<and> (\<forall>b\<in>#mset xs - mset (take n xs). \<forall>a\<in>set (take n xs). P a b)"
proof -
  have "mset xs = mset (take n xs) + mset (drop n xs)"
    by (simp flip: mset_append)
  moreover have "sorted_wrt P (take n xs @ drop n xs)" using assms by simp
  then have "\<forall>a\<in>set (take n xs). \<forall>b\<in>set (drop n xs). P a b" unfolding sorted_wrt_append by blast
  ultimately show ?thesis by simp
qed

text \<open>
  C28. A query returns the decoded rows of the table that match, each as often as it is there, newest
  first, and as many as there are up to the limit; what a limit leaves out is no newer than anything
  returned. Every entry returned satisfies every part of the filter.
\<close>

theorem query_audit_sound:
  assumes "fst (query_audit_rows x f d) = Inr es" and "db_wf d" and "uuid_laws x" and "chrono_laws x"
  shows "(\<forall>e\<in>set es. entry_matches x f e) \<and> sorted_wrt (\<lambda>a b. ae_ts b \<le> ae_ts a) es \<and>
    length es = (let n = size (filter_mset (row_matches x f) (mset (db_audit d))) in
      case af_limit f of None \<Rightarrow> n | Some l \<Rightarrow> min n (unat l)) \<and>
    (\<exists>rows. map_res (row_to_audit_entry x) rows = Inr es \<and>
       mset rows \<subseteq># filter_mset (row_matches x f) (mset (db_audit d)) \<and>
       (\<forall>r\<in>#filter_mset (row_matches x f) (mset (db_audit d)) - mset rows. \<forall>k\<in>set rows. ar_ts r \<le> ar_ts k))"
proof -
  let ?all = "select_rows (scan_audit d) (row_matches x f) (\<lambda>r. Desc (ar_ts r)) (db_audit d)"
  have scan: "scan_ok (scan_audit d)" using assms(2) by (simp add: db_wf_def)
  have items: "map_res (row_to_audit_entry x) (query_rows x f d) = Inr es"
    using assms(1) by (simp add: query_audit_step split: option.splits)
  then have rows: "list_all2 (\<lambda>r e. row_to_audit_entry x r = Inr e) (query_rows x f d) es"
    by (simp add: map_res_Inr_iff)
  have sub: "set (query_rows x f d) \<subseteq> set ?all"
    by (auto simp: query_rows_take split: option.splits dest: in_set_takeD)
  have matches: "\<forall>e\<in>set es. entry_matches x f e"
  proof
    fix e assume "e \<in> set es"
    from map_res_Inr_from [OF items this] obtain r where r: "r \<in> set (query_rows x f d)"
      "row_to_audit_entry x r = Inr e" by blast
    then have "row_matches x f r" using sub scan by auto
    with r(2) show "entry_matches x f e" using assms(3,4) by (intro row_matches_decoded)
  qed
  have "sorted (map (\<lambda>r. Desc (ar_ts r)) ?all)" by (rule select_rows_sorted)
  then have newest: "sorted_wrt (\<lambda>a b. ar_ts b \<le> ar_ts a) ?all" by (simp add: sorted_wrt_map)
  then have "sorted_wrt (\<lambda>a b. ar_ts b \<le> ar_ts a) (query_rows x f d)"
    by (auto simp: query_rows_take sorted_wrt_take split: option.split)
  then have times: "sorted_wrt (\<lambda>a b. ae_ts b \<le> ae_ts a) es"
  proof (rule sorted_wrt_list_all2 [OF rows])
    fix a b c e assume "ar_ts b \<le> ar_ts a" "row_to_audit_entry x a = Inr c" "row_to_audit_entry x b = Inr e"
    then show "ae_ts e \<le> ae_ts c"
      using from_ms_Inr [OF assms(4) audit_columns(6)] by fastforce
  qed
  have "length ?all = size (filter_mset (row_matches x f) (mset (db_audit d)))"
    by (metis mset_select_rows [OF scan] size_mset)
  moreover have "length es = length (query_rows x f d)" using list_all2_lengthD [OF rows] by simp
  ultimately have size: "length es = (let n = size (filter_mset (row_matches x f) (mset (db_audit d))) in
      case af_limit f of None \<Rightarrow> n | Some l \<Rightarrow> min n (unat l))"
    by (auto simp: query_rows_take Let_def split: option.split)
  obtain n where n: "query_rows x f d = take n ?all"
    by (cases "af_limit f") (auto simp: query_rows_take intro: that [of "length ?all"])
  have "\<exists>rows. map_res (row_to_audit_entry x) rows = Inr es \<and>
      mset rows \<subseteq># filter_mset (row_matches x f) (mset (db_audit d)) \<and>
      (\<forall>r\<in>#filter_mset (row_matches x f) (mset (db_audit d)) - mset rows. \<forall>k\<in>set rows. ar_ts r \<le> ar_ts k)"
    using items sorted_wrt_take_rest [OF newest, of n]
    unfolding n mset_select_rows [OF scan] by (intro exI [of _ "take n ?all"] conjI) (assumption | blast)+
  with matches times size show ?thesis by (intro conjI)
qed

definition demo_a :: extern where
  "demo_a = demo_extern [(JObject [], ''{}'')] [] []"

definition demo_entry :: "uuid \<Rightarrow> string \<Rightarrow> datetime \<Rightarrow> audit_entry" where
  "demo_entry i reason t = \<lparr>ae_id = i, ae_session_id = Some 1, ae_workspace_id = 2, ae_agent_id = None,
     ae_action = ''read'', ae_resource = ''doc'', ae_resource_id = None, ae_decision = ''Deny'',
     ae_reason = Some reason, ae_risk_score = f64_zero, ae_metadata = JObject [], ae_ts = t\<rparr>"

definition demo_filter :: audit_filter where
  "demo_filter = \<lparr>af_workspace_id = Some 2, af_session_id = None, af_decision = None,
     af_start_time = None, af_end_time = None, af_resource = Some ''doc'', af_limit = None\<rparr>"

lemma demo_a_simps [simp]:
  "uuid_show demo_a u = replicate (unat u) (CHR ''u'')" "ts_millis demo_a t = t div 1000000"
  "parse_uuid demo_a (replicate n (CHR ''u'')) = Inr (of_nat n)"
  "uuid_laws demo_a" "chrono_laws demo_a"
  "json_to_string demo_a (JObject []) = Inr ''{}''" "json_rt demo_a (JObject [])"
  "dt_rfc3339 demo_a t = show_int t"
  by (auto simp: demo_a_def) (auto simp: demo_extern_def unary_def parse_uuid_def json_to_string_def json_rt_def)

lemma demo_a_dt_ok [simp]: "\<bar>t\<bar> \<le> 8000000000000000000000 \<Longrightarrow> dt_ok demo_a t"
  by (simp add: demo_a_def)

lemma demo_entry_row:
  "\<bar>t\<bar> \<le> 8000000000000000000000 \<Longrightarrow>
     row_to_audit_entry demo_a (entry_to_row demo_a (demo_entry i v t) ''{}'') =
       Inr (demo_entry i v (trunc_ms t))"
  using entry_round_trip [of demo_a "demo_entry i v t" "''{}''"]
  by (simp add: demo_entry_def f64_zero_def)

abbreviation demo_log :: db where
  "demo_log \<equiv> empty_db\<lparr>db_audit := [entry_to_row demo_a (demo_entry 1 ''no'' 5000000) ''{}'']\<rparr>"

lemma demo_query: "fst (query_audit_rows demo_a demo_filter demo_log) = Inr [demo_entry 1 ''no'' 5000000]"
proof -
  have "row_matches demo_a demo_filter (entry_to_row demo_a (demo_entry 1 ''no'' 5000000) ''{}'')"
    unfolding row_matches_entry [OF demo_a_simps(4)]
    by (simp add: entry_matches_def demo_filter_def demo_entry_def)
  then have "query_rows demo_a demo_filter demo_log = [entry_to_row demo_a (demo_entry 1 ''no'' 5000000) ''{}'']"
    by (simp add: query_rows_def Let_def select_rows_def empty_db_def demo_filter_def)
  then show ?thesis
    using demo_entry_row [of 5000000 1 "''no''"]
    by (simp add: query_audit_step next_fault_def empty_db_def trunc_ms_def)
qed

theorem query_audit_sound_witness:
  "entry_matches demo_a demo_filter (demo_entry 1 ''no'' 5000000)"
proof -
  have "db_wf demo_log" by (simp add: db_wf_def empty_db_def)
  from query_audit_sound [OF demo_query this demo_a_simps(4,5)] show ?thesis by simp
qed

text \<open>
  C29. An entry that was written is found: any query without a limit whose filter it satisfies returns
  it, with its time cut to milliseconds.
\<close>

theorem written_entry_is_found:
  assumes "write_direct x e d = (Inr (), d')" and "db_wf d" and "uuid_laws x" and "chrono_laws x"
    and "dt_ok x (ae_ts e)" and "json_rt x (ae_metadata e)" and "ae_risk_score e \<noteq> NaN"
    and "entry_matches x f e" and "af_limit f = None" and "fst (query_audit_rows x f d') = Inr es"
  shows "e\<lparr>ae_ts := trunc_ms (ae_ts e)\<rparr> \<in> set es"
proof (cases rule: write_direct_cases [of x e d])
  case (1 err fs)
  with assms(1) show ?thesis by simp
next
  case (2 m)
  then have d': "d' = d\<lparr>db_faults := tl (db_faults d), db_audit := db_audit d @ [entry_to_row x e m]\<rparr>"
    using assms(1) by simp
  have scan: "scan_ok (scan_audit d')" using assms(2) d' by (simp add: db_wf_def)
  have "row_matches x f (entry_to_row x e m)" using assms(3,8) by (simp add: row_matches_entry)
  then have mem: "entry_to_row x e m \<in> set (query_rows x f d')"
    using assms(9) scan d' by (simp add: query_rows_take)
  have "map_res (row_to_audit_entry x) (query_rows x f d') = Inr es"
    using assms(10) by (simp add: query_audit_step split: option.splits)
  from map_res_Inr_mem [OF this mem] obtain e' where
    "e' \<in> set es" "row_to_audit_entry x (entry_to_row x e m) = Inr e'" by blast
  then show ?thesis using entry_round_trip [OF assms(3-6) 2(1)] assms(7) by simp
qed

theorem written_entry_is_found_witness:
  "demo_entry 1 ''no'' 5000000 \<in> set [demo_entry 1 ''no'' 5000000]"
proof -
  have w: "write_direct demo_a (demo_entry 1 ''no'' 5000000) empty_db = (Inr (), demo_log)"
    by (simp add: write_direct_def act_bind_case exec_audit_def sql_healthy empty_db_def
        insert_row_def audit_uniques_def demo_entry_def)
  have m: "entry_matches demo_a demo_filter (demo_entry 1 ''no'' 5000000)"
    by (simp add: entry_matches_def demo_filter_def demo_entry_def)
  from written_entry_is_found [OF w db_wf_empty demo_a_simps(4,5) _ _ _ m _ demo_query]
  show ?thesis by (simp add: demo_entry_def demo_filter_def f64_zero_def trunc_ms_def)
qed

section \<open>Export\<close>

fun csv_records :: "nat \<Rightarrow> string \<Rightarrow> string list list option" where
  "csv_records 0 s = (if s = [] then Some [] else None)"
| "csv_records (Suc n) s =
     (case csv_record 12 s of
        None \<Rightarrow> None
      | Some (vs, rest) \<Rightarrow> map_option (Cons vs) (csv_records n rest))"

text \<open>The values of an entry's twelve columns.\<close>

definition csv_values :: "extern \<Rightarrow> audit_entry \<Rightarrow> string list" where
  "csv_values x e =
     [uuid_show x (ae_id e), or_empty (map_option (uuid_show x) (ae_session_id e)),
      uuid_show x (ae_workspace_id e), or_empty (map_option (uuid_show x) (ae_agent_id e)),
      ae_action e, ae_resource e, or_empty (ae_resource_id e), ae_decision e,
      or_empty (ae_reason e), format_4 (ae_risk_score e), dt_rfc3339 x (ae_ts e),
      projr (json_text x (ae_metadata e))]"

lemma csv_fields_values:
  "json_to_string x (ae_metadata e) = Inr m \<Longrightarrow> csv_fields x e m = map csv_escape (csv_values x e)"
  by (simp add: csv_fields_def csv_values_def format_4_plain json_to_string_Inr)

lemma csv_rows_records:
  "csv_rows x es out = (Inr (), s) \<Longrightarrow>
     \<exists>body. s = out @ body \<and> csv_records (length es) body = Some (map (csv_values x) es)"
proof (induction es arbitrary: out)
  case (Cons e es)
  then obtain m where m: "json_to_string x (ae_metadata e) = Inr m"
    "csv_rows x es (out @ csv_join (csv_fields x e m)) = (Inr (), s)"
    by (auto split: sum.splits)
  from Cons.IH [OF m(2)] obtain body where body: "s = (out @ csv_join (csv_fields x e m)) @ body"
    "csv_records (length es) body = Some (map (csv_values x) es)" by blast
  have "csv_record 12 (csv_join (map csv_escape (csv_values x e)) @ body) = Some (csv_values x e, body)"
  proof -
    obtain v vs where v: "csv_values x e = v # vs" "length vs = 11" by (simp add: csv_values_def)
    then show ?thesis using csv_record_join [of vs v body] by (simp add: eval_nat_numeral)
  qed
  then show ?case using body csv_fields_values [OF m(1)] by simp
qed simp

text \<open>
  C30. The export can be read back: after the header, a reader of quoted CSV finds one record of
  twelve fields for each entry, in order, and each field is the value it was written from, commas,
  quotes and line breaks included.
\<close>

theorem export_csv_reads_back:
  assumes "fst (query_audit_rows x f d) = Inr es" and "fst (export_csv x f d) = (Inr (), out)"
  shows "\<exists>body. out = csv_header @ body \<and> csv_records (length es) body = Some (map (csv_values x) es)"
proof -
  have "csv_rows x es csv_header = (Inr (), out)"
    using assms by (auto simp: export_csv_def split: prod.splits sum.splits)
  then show ?thesis by (rule csv_rows_records)
qed

theorem export_csv_reads_back_witness:
  "\<exists>out body. fst (export_csv demo_a demo_filter demo_log) = (Inr (), out) \<and> out = csv_header @ body \<and>
     csv_records 1 body = Some [csv_values demo_a (demo_entry 1 ''no'' 5000000)]"
proof -
  obtain d' where "query_audit_rows demo_a demo_filter demo_log = (Inr [demo_entry 1 ''no'' 5000000], d')"
    using demo_query by (metis prod.collapse)
  then have "fst (export_csv demo_a demo_filter demo_log) =
      csv_rows demo_a [demo_entry 1 ''no'' 5000000] csv_header"
    by (simp add: export_csv_def)
  then obtain out where out: "fst (export_csv demo_a demo_filter demo_log) = (Inr (), out)"
    by (simp add: demo_entry_def)
  from export_csv_reads_back [OF demo_query out] out show ?thesis by auto
qed

end
