(* ===== verification/Audit_Writer.thy ===== *)
theory Audit_Writer
  imports Audit_Claims
begin

text \<open>
  \<open>AuditWriter\<close> of \<open>src/audit/mod.rs\<close>: the bounded channel, the background task that batches, and the
  transaction that flushes a batch. One step is one iteration of the task's \<open>select!\<close> loop, one send,
  the end of the senders, or another writer's rows. An abstract log specifies it: entries are
  accepted, and the oldest pending ones are stored together or lost together.
\<close>

section \<open>State\<close>

record writer =
  wr_queue :: "audit_entry list"
  wr_capacity :: nat
  wr_batch_size :: nat
  wr_batch :: "audit_entry list"
  wr_period :: u64
  wr_running :: bool
  wr_closed :: bool

text \<open>
  \<open>AuditWriter::new\<close>. \<open>mpsc::channel\<close> panics on a capacity of zero or above its maximum.
\<close>

definition writer_new :: "bool \<Rightarrow> u64 \<Rightarrow> u64 \<Rightarrow> writer outcome" where
  "writer_new overflow_checks flush_interval batch_size =
     (let n = max 1 (unat batch_size); capacity = (n * 2) mod 2 ^ 64 in
      if (overflow_checks \<and> 2 ^ 64 \<le> n * 2) \<or> capacity = 0 \<or> 2 ^ 61 - 1 < capacity then Panicked
      else Done \<lparr>wr_queue = [], wr_capacity = capacity, wr_batch_size = n, wr_batch = [],
                 wr_period = flush_interval, wr_running = True, wr_closed = False\<rparr>)"

section \<open>Sending\<close>

text \<open>\<open>AuditWriter::write\<close>: a send waits while the channel is full and fails without a receiver.\<close>

definition audit_write :: "audit_entry \<Rightarrow> writer \<Rightarrow> unit guard_result outcome \<times> writer" where
  "audit_write e w =
     (if \<not> wr_running w then (Done (Inl AuditChannelClosed), w)
      else if length (wr_queue w) < wr_capacity w
      then (Done (Inr ()), w\<lparr>wr_queue := wr_queue w @ [e]\<rparr>)
      else (Pending, w))"

text \<open>The interface of a place that takes audit entries, and what its users can rely on.\<close>

locale audit_sink =
  fixes accept :: "'e \<Rightarrow> 's \<Rightarrow> unit guard_result outcome \<times> 's"
    and pending :: "'s \<Rightarrow> 'e list"
  assumes accepted: "accept e s = (Done (Inr ()), s') \<Longrightarrow> pending s' = pending s @ [e]"
    and refused: "accept e s = (r, s') \<Longrightarrow> r \<noteq> Done (Inr ()) \<Longrightarrow> s' = s"
begin

lemma accept_cases:
  obtains "fst (accept e s) = Done (Inr ())" "pending (snd (accept e s)) = pending s @ [e]"
  | "fst (accept e s) \<noteq> Done (Inr ())" "snd (accept e s) = s"
  using accepted refused by (metis prod.collapse)

end

interpretation writer_sink: audit_sink audit_write "\<lambda>w. wr_batch w @ wr_queue w"
  by unfold_locales (auto simp: audit_write_def split: if_splits)

section \<open>Flushing\<close>

definition begin_tx :: "('a db_scheme, unit) action" where
  "begin_tx = query (\<lambda>_. ())"

definition commit_tx :: "('a db_scheme, unit) action" where
  "commit_tx = query (\<lambda>_. ())"

text \<open>Dropping a transaction that was not committed: the table is what it was at its start.\<close>

definition rollback_to :: "'a db_scheme \<Rightarrow> 'a db_scheme \<Rightarrow> 'a db_scheme" where
  "rollback_to start d = d\<lparr>db_audit := db_audit start\<rparr>"

text \<open>\<open>flush_batch\<close>: the result and what is left in the batch, which is taken before anything fails.\<close>

definition flush_batch ::
    "extern \<Rightarrow> audit_entry list \<Rightarrow> 'a db_scheme \<Rightarrow> (unit guard_result \<times> audit_entry list) \<times> 'a db_scheme" where
  "flush_batch x batch d =
     (if batch = [] then ((Inr (), batch), d)
      else
        case begin_tx d of
          (Inl e, d1) \<Rightarrow> ((Inl e, []), d1)
        | (Inr _, d1) \<Rightarrow>
            (case act_each (write_direct x) batch d1 of
               (Inl e, d2) \<Rightarrow> ((Inl e, []), rollback_to d1 d2)
             | (Inr _, d2) \<Rightarrow>
                 (case commit_tx d2 of
                    (Inl e, d3) \<Rightarrow> ((Inl e, []), rollback_to d1 d3)
                  | (Inr _, d3) \<Rightarrow> ((Inr (), []), d3))))"

section \<open>The task\<close>

datatype writer_event =
    Accepted audit_entry
  | Flushed "audit_entry list" bool
  | Aborted "audit_entry list"
  | Quiet

definition res_ok :: "unit guard_result \<Rightarrow> bool" where
  "res_ok r = (case r of Inl _ \<Rightarrow> False | Inr _ \<Rightarrow> True)"

text \<open>\<open>let _ = flush_batch(&pool, &mut batch).await\<close>: the result is dropped.\<close>

definition worker_flush ::
    "extern \<Rightarrow> 'a db_scheme \<Rightarrow> writer \<Rightarrow> writer_event \<times> 'a db_scheme \<times> writer" where
  "worker_flush x d w =
     (case flush_batch x (wr_batch w) d of
        ((r, batch), d') \<Rightarrow> (Flushed (wr_batch w) (res_ok r), d', w\<lparr>wr_batch := batch\<rparr>))"

text \<open>The branch of \<open>rx.recv()\<close>: nothing when it is not ready, else one entry or the end.\<close>

definition worker_recv ::
    "extern \<Rightarrow> 'a db_scheme \<Rightarrow> writer \<Rightarrow> (writer_event \<times> 'a db_scheme \<times> writer) option" where
  "worker_recv x d w =
     (case wr_queue w of
        entry # queue \<Rightarrow>
          (let w' = w\<lparr>wr_queue := queue, wr_batch := wr_batch w @ [entry]\<rparr> in
           Some (if wr_batch_size w \<le> length (wr_batch w') then worker_flush x d w'
                 else (Quiet, d, w')))
      | [] \<Rightarrow>
          (if wr_closed w then
             (case worker_flush x d w of (ev, d', w') \<Rightarrow> Some (ev, d', w'\<lparr>wr_running := False\<rparr>))
           else None))"

text \<open>
  The first time the task runs, \<open>interval(flush_interval)\<close> panics when the period is zero: the task
  ends, its receiver is dropped, and with it what has been queued.
\<close>

definition worker_abort :: "writer \<Rightarrow> writer_event \<times> writer" where
  "worker_abort w =
     (Aborted (wr_batch w @ wr_queue w), w\<lparr>wr_queue := [], wr_batch := [], wr_running := False\<rparr>)"

text \<open>\<open>n\<close> rounds of the task in which the receiver is ready and the ticker is not.\<close>

fun recv_loop :: "extern \<Rightarrow> nat \<Rightarrow> 'a db_scheme \<Rightarrow> writer \<Rightarrow> 'a db_scheme \<times> writer" where
  "recv_loop x 0 d w = (d, w)"
| "recv_loop x (Suc n) d w =
     (if wr_running w \<and> wr_period w \<noteq> 0 then
        (case worker_recv x d w of
           None \<Rightarrow> (d, w)
         | Some (_, d', w') \<Rightarrow> recv_loop x n d' w')
      else (d, w))"

inductive writer_step ::
    "extern \<Rightarrow> 'a db_scheme \<times> writer \<Rightarrow> writer_event \<Rightarrow> 'a db_scheme \<times> writer \<Rightarrow> bool"
  for x where
  send: "audit_write e w = (Done (Inr ()), w') \<Longrightarrow> \<not> wr_closed w \<Longrightarrow>
    writer_step x (d, w) (Accepted e) (d, w')"
| recv: "wr_running w \<Longrightarrow> wr_period w \<noteq> 0 \<Longrightarrow> worker_recv x d w = Some (ev, d', w') \<Longrightarrow> writer_step x (d, w) ev (d', w')"
| tick: "wr_running w \<Longrightarrow> wr_period w \<noteq> 0 \<Longrightarrow> worker_flush x d w = (ev, d', w') \<Longrightarrow> writer_step x (d, w) ev (d', w')"
| abort: "wr_running w \<Longrightarrow> wr_period w = 0 \<Longrightarrow> worker_abort w = (ev, w') \<Longrightarrow> writer_step x (d, w) ev (d, w')"
| close: "writer_step x (d, w) Quiet (d, w\<lparr>wr_closed := True\<rparr>)"
| others: "db_audit d' = db_audit d @ rows \<Longrightarrow> writer_step x (d, w) Quiet (d', w)"

inductive writer_run ::
    "extern \<Rightarrow> 'a db_scheme \<times> writer \<Rightarrow> writer_event list \<Rightarrow> 'a db_scheme \<times> writer \<Rightarrow> bool"
  for x where
  start: "writer_run x s [] s"
| more: "writer_run x s evs s' \<Longrightarrow> writer_step x s' ev s'' \<Longrightarrow> writer_run x s (evs @ [ev]) s''"

inductive_cases writer_runE: "writer_run x s evs s'"

section \<open>The abstract log\<close>

text \<open>Its state is the pending entries, oldest first, and the rows of the table.\<close>

definition rows_of :: "extern \<Rightarrow> audit_entry list \<Rightarrow> audit_row list" where
  "rows_of x es = map (\<lambda>e. entry_to_row x e (projr (json_text x (ae_metadata e)))) es"

inductive log_step ::
    "extern \<Rightarrow> audit_entry list \<times> audit_row list \<Rightarrow> writer_event \<Rightarrow>
       audit_entry list \<times> audit_row list \<Rightarrow> bool"
  for x where
  accept: "log_step x (p, t) (Accepted e) (p @ [e], t)"
| store: "log_step x (es @ p, t) (Flushed es True) (p, t @ rows_of x es)"
| lose: "log_step x (es @ p, t) (Flushed es False) (p, t)"
| abandon: "log_step x (p, t) (Aborted p) ([], t)"
| internal: "log_step x (p, t) Quiet (p, t @ rows)"

inductive_simps log_step_simps:
  "log_step x s (Accepted e) s'"
  "log_step x s (Flushed es ok) s'"
  "log_step x s (Aborted es) s'"
  "log_step x s Quiet s'"

definition log_of :: "'a db_scheme \<times> writer \<Rightarrow> audit_entry list \<times> audit_row list" where
  "log_of s = (wr_batch (snd s) @ wr_queue (snd s), db_audit (fst s))"

section \<open>A flush is all or nothing\<close>

lemma write_direct_audit:
  "write_direct x e d = (Inr (), d') \<Longrightarrow> db_audit d' = db_audit d @ rows_of x [e]"
  by (cases rule: write_direct_cases [of x e d]) (auto simp: rows_of_def json_to_string_Inr)

lemma write_each_audit:
  "act_each (write_direct x) es d = (Inr (), d') \<Longrightarrow> db_audit d' = db_audit d @ rows_of x es"
proof (induction es arbitrary: d)
  case (Cons e es)
  then obtain d1 where d1: "write_direct x e d = (Inr (), d1)" "act_each (write_direct x) es d1 = (Inr (), d')"
    by (auto simp: act_bind_Inr)
  from Cons.IH [OF d1(2)] write_direct_audit [OF d1(1)] show ?case by (simp add: rows_of_def)
qed (simp add: rows_of_def)

lemma tx_audit:
  "begin_tx d = (r, d') \<Longrightarrow> db_audit d' = db_audit d"
  "commit_tx d = (r, d') \<Longrightarrow> db_audit d' = db_audit d"
  by (auto simp: begin_tx_def commit_tx_def query_step split: option.splits)

lemma flush_batch_audit:
  assumes "flush_batch x batch d = ((r, left), d')"
  shows "left = [] \<and> db_audit d' = db_audit d @ (if res_ok r then rows_of x batch else [])"
proof (cases "batch = []")
  case True
  with assms show ?thesis by (auto simp: flush_batch_def rows_of_def)
next
  case False
  then show ?thesis using assms
    by (auto simp: flush_batch_def res_ok_def rollback_to_def split: prod.splits sum.splits
        dest!: tx_audit write_each_audit)
qed

lemma worker_flush_log:
  assumes "worker_flush x d w = (ev, d', w')"
  shows "\<exists>ok. ev = Flushed (wr_batch w) ok \<and> w' = w\<lparr>wr_batch := []\<rparr> \<and>
    db_audit d' = db_audit d @ (if ok then rows_of x (wr_batch w) else [])"
  using assms flush_batch_audit [of x "wr_batch w" d]
  by (auto simp: worker_flush_def split: prod.splits)

lemma worker_flush_step:
  assumes "worker_flush x d w = (ev, d', w')"
  shows "log_step x (log_of (d, w)) ev (log_of (d', w'))"
proof -
  from worker_flush_log [OF assms] obtain ok where ok: "ev = Flushed (wr_batch w) ok"
    "w' = w\<lparr>wr_batch := []\<rparr>" "db_audit d' = db_audit d @ (if ok then rows_of x (wr_batch w) else [])"
    by blast
  then show ?thesis by (cases ok) (auto simp: log_of_def log_step_simps)
qed

lemma worker_recv_step:
  assumes "worker_recv x d w = Some (ev, d', w')"
  shows "log_step x (log_of (d, w)) ev (log_of (d', w'))"
proof (cases "wr_queue w")
  case Nil
  with assms obtain w1 where "worker_flush x d w = (ev, d', w1)" "w' = w1\<lparr>wr_running := False\<rparr>"
    by (auto simp: worker_recv_def split: if_splits prod.splits)
  with worker_flush_step [of x d w ev d' w1] show ?thesis by (simp add: log_of_def)
next
  case (Cons e q)
  let ?w = "w\<lparr>wr_queue := q, wr_batch := wr_batch w @ [e]\<rparr>"
  have same: "log_of (d, w) = log_of (d, ?w)" using Cons by (simp add: log_of_def)
  show ?thesis
  proof (cases "wr_batch_size w \<le> length (wr_batch ?w)")
    case True
    with assms Cons have "worker_flush x d ?w = (ev, d', w')" by (simp add: worker_recv_def Let_def)
    then show ?thesis unfolding same by (rule worker_flush_step)
  next
    case False
    with assms Cons have "ev = Quiet" "d' = d" "w' = ?w" by (auto simp: worker_recv_def Let_def)
    then show ?thesis using same by (auto simp: log_step_simps log_of_def intro: exI [of _ "[]"])
  qed
qed

text \<open>Every step of the writer is a step of the abstract log.\<close>

lemma writer_step_log:
  "writer_step x s ev s' \<Longrightarrow> log_step x (log_of s) ev (log_of s')"
proof (induction rule: writer_step.induct)
  case (send e w w' d)
  then have "wr_batch w' @ wr_queue w' = (wr_batch w @ wr_queue w) @ [e]"
    using writer_sink.accepted by blast
  then show ?case by (auto simp: log_of_def log_step_simps)
qed (auto simp: worker_recv_step worker_flush_step, auto simp: log_of_def log_step_simps worker_abort_def intro: exI [of _ "[]"])

end
