(* ===== verification/Writer_Claims.thy ===== *)
theory Writer_Claims
  imports Audit_Writer
begin

text \<open>
  The properties of the audit writer: it refines the abstract log, every accepted entry is accounted
  for in order, its buffers are bounded, it can always be drained, and what a failing flush loses.
\<close>

fun accepted_of :: "writer_event list \<Rightarrow> audit_entry list" where
  "accepted_of [] = []"
| "accepted_of (Accepted e # evs) = e # accepted_of evs"
| "accepted_of (_ # evs) = accepted_of evs"

fun flushed_of :: "writer_event list \<Rightarrow> audit_entry list" where
  "flushed_of [] = []"
| "flushed_of (Flushed es ok # evs) = es @ flushed_of evs"
| "flushed_of (Aborted es # evs) = es @ flushed_of evs"
| "flushed_of (_ # evs) = flushed_of evs"

fun stored_of :: "writer_event list \<Rightarrow> audit_entry list" where
  "stored_of [] = []"
| "stored_of (Flushed es ok # evs) = (if ok then es else []) @ stored_of evs"
| "stored_of (_ # evs) = stored_of evs"

lemma events_append [simp]:
  "accepted_of (evs @ evs') = accepted_of evs @ accepted_of evs'"
  "flushed_of (evs @ evs') = flushed_of evs @ flushed_of evs'"
  "stored_of (evs @ evs') = stored_of evs @ stored_of evs'"
  by (induction evs rule: accepted_of.induct; simp)+

lemma rows_of_simps [simp]:
  "rows_of x [] = []"
  "rows_of x (e # es) = entry_to_row x e (projr (json_text x (ae_metadata e))) # rows_of x es"
  "rows_of x (es @ fs) = rows_of x es @ rows_of x fs"
  by (simp_all add: rows_of_def)

lemma writer_run_append:
  "writer_run x s' evs' s'' \<Longrightarrow> writer_run x s evs s' \<Longrightarrow> writer_run x s (evs @ evs') s''"
proof (induction rule: writer_run.induct)
  case (more s1 evs2 s2 ev s3)
  from writer_run.more [OF more.IH [OF more.prems] more.hyps(2)] show ?case by simp
qed simp

lemma writer_run_one: "writer_step x s ev s' \<Longrightarrow> writer_run x s [ev] s'"
  using writer_run.more [OF writer_run.start] by fastforce

section \<open>Refinement\<close>

text \<open>
  C24. The writer refines the abstract log: seen as the pending entries (the batch, then the queue)
  and the rows of the table, each of its steps is an acceptance at the end, a storing or a losing of
  the oldest pending entries as a whole, the loss of all of them when the task panics, or rows of other
  writers.
\<close>

theorem writer_refines_log:
  assumes "writer_step x s ev s'"
  shows "log_step x (log_of s) ev (log_of s')"
  using assms by (rule writer_step_log)

section \<open>Accounting\<close>

lemma log_run_accounts:
  assumes "writer_run x s evs s'"
  shows "fst (log_of s) @ accepted_of evs = flushed_of evs @ fst (log_of s') \<and>
    subseq (snd (log_of s) @ rows_of x (stored_of evs)) (snd (log_of s'))"
  using assms
proof (induction rule: writer_run.induct)
  case (start s)
  show ?case by simp
next
  case (more s evs s' ev s'')
  have "log_step x (log_of s') ev (log_of s'')" by (rule writer_step_log [OF more.hyps(2)])
  then show ?case using more.IH
  proof cases
    case (accept p t e)
    with more.IH show ?thesis by simp
  next
    case (store es p t)
    with more.IH have "subseq (snd (log_of s) @ rows_of x (stored_of evs)) t" by simp
    then have "subseq ((snd (log_of s) @ rows_of x (stored_of evs)) @ rows_of x es) (t @ rows_of x es)"
      by (rule list_emb_append_mono) simp
    with store more.IH show ?thesis by simp
  next
    case (lose es p t)
    with more.IH show ?thesis by simp
  next
    case (abandon p t)
    with more.IH show ?thesis by simp
  next
    case (internal p t rows)
    with more.IH show ?thesis by (simp add: subseq_rev_drop_many)
  qed
qed

lemma new_run_accounts:
  assumes "writer_new oc flush_interval batch_size = Done w" "writer_run x (d, w) evs (d', w')"
  shows "accepted_of evs = flushed_of evs @ wr_batch w' @ wr_queue w' \<and>
    subseq (db_audit d @ rows_of x (stored_of evs)) (db_audit d')"
proof -
  have "wr_batch w = []" "wr_queue w = []"
    using assms(1) by (auto simp: writer_new_def Let_def split: if_splits)
  with log_run_accounts [OF assms(2)] show ?thesis by (simp add: log_of_def)
qed

text \<open>
  C25. Nothing is doubled or reordered, and nothing is lost in between: along every run of a new writer
  the accepted entries are those that a flush or a panic of the task has taken, followed by the batch
  and the queue, and the rows of the entries whose flush succeeded are in the table, after what was there, in the order accepted.
\<close>

theorem writer_accounts_for_entries:
  assumes "writer_new oc flush_interval batch_size = Done w" and "writer_run x (d, w) evs (d', w')"
  shows "accepted_of evs = flushed_of evs @ wr_batch w' @ wr_queue w' \<and>
    subseq (db_audit d @ rows_of x (stored_of evs)) (db_audit d')"
  using new_run_accounts [OF assms] .

section \<open>Bounds\<close>

definition writer_inv :: "writer \<Rightarrow> bool" where
  "writer_inv w \<longleftrightarrow> 0 < wr_batch_size w \<and> 0 < wr_capacity w \<and> length (wr_queue w) \<le> wr_capacity w \<and>
     length (wr_batch w) < wr_batch_size w \<and>
     (\<not> wr_running w \<longrightarrow> wr_batch w = [] \<and> wr_queue w = [])"

lemma writer_new_inv: "writer_new oc flush_interval batch_size = Done w \<Longrightarrow> writer_inv w"
  by (auto simp: writer_new_def writer_inv_def Let_def split: if_splits)

lemma worker_flush_inv:
  assumes "worker_flush x d w = (ev, d', w')" "0 < wr_batch_size w" "0 < wr_capacity w"
    "length (wr_queue w) \<le> wr_capacity w" "wr_running w"
  shows "writer_inv w'"
  using worker_flush_log [OF assms(1)] assms(2-5) by (auto simp: writer_inv_def)

lemma worker_recv_inv:
  assumes "worker_recv x d w = Some (ev, d', w')" "writer_inv w" "wr_running w"
  shows "writer_inv w'"
proof (cases "wr_queue w")
  case Nil
  with assms(1) obtain w1 where w1: "worker_flush x d w = (ev, d', w1)" "w' = w1\<lparr>wr_running := False\<rparr>"
    by (auto simp: worker_recv_def split: if_splits prod.splits)
  then show ?thesis
    using worker_flush_log [OF w1(1)] assms(2) Nil by (auto simp: writer_inv_def)
next
  case (Cons e q)
  let ?w = "w\<lparr>wr_queue := q, wr_batch := wr_batch w @ [e]\<rparr>"
  show ?thesis
  proof (cases "wr_batch_size w \<le> length (wr_batch ?w)")
    case True
    with assms(1) Cons have "worker_flush x d ?w = (ev, d', w')" by (simp add: worker_recv_def Let_def)
    then show ?thesis
      by (rule worker_flush_inv) (use assms(2,3) Cons in \<open>auto simp: writer_inv_def\<close>)
  next
    case False
    with assms(1) Cons have "w' = ?w" by (auto simp: worker_recv_def Let_def)
    with False assms(2,3) Cons show ?thesis by (auto simp: writer_inv_def)
  qed
qed

lemma writer_step_inv: "writer_step x s ev s' \<Longrightarrow> writer_inv (snd s) \<Longrightarrow> writer_inv (snd s')"
proof (induction rule: writer_step.induct)
  case (send e w w' d)
  then show ?case by (auto simp: audit_write_def writer_inv_def split: if_splits)
next
  case (recv w d ev d' w')
  then show ?case using worker_recv_inv [of x d w ev d' w'] by simp
next
  case (tick w d ev d' w')
  then show ?case using worker_flush_inv [of x d w ev d' w'] by (simp add: writer_inv_def)
qed (auto simp: writer_inv_def worker_abort_def)

lemma writer_run_inv: "writer_run x s evs s' \<Longrightarrow> writer_inv (snd s) \<Longrightarrow> writer_inv (snd s')"
  by (induction rule: writer_run.induct) (auto intro: writer_step_inv)

text \<open>
  The buffers are bounded: along every run the channel holds at most twice the batch size and the
  batch fewer entries than its size; when the task has ended, both are empty.
\<close>

theorem writer_buffers_bounded:
  assumes "writer_new oc flush_interval batch_size = Done w"
    and "writer_run x (d, w) evs (d', w')"
  shows "length (wr_queue w') \<le> wr_capacity w' \<and> length (wr_batch w') < wr_batch_size w' \<and>
    (\<not> wr_running w' \<longrightarrow> wr_batch w' = [] \<and> wr_queue w' = [])"
  using writer_run_inv [OF assms(2)] writer_new_inv [OF assms(1)] by (simp add: writer_inv_def)

section \<open>Draining\<close>

text \<open>Entries that the table can take.\<close>

definition storable_entries :: "extern \<Rightarrow> audit_entry list \<Rightarrow> audit_row list \<Rightarrow> bool" where
  "storable_entries x es t \<longleftrightarrow>
     distinct (map (\<lambda>e. uuid_show x (ae_id e)) es) \<and>
     (\<forall>e\<in>set es. uuid_show x (ae_id e) \<notin> ar_id ` set t \<and> (\<exists>m. json_text x (ae_metadata e) = Inr m))"

lemma rows_of_ids: "map ar_id (rows_of x es) = map (\<lambda>e. uuid_show x (ae_id e)) es"
  by (simp add: rows_of_def entry_to_row_def)

lemma write_direct_healthy:
  assumes "healthy d" "uuid_show x (ae_id e) \<notin> ar_id ` set (db_audit d)" "json_text x (ae_metadata e) = Inr m"
  shows "write_direct x e d = (Inr (), d\<lparr>db_audit := db_audit d @ rows_of x [e]\<rparr>)"
proof -
  have "insert_row audit_uniques (entry_to_row x e m) (db_audit d) = Inr (db_audit d @ [entry_to_row x e m])"
    using assms(2) by (simp add: insert_row_Inr audit_uniques_def entry_to_row_def)
  then show ?thesis using assms(1,3)
    by (simp add: write_direct_def act_bind_case json_to_string_def exec_audit_def sql_healthy rows_of_def)
qed

lemma write_each_healthy:
  "healthy d \<Longrightarrow> storable_entries x es (db_audit d) \<Longrightarrow>
     act_each (write_direct x) es d = (Inr (), d\<lparr>db_audit := db_audit d @ rows_of x es\<rparr>)"
proof (induction es arbitrary: d)
  case Nil
  then show ?case by (simp add: rows_of_def)
next
  case (Cons e es)
  let ?d = "d\<lparr>db_audit := db_audit d @ rows_of x [e]\<rparr>"
  obtain m where "json_text x (ae_metadata e) = Inr m" "uuid_show x (ae_id e) \<notin> ar_id ` set (db_audit d)"
    using Cons.prems(2) by (auto simp: storable_entries_def)
  then have "write_direct x e d = (Inr (), ?d)" by (intro write_direct_healthy Cons.prems(1))
  moreover have "storable_entries x es (db_audit ?d)"
    using Cons.prems(2)
    by (auto simp: storable_entries_def rows_of_def entry_to_row_def) (metis image_eqI)
  then have "act_each (write_direct x) es ?d = (Inr (), ?d\<lparr>db_audit := db_audit ?d @ rows_of x es\<rparr>)"
    using Cons.prems(1) by (intro Cons.IH) simp_all
  ultimately show ?case by simp
qed

lemma flush_batch_healthy:
  "healthy d \<Longrightarrow> storable_entries x batch (db_audit d) \<Longrightarrow>
     flush_batch x batch d = ((Inr (), []), d\<lparr>db_audit := db_audit d @ rows_of x batch\<rparr>)"
  by (simp add: flush_batch_def begin_tx_def commit_tx_def query_healthy write_each_healthy rows_of_def)

lemma storable_split:
  "storable_entries x (es @ fs) t \<Longrightarrow> storable_entries x es t \<and> storable_entries x fs (t @ rows_of x es)"
  by (auto simp: storable_entries_def rows_of_def entry_to_row_def) (metis IntI empty_iff image_eqI)

lemma drain_queue:
  "wr_running w \<and> wr_period w \<noteq> 0 \<Longrightarrow> wr_closed w \<Longrightarrow> healthy d \<Longrightarrow>
     storable_entries x (wr_batch w @ wr_queue w) (db_audit d) \<Longrightarrow>
     recv_loop x (Suc (length (wr_queue w))) d w =
       (d\<lparr>db_audit := db_audit d @ rows_of x (wr_batch w @ wr_queue w)\<rparr>,
        w\<lparr>wr_queue := [], wr_batch := [], wr_running := False\<rparr>)"
proof (induction "wr_queue w" arbitrary: d w)
  case Nil
  then show ?case
    by (simp add: worker_recv_def worker_flush_def flush_batch_healthy res_ok_def)
next
  case (Cons e q)
  note q = Cons.hyps(2) [symmetric]
  let ?w = "w\<lparr>wr_queue := q, wr_batch := wr_batch w @ [e]\<rparr>"
  show ?case
  proof (cases "wr_batch_size w \<le> length (wr_batch ?w)")
    case False
    then have "worker_recv x d w = Some (Quiet, d, ?w)" by (simp add: worker_recv_def q Let_def)
    moreover have "recv_loop x (Suc (length (wr_queue ?w))) d ?w =
        (d\<lparr>db_audit := db_audit d @ rows_of x (wr_batch ?w @ wr_queue ?w)\<rparr>,
         ?w\<lparr>wr_queue := [], wr_batch := [], wr_running := False\<rparr>)"
      by (rule Cons.hyps(1)) (use Cons.prems q in simp_all)
    ultimately show ?thesis using Cons.prems(1) q by simp
  next
    case True
    let ?d = "d\<lparr>db_audit := db_audit d @ rows_of x (wr_batch ?w)\<rparr>"
    have st: "storable_entries x (wr_batch ?w) (db_audit d)" "storable_entries x q (db_audit ?d)"
      using storable_split [of x "wr_batch w @ [e]" q "db_audit d"] Cons.prems(4) q by simp_all
    have "worker_recv x d w = Some (Flushed (wr_batch ?w) True, ?d, ?w\<lparr>wr_batch := []\<rparr>)"
      using True Cons.prems(3) st(1)
      by (simp add: worker_recv_def q Let_def worker_flush_def flush_batch_healthy res_ok_def)
    moreover have "recv_loop x (Suc (length (wr_queue (?w\<lparr>wr_batch := []\<rparr>)))) ?d (?w\<lparr>wr_batch := []\<rparr>) =
        (?d\<lparr>db_audit := db_audit ?d @ rows_of x (wr_batch (?w\<lparr>wr_batch := []\<rparr>) @ wr_queue (?w\<lparr>wr_batch := []\<rparr>))\<rparr>,
         ?w\<lparr>wr_batch := [], wr_queue := [], wr_batch := [], wr_running := False\<rparr>)"
      by (rule Cons.hyps(1)) (use Cons.prems q st in simp_all)
    ultimately show ?thesis using Cons.prems(1) q by simp
  qed
qed

text \<open>
  C26. A writer whose senders are gone drains: with a database that works and can take the pending
  entries, as many rounds as entries are queued, and one more, end the task with nothing pending, and
  each entry that was pending has its row, in order.
\<close>

theorem writer_drains:
  assumes "wr_running w \<and> wr_period w \<noteq> 0" and "wr_closed w" and "healthy d"
    and "storable_entries x (wr_batch w @ wr_queue w) (db_audit d)"
  shows "\<exists>d' w'. recv_loop x (Suc (length (wr_queue w))) d w = (d', w') \<and>
    \<not> wr_running w' \<and> wr_batch w' = [] \<and> wr_queue w' = [] \<and>
    db_audit d' = db_audit d @ rows_of x (wr_batch w @ wr_queue w)"
  using drain_queue [OF assms] by (intro exI) (auto simp del: recv_loop.simps)

section \<open>Instances\<close>

definition demo_writer :: "audit_entry list \<Rightarrow> writer" where
  "demo_writer q = \<lparr>wr_queue = q, wr_capacity = 2, wr_batch_size = 1, wr_batch = [], wr_period = 100,
     wr_running = True, wr_closed = False\<rparr>"

abbreviation demo_e :: audit_entry where
  "demo_e \<equiv> demo_entry 1 ''no'' 5000000"

lemma demo_writer_new: "writer_new False 100 1 = Done (demo_writer [])"
  by (simp add: writer_new_def Let_def demo_writer_def)

lemma demo_accept: "writer_step demo_a (d, demo_writer []) (Accepted demo_e) (d, demo_writer [demo_e])"
  by (rule send) (simp_all add: audit_write_def demo_writer_def)

lemma demo_flush:
  "writer_step demo_a (empty_db, demo_writer [demo_e]) (Flushed [demo_e] True) (demo_log, demo_writer [])"
proof (rule recv)
  have "storable_entries demo_a [demo_e] (db_audit empty_db)"
    by (simp add: storable_entries_def empty_db_def demo_entry_def demo_a_def demo_extern_def)
  then have "flush_batch demo_a [demo_e] empty_db =
      ((Inr (), []), empty_db\<lparr>db_audit := db_audit empty_db @ rows_of demo_a [demo_e]\<rparr>)"
    by (intro flush_batch_healthy) (simp_all add: empty_db_def)
  moreover have "rows_of demo_a [demo_e] = [entry_to_row demo_a demo_e ''{}'']"
    by (simp add: demo_entry_def demo_a_def demo_extern_def)
  ultimately show "worker_recv demo_a empty_db (demo_writer [demo_e]) =
      Some (Flushed [demo_e] True, demo_log, demo_writer [])"
    by (simp add: worker_recv_def demo_writer_def Let_def worker_flush_def res_ok_def empty_db_def)
qed (simp_all add: demo_writer_def)

lemma demo_run:
  "writer_run demo_a (empty_db, demo_writer []) [Accepted demo_e, Flushed [demo_e] True]
     (demo_log, demo_writer [])"
  using writer_run_append [OF writer_run_one [OF demo_flush] writer_run_one [OF demo_accept]] by simp

theorem writer_refines_log_witness:
  "log_step demo_a (log_of (empty_db, demo_writer [demo_e])) (Flushed [demo_e] True)
     (log_of (demo_log, demo_writer []))"
  using demo_flush by (rule writer_refines_log)

theorem writer_accounts_for_entries_witness:
  "subseq (rows_of demo_a [demo_e]) (db_audit demo_log)"
  using writer_accounts_for_entries [OF demo_writer_new demo_run]
  by (simp add: empty_db_def del: rows_of_simps)

theorem writer_buffers_bounded_witness:
  "length (wr_queue (demo_writer [])) \<le> wr_capacity (demo_writer [])"
  using writer_buffers_bounded [OF demo_writer_new demo_run] by simp

theorem writer_drains_witness:
  "\<exists>d' w'. recv_loop demo_a 2 empty_db (demo_writer [demo_e]\<lparr>wr_closed := True\<rparr>) = (d', w') \<and>
     \<not> wr_running w' \<and> db_audit d' = rows_of demo_a [demo_e]"
proof -
  let ?w = "demo_writer [demo_e]\<lparr>wr_closed := True\<rparr>"
  have "storable_entries demo_a (wr_batch ?w @ wr_queue ?w) (db_audit empty_db)"
    by (simp add: storable_entries_def demo_writer_def empty_db_def demo_entry_def demo_a_def demo_extern_def)
  moreover have "wr_running ?w \<and> wr_period ?w \<noteq> 0" "wr_closed ?w" by (simp_all add: demo_writer_def)
  moreover have "healthy empty_db" by (simp add: empty_db_def)
  ultimately obtain d' w' where "recv_loop demo_a (Suc (length (wr_queue ?w))) empty_db ?w = (d', w')"
    "\<not> wr_running w'" "db_audit d' = db_audit empty_db @ rows_of demo_a (wr_batch ?w @ wr_queue ?w)"
    using writer_drains by blast
  moreover have "wr_batch ?w @ wr_queue ?w = [demo_e]" "Suc (length (wr_queue ?w)) = 2" "db_audit empty_db = []"
    by (simp_all add: demo_writer_def empty_db_def)
  ultimately show ?thesis by (metis append_Nil)
qed

section \<open>Losing entries\<close>

lemma stored_subseq: "subseq (stored_of evs) (flushed_of evs)"
proof (induction evs rule: stored_of.induct)
  case (2 es ok evs)
  then show ?case by (cases ok) (simp_all add: subseq_rev_drop_many list_emb_append_mono subseq_drop_many)
qed (simp_all add: subseq_drop_many)

text \<open>The period is the one the writer was made with.\<close>

lemma flush_period: "worker_flush x d w = (ev, d', w') \<Longrightarrow> wr_period w' = wr_period w"
  by (auto dest: worker_flush_log)

lemma writer_step_period: "writer_step x s ev s' \<Longrightarrow> wr_period (snd s') = wr_period (snd s)"
proof (induction rule: writer_step.induct)
  case (recv w d ev d' w')
  then show ?case
    by (auto simp: worker_recv_def Let_def dest: flush_period split: list.splits if_splits prod.splits)
qed (auto simp: audit_write_def worker_abort_def dest: flush_period split: if_splits)

lemma writer_run_period: "writer_run x s evs s' \<Longrightarrow> wr_period (snd s') = wr_period (snd s)"
  by (induction rule: writer_run.induct) (auto dest: writer_step_period)

lemma writer_period:
  assumes "writer_new oc flush_interval batch_size = Done w0" "writer_run x (d0, w0) evs (d, w)"
  shows "wr_period w = flush_interval"
  using writer_run_period [OF assms(2)] assms(1) by (auto simp: writer_new_def Let_def split: if_splits)

text \<open>What is stored later was pending or is accepted later.\<close>

lemma stored_later:
  assumes "writer_run x s evs s'"
  shows "subseq (stored_of evs) (wr_batch (snd s) @ wr_queue (snd s) @ accepted_of evs)"
proof -
  have "wr_batch (snd s) @ wr_queue (snd s) @ accepted_of evs = flushed_of evs @ fst (log_of s')"
    using log_run_accounts [OF assms] by (simp add: log_of_def)
  then show ?thesis using stored_subseq [of evs] by (simp add: subseq_rev_drop_many)
qed

lemma flush_step_busy:
  assumes "writer_step x (d, w) (Flushed es ok) (d', w')" "next_fault d = Some m" "es \<noteq> []"
  shows "\<not> ok"
proof -
  have "\<not> ok" if "worker_flush x d v = (Flushed es ok, d', v')" for v v'
    using that assms(2,3)
    by (auto simp: worker_flush_def flush_batch_def begin_tx_def query_step res_ok_def
        split: if_splits prod.splits)
  with assms(1) show ?thesis
    by cases (auto simp: worker_recv_def Let_def worker_abort_def split: list.splits if_splits prod.splits)
qed

text \<open>
  C27. An accepted entry can be lost without a trace, its write having returned success. Whenever the
  transaction of a flush cannot begin (a busy database, say) or the flush fails otherwise, the entries
  taken for it are gone: the accepted entries are those taken before, these, and what is still
  pending, the table is what it was, and whatever the writer stores later was still pending or is
  accepted later. With a busy database every tick does this to a batch that is not empty. And when
  the flush interval is zero, which \<open>from_env\<close> accepts, the task panics when it first runs and loses
  all that is pending.
\<close>

theorem failed_flush_loses_entries:
  assumes "writer_new oc flush_interval batch_size = Done w0" and "writer_run x (d0, w0) evs (d, w)"
  shows "(\<forall>es ok d' w'. writer_step x (d, w) (Flushed es ok) (d', w') \<and> es \<noteq> [] \<and>
        (next_fault d \<noteq> None \<or> \<not> ok) \<longrightarrow>
      \<not> ok \<and> db_audit d' = db_audit d \<and>
      accepted_of evs = flushed_of evs @ es @ wr_batch w' @ wr_queue w' \<and>
      (\<forall>evs' s'. writer_run x (d', w') evs' s' \<longrightarrow>
         subseq (stored_of evs') (wr_batch w' @ wr_queue w' @ accepted_of evs'))) \<and>
    (next_fault d \<noteq> None \<and> wr_running w \<and> flush_interval \<noteq> 0 \<and> wr_batch w \<noteq> [] \<longrightarrow>
      (\<exists>d' w'. writer_step x (d, w) (Flushed (wr_batch w) False) (d', w') \<and>
         wr_batch w' = [] \<and> wr_queue w' = wr_queue w)) \<and>
    (wr_running w \<and> flush_interval = 0 \<longrightarrow>
      (\<exists>w'. writer_step x (d, w) (Aborted (wr_batch w @ wr_queue w)) (d, w') \<and>
         wr_batch w' = [] \<and> wr_queue w' = [] \<and> \<not> wr_running w'))"
proof (intro conjI allI impI)
  fix es ok d' w'
  assume step: "writer_step x (d, w) (Flushed es ok) (d', w') \<and> es \<noteq> [] \<and> (next_fault d \<noteq> None \<or> \<not> ok)"
  then show failed: "\<not> ok" using flush_step_busy by blast
  from step have "log_step x (log_of (d, w)) (Flushed es ok) (log_of (d', w'))"
    by (blast intro: writer_step_log)
  with failed have "wr_batch w @ wr_queue w = es @ wr_batch w' @ wr_queue w' \<and> db_audit d' = db_audit d"
    by (auto simp: log_of_def log_step_simps)
  then show "db_audit d' = db_audit d"
    "accepted_of evs = flushed_of evs @ es @ wr_batch w' @ wr_queue w'"
    using new_run_accounts [OF assms] by simp_all
  show "subseq (stored_of evs') (wr_batch w' @ wr_queue w' @ accepted_of evs')"
    if "writer_run x (d', w') evs' s'" for evs' s'
    using stored_later [OF that] by simp
next
  assume busy: "next_fault d \<noteq> None \<and> wr_running w \<and> flush_interval \<noteq> 0 \<and> wr_batch w \<noteq> []"
  show "\<exists>d' w'. writer_step x (d, w) (Flushed (wr_batch w) False) (d', w') \<and>
      wr_batch w' = [] \<and> wr_queue w' = wr_queue w"
  proof (intro exI conjI)
    show "writer_step x (d, w) (Flushed (wr_batch w) False) (d\<lparr>db_faults := tl (db_faults d)\<rparr>, w\<lparr>wr_batch := []\<rparr>)"
      using busy writer_period [OF assms]
      by (intro tick) (auto simp: worker_flush_def flush_batch_def begin_tx_def query_step res_ok_def)
  qed simp_all
next
  assume "wr_running w \<and> flush_interval = 0"
  then show "\<exists>w'. writer_step x (d, w) (Aborted (wr_batch w @ wr_queue w)) (d, w') \<and>
      wr_batch w' = [] \<and> wr_queue w' = [] \<and> \<not> wr_running w'"
    using writer_period [OF assms] abort [of w _ _ x d]
    by (intro exI [of _ "w\<lparr>wr_queue := [], wr_batch := [], wr_running := False\<rparr>"])
       (simp add: worker_abort_def)
qed

definition busy_db :: db where
  "busy_db = empty_db\<lparr>db_faults := [Some ''database is locked'']\<rparr>"

theorem failed_flush_loses_entries_witness:
  "\<exists>w d' w'. writer_new False 100 2 = Done w \<and>
     writer_run demo_a (busy_db, w) [Accepted demo_e, Quiet, Flushed [demo_e] False] (d', w') \<and>
     wr_batch w' = [] \<and> wr_queue w' = []"
proof -
  let ?w = "\<lambda>b q. \<lparr>wr_queue = q, wr_capacity = 4, wr_batch_size = 2, wr_batch = b, wr_period = 100,
     wr_running = True, wr_closed = False\<rparr>"
  have new: "writer_new False 100 2 = Done (?w [] [])" by (simp add: writer_new_def Let_def)
  have "writer_step demo_a (busy_db, ?w [] []) (Accepted demo_e) (busy_db, ?w [] [demo_e])"
    by (rule send) (simp_all add: audit_write_def)
  moreover have "writer_step demo_a (busy_db, ?w [] [demo_e]) Quiet (busy_db, ?w [demo_e] [])"
    by (rule recv) (simp_all add: worker_recv_def)
  ultimately have run: "writer_run demo_a (busy_db, ?w [] []) ([Accepted demo_e] @ [Quiet]) (busy_db, ?w [demo_e] [])"
    by (blast intro: writer_run_append writer_run_one)
  have "next_fault busy_db \<noteq> None" by (simp add: busy_db_def next_fault_def)
  with failed_flush_loses_entries [OF new run] obtain d' w' where
    step: "writer_step demo_a (busy_db, ?w [demo_e] []) (Flushed [demo_e] False) (d', w')"
      "wr_batch w' = [] \<and> wr_queue w' = []" by auto
  from writer_run.more [OF run step(1)] step(2) new show ?thesis by auto
qed

end
