(* ===== verification/Guard.thy ===== *)
theory Guard
  imports Policy_Race Risk_Score Keys Session_Claims Writer_Claims
begin

text \<open>
  \<open>Guard\<close> of \<open>src/guard.rs\<close>: the state of all the services over one database, and the access check
  that puts them together - session check, risk, policy evaluation, audit. The clock readings, the
  fresh identifier and the local hour are arguments.
\<close>

section \<open>State\<close>

record guard_state = engine +
  gd_writer :: writer

text \<open>
  \<open>Guard::new\<close> over a database that is open and migrated: \<open>dir\<close> is what the policy directory holds.
\<close>

definition guard_new ::
    "extern \<Rightarrow> bool \<Rightarrow> guard_config \<Rightarrow> (nat \<Rightarrow> nat \<Rightarrow> uuid \<times> datetime) \<Rightarrow>
       (string + (string + policy_entry) list) option \<Rightarrow> db \<Rightarrow> guard_state guard_result outcome" where
  "guard_new x overflow_checks cfg draw dir d =
     (case (case policy_dir cfg of
              None \<Rightarrow> (Inr 0, engine_new d)
            | Some _ \<Rightarrow> load_from_dir x draw dir (engine_new d)) of
        (Inl e, _) \<Rightarrow> Done (Inl e)
      | (Inr _, e) \<Rightarrow>
          (case writer_new overflow_checks (audit_flush_interval_ms cfg) (audit_batch_size cfg) of
             Done w \<Rightarrow> Done (Inr (engine.extend e (guard_state.fields w)))
           | Panicked \<Rightarrow> Panicked
           | Pending \<Rightarrow> Pending))"

section \<open>Writing the audit entry\<close>

definition decide_entry :: "audit_entry \<Rightarrow> policy_decision \<Rightarrow> f64 \<Rightarrow> audit_entry" where
  "decide_entry entry decision risk_score =
     (case decision of
        Allow \<Rightarrow> entry\<lparr>ae_decision := ''Allow''\<rparr>
      | Deny reason \<Rightarrow> entry\<lparr>ae_decision := ''Deny'', ae_reason := Some reason\<rparr>
      | Mask masked \<Rightarrow> entry\<lparr>ae_decision := ''Mask'',
          ae_metadata := JObject [(''fields'', JArray (map JString masked))]\<rparr>)
     \<lparr>ae_risk_score := risk_score\<rparr>"

text \<open>Queue the entry, or write it directly when the channel is closed.\<close>

definition write_audit ::
    "extern \<Rightarrow> audit_entry \<Rightarrow> policy_decision \<Rightarrow> f64 \<Rightarrow> 'a guard_state_scheme \<Rightarrow>
       unit guard_result outcome \<times> 'a guard_state_scheme" where
  "write_audit x entry decision risk_score g =
     (let e = decide_entry entry decision risk_score in
      case audit_write e (gd_writer g) of
        (Done (Inr _), w) \<Rightarrow> (Done (Inr ()), g\<lparr>gd_writer := w\<rparr>)
      | (Done (Inl _), w) \<Rightarrow> (case write_direct x e (g\<lparr>gd_writer := w\<rparr>) of (r, g') \<Rightarrow> (Done r, g'))
      | (Panicked, w) \<Rightarrow> (Panicked, g\<lparr>gd_writer := w\<rparr>)
      | (Pending, w) \<Rightarrow> (Pending, g\<lparr>gd_writer := w\<rparr>))"

section \<open>The access check\<close>

definition base_entry ::
    "uuid \<Rightarrow> datetime \<Rightarrow> guard_session \<Rightarrow> string \<Rightarrow> string \<Rightarrow> audit_entry" where
  "base_entry new_id ts session action resource =
     \<lparr>ae_id = new_id, ae_session_id = Some (gs_id session), ae_workspace_id = gs_workspace_id session,
      ae_agent_id = Some (gs_agent_id session), ae_action = action, ae_resource = resource,
      ae_resource_id = None, ae_decision = [], ae_reason = None, ae_risk_score = f64_zero,
      ae_metadata = JObject [], ae_ts = ts\<rparr>"

definition access_context :: "guard_session \<Rightarrow> string \<Rightarrow> string \<Rightarrow> string \<Rightarrow> eval_context" where
  "access_context session action resource task =
     \<lparr>ec_agent_id = gs_agent_id session, ec_workspace_id = gs_workspace_id session,
      ec_role = gs_role session, ec_scopes = gs_scopes session, ec_task = task,
      ec_resource = resource, ec_action = action, ec_risk_score = f64_zero\<rparr>"

text \<open>The context that is evaluated: the one above with its own risk score.\<close>

definition scored_context ::
    "guard_config \<Rightarrow> u8 \<Rightarrow> guard_session \<Rightarrow> string \<Rightarrow> string \<Rightarrow> string \<Rightarrow> eval_context" where
  "scored_context cfg hour session action resource task =
     (let ctx = access_context session action resource task in
      ctx\<lparr>ec_risk_score := compute_risk cfg hour ctx\<rparr>)"

definition check_access_with_task ::
    "extern \<Rightarrow> guard_config \<Rightarrow> uuid \<Rightarrow> datetime \<Rightarrow> datetime \<Rightarrow> u8 \<Rightarrow> guard_session \<Rightarrow>
       string \<Rightarrow> string \<Rightarrow> string \<Rightarrow> 'a guard_state_scheme \<Rightarrow>
       policy_decision guard_result outcome \<times> 'a guard_state_scheme" where
  "check_access_with_task x cfg new_id ts now hour session action resource task g =
     (let entry = base_entry new_id ts session action resource in
      case assert_session_active x now session g of
        (Inr _, g1) \<Rightarrow>
          (let ctx = scored_context cfg hour session action resource task in
           case evaluate x ctx g1 of
             (Inl e, g2) \<Rightarrow> (Done (Inl e), g2)
           | (Inr decision, g2) \<Rightarrow>
               (case write_audit x entry decision (ec_risk_score ctx) g2 of
                  (Done (Inr _), g3) \<Rightarrow> (Done (Inr decision), g3)
                | (Done (Inl e), g3) \<Rightarrow> (Done (Inl e), g3)
                | (Panicked, g3) \<Rightarrow> (Panicked, g3)
                | (Pending, g3) \<Rightarrow> (Pending, g3)))
      | (Inl err, g1) \<Rightarrow>
          (case write_audit x entry (Deny (error_to_string (sqlx_display x) err)) f64_one g1 of
             (Done (Inr _), g2) \<Rightarrow> (Done (Inl err), g2)
           | (Done (Inl e), g2) \<Rightarrow> (Done (Inl e), g2)
           | (Panicked, g2) \<Rightarrow> (Panicked, g2)
           | (Pending, g2) \<Rightarrow> (Pending, g2)))"

definition check_access ::
    "extern \<Rightarrow> guard_config \<Rightarrow> uuid \<Rightarrow> datetime \<Rightarrow> datetime \<Rightarrow> u8 \<Rightarrow> guard_session \<Rightarrow>
       string \<Rightarrow> string \<Rightarrow> 'a guard_state_scheme \<Rightarrow>
       policy_decision guard_result outcome \<times> 'a guard_state_scheme" where
  "check_access x cfg new_id ts now hour session action resource =
     check_access_with_task x cfg new_id ts now hour session action resource action"

definition check_tool_permission :: "guard_session \<Rightarrow> string \<Rightarrow> bool" where
  "check_tool_permission session tool_name =
     list_ex (\<lambda>scope. scope = ''tool:*'' \<or> scope = ''tool:'' @ tool_name) (gs_scopes session)"

definition query_audit :: "extern \<Rightarrow> audit_filter \<Rightarrow> ('a db_scheme, audit_entry list) action" where
  "query_audit x f = query_audit_rows x f"

section \<open>What reaches the log\<close>

text \<open>The log of a state: its pending entries and its rows.\<close>

definition guard_log :: "'a guard_state_scheme \<Rightarrow> audit_row list \<times> writer" where
  "guard_log g = (db_audit g, gd_writer g)"

text \<open>Operations that leave the log alone; the access check audits around them.\<close>

locale audit_neutral =
  fixes run :: "('a guard_state_scheme, 'v) action"
  assumes neutral: "guard_log (snd (run g)) = guard_log g"
begin

lemma neutral_step: "run g = (r, g') \<Longrightarrow> guard_log g' = guard_log g"
  using neutral [of g] by simp

end

interpretation session_neutral: audit_neutral "assert_session_active x now session" for x now session
  by unfold_locales (simp add: assert_session_active_step guard_log_def)

lemma engine_frame_log:
  fixes g g' :: "'a guard_state_scheme"
  assumes "engine_frame g g'"
  shows "guard_log g' = guard_log g"
  using assms by (cases g; cases g') (simp add: engine_frame_def guard_log_def)

interpretation policy_neutral: audit_neutral "evaluate x ctx" for x ctx
  by unfold_locales (rule engine_frame_log [OF evaluate_op.frame])

text \<open>An entry has been logged: it is the last one pending, or its row is the last of the table.\<close>

definition logged ::
    "extern \<Rightarrow> 'a guard_state_scheme \<Rightarrow> 'a guard_state_scheme \<Rightarrow> audit_entry \<Rightarrow> bool" where
  "logged x g g' e \<longleftrightarrow>
     (wr_running (gd_writer g) \<and> db_audit g' = db_audit g \<and>
        gd_writer g' = (gd_writer g)\<lparr>wr_queue := wr_queue (gd_writer g) @ [e]\<rparr>) \<or>
     (\<not> wr_running (gd_writer g) \<and> gd_writer g' = gd_writer g \<and> db_audit g' = db_audit g @ rows_of x [e])"

lemma write_audit_logged:
  assumes "write_audit x entry decision risk g = (Done (Inr ()), g')"
  shows "logged x g g' (decide_entry entry decision risk)"
proof (cases "wr_running (gd_writer g)")
  case True
  with assms show ?thesis
    by (auto simp: write_audit_def Let_def audit_write_def logged_def split: if_splits)
next
  case False
  with assms have "write_direct x (decide_entry entry decision risk) (g\<lparr>gd_writer := gd_writer g\<rparr>) = (Inr (), g')"
    by (auto simp: write_audit_def Let_def audit_write_def split: prod.splits)
  with False show ?thesis
    by (cases rule: write_direct_cases [of x "decide_entry entry decision risk" "g\<lparr>gd_writer := gd_writer g\<rparr>"])
       (auto simp: logged_def json_to_string_Inr)
qed

lemma logged_cong: "guard_log g1 = guard_log g \<Longrightarrow> logged x g1 g' e = logged x g g' e"
  by (auto simp: logged_def guard_log_def)

text \<open>How a check that returns has come to its result.\<close>

lemma check_access_Done:
  assumes "check_access_with_task x cfg i ts now hour s action resource task g = (Done r, g')"
  obtains
    (session_error) err g1 where "assert_session_active x now s g = (Inl err, g1)"
      "r = Inl err" "logged x g g' (decide_entry (base_entry i ts s action resource)
          (Deny (error_to_string (sqlx_display x) err)) f64_one)"
  | (policy_error) err g1 where "assert_session_active x now s g = (Inr (), g1)"
      "evaluate x (scored_context cfg hour s action resource task) g1 = (Inl err, g')"
      "r = Inl err" "guard_log g' = guard_log g"
  | (decided) decision g1 g2 where "assert_session_active x now s g = (Inr (), g1)"
      "evaluate x (scored_context cfg hour s action resource task) g1 = (Inr decision, g2)"
      "r = Inr decision"
      "logged x g g' (decide_entry (base_entry i ts s action resource) decision
          (ec_risk_score (scored_context cfg hour s action resource task)))"
  | (audit_error) err where "r = Inl err" "\<not> wr_running (gd_writer g)" "guard_log g' = guard_log g"
proof (cases "assert_session_active x now s g")
  case (Pair rs g1)
  have log1: "guard_log g1 = guard_log g" using session_neutral.neutral_step [OF Pair] .
  let ?e = "base_entry i ts s action resource"
  let ?ctx = "scored_context cfg hour s action resource task"
  have fail: "\<not> wr_running (gd_writer g) \<and> guard_log g3 = guard_log g"
    if "write_audit x ?e d risk g2 = (Done (Inl e), g3)" "guard_log g2 = guard_log g" for d risk g2 g3 e
  proof -
    from that have run: "\<not> wr_running (gd_writer g2)"
      by (auto simp: write_audit_def Let_def audit_write_def split: if_splits)
    with that(1) have "write_direct x (decide_entry ?e d risk) (g2\<lparr>gd_writer := gd_writer g2\<rparr>) = (Inl e, g3)"
      by (auto simp: write_audit_def Let_def audit_write_def split: prod.splits)
    then have "guard_log g3 = guard_log g2"
      by (cases rule: write_direct_cases [of x "decide_entry ?e d risk" "g2\<lparr>gd_writer := gd_writer g2\<rparr>"])
         (auto simp: guard_log_def)
    with run that(2) show ?thesis by (simp add: guard_log_def)
  qed
  show thesis
  proof (cases rs)
    case (Inl err)
    let ?w = "write_audit x ?e (Deny (error_to_string (sqlx_display x) err)) f64_one g1"
    from assms Pair Inl consider "?w = (Done (Inr ()), g')" "r = Inl err"
      | e where "?w = (Done (Inl e), g')" "r = Inl e"
      by (auto simp: check_access_with_task_def Let_def split: prod.splits outcome.splits sum.splits)
    then show thesis
    proof cases
      case 1
      then show thesis
        using session_error [of err g1] Pair Inl write_audit_logged [OF 1(1)] logged_cong [OF log1] by simp
    next
      case (2 e)
      then show thesis using audit_error fail [OF 2(1) log1] by blast
    qed
  next
    case u: (Inr u)
    obtain rd g2 where ev: "evaluate x ?ctx g1 = (rd, g2)" by (cases "evaluate x ?ctx g1")
    have log2: "guard_log g2 = guard_log g" using policy_neutral.neutral_step [OF ev] log1 by simp
    show thesis
    proof (cases rd)
      case (Inl err)
      have "check_access_with_task x cfg i ts now hour s action resource task g = (Done (Inl err), g2)"
        by (simp add: check_access_with_task_def Let_def Pair u ev Inl)
      then have out: "r = Inl err" "g' = g2" using assms by simp_all
      show thesis
        by (rule policy_error [of g1 err]) (use Pair u ev Inl out log2 in simp_all)
    next
      case (Inr decision)
      let ?w = "write_audit x ?e decision (ec_risk_score ?ctx) g2"
      from assms Pair u ev Inr consider "?w = (Done (Inr ()), g')" "r = Inr decision"
        | e where "?w = (Done (Inl e), g')" "r = Inl e"
        by (auto simp: check_access_with_task_def Let_def split: prod.splits outcome.splits sum.splits)
      then show thesis
      proof cases
        case 1
        then show thesis
          using decided [of g1 decision g2] Pair u ev Inr write_audit_logged [OF 1(1)]
            logged_cong [OF log2] by simp
      next
        case (2 e)
        then show thesis using audit_error fail [OF 2(1) log2] by blast
      qed
    qed
  qed
qed

end
