(* ===== verification/Grpc.thy ===== *)
theory Grpc
  imports Guard
begin

text \<open>
  The gRPC service of \<open>src/grpc.rs\<close>: requests and responses as records, one definition per handler.
  A handler returns a response or a status; \<open>outcome\<close> covers the panics and waits of the guard.
\<close>

section \<open>Messages\<close>

record check_access_request =
  car_session_token :: string
  car_action :: string
  car_resource :: string
  car_task :: string

record check_access_response =
  cap_decision :: string
  cap_reason :: string
  cap_masked_fields :: "string list"

record create_session_request =
  csr_agent_id :: string
  csr_workspace_id :: string
  csr_role :: string
  csr_scopes :: "string list"
  csr_ttl_secs :: int

record session_message =
  sm_session_id :: string
  sm_agent_id :: string
  sm_workspace_id :: string
  sm_role :: string
  sm_scopes :: "string list"
  sm_expires_at :: int

record create_session_response = session_message +
  csp_token :: string

record validate_session_response = session_message +
  vsp_valid :: bool

record policy_message =
  pm_id :: string
  pm_name :: string
  pm_description :: string
  pm_priority :: int
  pm_enabled :: bool
  pm_rules_json :: string

record query_audit_log_request =
  qr_workspace_id :: string
  qr_session_id :: string
  qr_decision :: string
  qr_start_ts :: int
  qr_end_ts :: int
  qr_resource :: string
  qr_limit :: "32 word"

record audit_entry_message =
  am_id :: string
  am_session_id :: string
  am_workspace_id :: string
  am_agent_id :: string
  am_action :: string
  am_resource :: string
  am_resource_id :: string
  am_decision :: string
  am_reason :: string
  am_risk_score :: f64
  am_metadata_json :: string
  am_ts :: int

type_synonym 'a rpc = "status + 'a"

section \<open>Helpers\<close>

definition invalid_argument :: "string \<Rightarrow> status" where
  "invalid_argument message = \<lparr>st_code = Invalid_argument, st_message = message\<rparr>"

text \<open>The \<open>?\<close> that turns a \<open>GuardError\<close> into a status.\<close>

definition to_rpc :: "extern \<Rightarrow> 'a guard_result \<Rightarrow> 'a rpc" where
  "to_rpc x r = (case r of Inl e \<Rightarrow> Inl (status_of_error (sqlx_display x) e) | Inr v \<Rightarrow> Inr v)"

definition rpc_uuid :: "extern \<Rightarrow> string \<Rightarrow> uuid rpc" where
  "rpc_uuid x s = (case uuid_parse x s of Inl m \<Rightarrow> Inl (invalid_argument m) | Inr u \<Rightarrow> Inr u)"

definition parse_optional_uuid :: "extern \<Rightarrow> string \<Rightarrow> uuid option rpc" where
  "parse_optional_uuid x s =
     (if s = [] then Inr None
      else case rpc_uuid x s of Inl st \<Rightarrow> Inl st | Inr u \<Rightarrow> Inr (Some u))"

definition from_secs :: "extern \<Rightarrow> int \<Rightarrow> datetime rpc" where
  "from_secs x s = ok_or (invalid_argument ''invalid timestamp'') (dt_from_secs x s)"

definition policy_to_proto :: "extern \<Rightarrow> policy \<Rightarrow> policy_message rpc" where
  "policy_to_proto x p =
     (case json_text x (enc_rules x (p_rules p)) of
        Inl m \<Rightarrow> Inl \<lparr>st_code = Internal,
            st_message = ''failed to serialize policy rules: '' @ m\<rparr>
      | Inr rules \<Rightarrow> Inr \<lparr>pm_id = uuid_show x (p_id p), pm_name = p_name p,
          pm_description = or_empty (p_description p), pm_priority = p_priority p,
          pm_enabled = p_enabled p, pm_rules_json = rules\<rparr>)"

section \<open>Handlers\<close>

fun decision_response :: "policy_decision \<Rightarrow> check_access_response" where
  "decision_response Allow =
     \<lparr>cap_decision = ''allow'', cap_reason = [], cap_masked_fields = []\<rparr>"
| "decision_response (Deny reason) =
     \<lparr>cap_decision = ''deny'', cap_reason = reason, cap_masked_fields = []\<rparr>"
| "decision_response (Mask masked) =
     \<lparr>cap_decision = ''mask'', cap_reason = [], cap_masked_fields = masked\<rparr>"

text \<open>\<open>jwt_now\<close> and \<open>now0\<close> are the clocks of the validation, \<open>ts\<close> and \<open>now\<close> those of the check.\<close>

definition rpc_check_access ::
    "extern \<Rightarrow> guard_config \<Rightarrow> datetime \<Rightarrow> datetime \<Rightarrow> uuid \<Rightarrow> datetime \<Rightarrow> datetime \<Rightarrow> u8 \<Rightarrow>
       check_access_request \<Rightarrow> 'a guard_state_scheme \<Rightarrow>
       check_access_response rpc outcome \<times> 'a guard_state_scheme" where
  "rpc_check_access x cfg jwt_now now0 new_id ts now hour payload g =
     (case validate_session x cfg jwt_now now0 (car_session_token payload) g of
        (Inl e, g1) \<Rightarrow> (Done (to_rpc x (Inl e)), g1)
      | (Inr session, g1) \<Rightarrow>
          (case check_access_with_task x cfg new_id ts now hour session (car_action payload)
                  (car_resource payload) (car_task payload) g1 of
             (Done (Inl e), g2) \<Rightarrow> (Done (to_rpc x (Inl e)), g2)
           | (Done (Inr decision), g2) \<Rightarrow> (Done (Inr (decision_response decision)), g2)
           | (Panicked, g2) \<Rightarrow> (Panicked, g2)
           | (Pending, g2) \<Rightarrow> (Pending, g2)))"

definition session_to_message :: "extern \<Rightarrow> guard_session \<Rightarrow> session_message" where
  "session_to_message x s =
     \<lparr>sm_session_id = uuid_show x (gs_id s), sm_agent_id = uuid_show x (gs_agent_id s),
      sm_workspace_id = uuid_show x (gs_workspace_id s), sm_role = gs_role s,
      sm_scopes = gs_scopes s, sm_expires_at = ts_secs x (gs_expires_at s)\<rparr>"

definition rpc_create_session ::
    "extern \<Rightarrow> guard_config \<Rightarrow> uuid \<Rightarrow> datetime \<Rightarrow> create_session_request \<Rightarrow> 'a guard_state_scheme \<Rightarrow>
       create_session_response rpc outcome \<times> 'a guard_state_scheme" where
  "rpc_create_session x cfg new_id now payload g =
     (case rpc_uuid x (csr_agent_id payload) of
        Inl st \<Rightarrow> (Done (Inl st), g)
      | Inr agent_id \<Rightarrow>
     (case rpc_uuid x (csr_workspace_id payload) of
        Inl st \<Rightarrow> (Done (Inl st), g)
      | Inr workspace_id \<Rightarrow>
     (case create_session x cfg new_id now agent_id workspace_id (csr_role payload)
             (csr_scopes payload) (word_of_int (csr_ttl_secs payload)) g of
        (Done (Inl e), g') \<Rightarrow> (Done (to_rpc x (Inl e)), g')
      | (Done (Inr s), g') \<Rightarrow>
          (Done (Inr (session_message.extend (session_to_message x s)
             (create_session_response.fields (gs_token s)))), g')
      | (Panicked, g') \<Rightarrow> (Panicked, g')
      | (Pending, g') \<Rightarrow> (Pending, g'))))"

definition rpc_validate_session ::
    "extern \<Rightarrow> guard_config \<Rightarrow> datetime \<Rightarrow> datetime \<Rightarrow> string \<Rightarrow> 'a guard_state_scheme \<Rightarrow>
       validate_session_response rpc \<times> 'a guard_state_scheme" where
  "rpc_validate_session x cfg jwt_now now token g =
     (case validate_session x cfg jwt_now now token g of
        (Inr s, g') \<Rightarrow>
          (Inr (session_message.extend (session_to_message x s)
             (validate_session_response.fields True)), g')
      | (Inl _, g') \<Rightarrow>
          (Inr \<lparr>sm_session_id = [], sm_agent_id = [], sm_workspace_id = [], sm_role = [],
                sm_scopes = [], sm_expires_at = 0, vsp_valid = False\<rparr>, g'))"

definition rpc_revoke_session ::
    "extern \<Rightarrow> string \<Rightarrow> 'a guard_state_scheme \<Rightarrow> bool rpc \<times> 'a guard_state_scheme" where
  "rpc_revoke_session x session_id g =
     (case rpc_uuid x session_id of
        Inl st \<Rightarrow> (Inl st, g)
      | Inr i \<Rightarrow>
          (case revoke_session x i g of
             (Inl e, g') \<Rightarrow> (to_rpc x (Inl e), g')
           | (Inr _, g') \<Rightarrow> (Inr True, g')))"

definition rpc_add_policy ::
    "extern \<Rightarrow> (nat \<Rightarrow> uuid \<times> datetime) \<Rightarrow> string \<Rightarrow> string \<Rightarrow> 'a guard_state_scheme \<Rightarrow>
       policy_message rpc \<times> 'a guard_state_scheme" where
  "rpc_add_policy x draw name policy_toml g =
     (case add_policy_from_toml x draw policy_toml name g of
        (Inl e, g') \<Rightarrow> (to_rpc x (Inl e), g')
      | (Inr p, g') \<Rightarrow> (policy_to_proto x p, g'))"

definition rpc_list_policies ::
    "extern \<Rightarrow> 'a guard_state_scheme \<Rightarrow> policy_message list rpc \<times> 'a guard_state_scheme" where
  "rpc_list_policies x g =
     (case list_policies x g of
        (Inl e, g') \<Rightarrow> (to_rpc x (Inl e), g')
      | (Inr ps, g') \<Rightarrow> (map_res (policy_to_proto x) ps, g'))"

definition rpc_remove_policy ::
    "extern \<Rightarrow> string \<Rightarrow> 'a guard_state_scheme \<Rightarrow> bool rpc \<times> 'a guard_state_scheme" where
  "rpc_remove_policy x policy_id g =
     (case rpc_uuid x policy_id of
        Inl st \<Rightarrow> (Inl st, g)
      | Inr i \<Rightarrow>
          (case remove_policy x i g of
             (Inl e, g') \<Rightarrow> (to_rpc x (Inl e), g')
           | (Inr _, g') \<Rightarrow> (Inr True, g')))"

text \<open>
  The filter of a query: \<open>then_some\<close> takes a value, so both timestamps are converted, and may be
  rejected, also when they are not used.
\<close>

definition request_filter :: "extern \<Rightarrow> query_audit_log_request \<Rightarrow> audit_filter rpc" where
  "request_filter x q =
     (case parse_optional_uuid x (qr_workspace_id q) of Inl st \<Rightarrow> Inl st | Inr workspace_id \<Rightarrow>
     (case parse_optional_uuid x (qr_session_id q) of Inl st \<Rightarrow> Inl st | Inr session_id \<Rightarrow>
     (case from_secs x (qr_start_ts q) of Inl st \<Rightarrow> Inl st | Inr start_time \<Rightarrow>
     (case from_secs x (qr_end_ts q) of Inl st \<Rightarrow> Inl st | Inr end_time \<Rightarrow>
      Inr \<lparr>af_workspace_id = workspace_id, af_session_id = session_id,
           af_decision = (if qr_decision q = [] then None else Some (qr_decision q)),
           af_start_time = (if 0 < qr_start_ts q then Some start_time else None),
           af_end_time = (if 0 < qr_end_ts q then Some end_time else None),
           af_resource = (if qr_resource q = [] then None else Some (qr_resource q)),
           af_limit = (if 0 < qr_limit q then Some (qr_limit q) else None)\<rparr>))))"

definition entry_to_message :: "extern \<Rightarrow> audit_entry \<Rightarrow> audit_entry_message" where
  "entry_to_message x e =
     \<lparr>am_id = uuid_show x (ae_id e),
      am_session_id = or_empty (map_option (uuid_show x) (ae_session_id e)),
      am_workspace_id = uuid_show x (ae_workspace_id e),
      am_agent_id = or_empty (map_option (uuid_show x) (ae_agent_id e)),
      am_action = ae_action e, am_resource = ae_resource e,
      am_resource_id = or_empty (ae_resource_id e), am_decision = ae_decision e,
      am_reason = or_empty (ae_reason e), am_risk_score = ae_risk_score e,
      am_metadata_json = (case json_text x (ae_metadata e) of Inl _ \<Rightarrow> ''{}'' | Inr s \<Rightarrow> s),
      am_ts = ts_secs x (ae_ts e)\<rparr>"

definition rpc_query_audit_log ::
    "extern \<Rightarrow> query_audit_log_request \<Rightarrow> 'a guard_state_scheme \<Rightarrow>
       audit_entry_message list rpc \<times> 'a guard_state_scheme" where
  "rpc_query_audit_log x q g =
     (case request_filter x q of
        Inl st \<Rightarrow> (Inl st, g)
      | Inr f \<Rightarrow>
          (case query_audit x f g of
             (Inl e, g') \<Rightarrow> (to_rpc x (Inl e), g')
           | (Inr entries, g') \<Rightarrow> (Inr (map (entry_to_message x) entries), g')))"

section \<open>Facts\<close>

lemma to_rpc_simps [simp]:
  "to_rpc x (Inl e) = Inl (status_of_error (sqlx_display x) e)" "to_rpc x (Inr v) = Inr v"
  by (simp_all add: to_rpc_def)

lemma decision_response_allow [simp]: "cap_decision (decision_response d) = ''allow'' \<longleftrightarrow> d = Allow"
  by (cases d) simp_all

lemma decision_response_inj: "decision_response d = decision_response d' \<longleftrightarrow> d = d'"
  by (cases d; cases d') simp_all

lemma rpc_check_access_Inr:
  assumes "rpc_check_access x cfg jwt_now now0 i ts now hour q g = (Done (Inr resp), g')"
  obtains s g1 d where "validate_session x cfg jwt_now now0 (car_session_token q) g = (Inr s, g1)"
    "check_access_with_task x cfg i ts now hour s (car_action q) (car_resource q) (car_task q) g1 =
       (Done (Inr d), g')"
    "resp = decision_response d"
  using assms by (auto simp: rpc_check_access_def split: prod.splits sum.splits outcome.splits)

end
