(* ===== verification/Guard_Run.thy ===== *)
theory Guard_Run
  imports Grpc
begin

text \<open>
  Runs of the whole guard: every handler of the service, the operations on API keys and the
  background tasks as calls on one state, and the invariant \<open>guard_inv\<close> they keep - schema integrity,
  a coherent policy cache, bounded audit buffers. \<open>db_quiet\<close> is the frame of the operations that have
  nothing to do with policies.
\<close>

section \<open>Frames\<close>

definition db_quiet :: "'a db_scheme \<Rightarrow> 'a db_scheme \<Rightarrow> bool" where
  "db_quiet d d' \<longleftrightarrow> db_policies d' = db_policies d \<and> scan_policies d' = scan_policies d \<and>
     db.more d' = db.more d \<and> (db_wf d \<longrightarrow> db_wf d')"

lemma db_quiet_refl [simp]: "db_quiet d d"
  by (simp add: db_quiet_def)

lemma db_quiet_trans: "db_quiet d d' \<Longrightarrow> db_quiet d' d'' \<Longrightarrow> db_quiet d d''"
  by (simp add: db_quiet_def)

lemma db_quiet_faults [simp]: "db_quiet d (d'\<lparr>db_faults := fs\<rparr>) = db_quiet d d'"
  by (simp add: db_quiet_def)

lemma db_quiet_bind:
  assumes "\<And>d. db_quiet d (snd (m d))" "\<And>v d. db_quiet d (snd (f v d))"
  shows "db_quiet d (snd (act_bind m f d))"
  by (rule act_bind_inv [of "db_quiet d"]) (use assms in \<open>auto intro: db_quiet_trans\<close>)

lemma db_quiet_engine:
  fixes g g' :: "'a engine_scheme"
  assumes "db_quiet g g'"
  shows "pe_cache g' = pe_cache g \<and> engine.more g' = engine.more g"
  using assms by (cases g; cases g') (simp add: db_quiet_def)

lemma db_quiet_writer:
  fixes g g' :: "'a guard_state_scheme"
  assumes "db_quiet g g'"
  shows "gd_writer g' = gd_writer g"
  using assms by (cases g; cases g') (simp add: db_quiet_def)

lemma db_quiet_inv:
  fixes g g' :: "'a engine_scheme"
  assumes "db_quiet g g'" "engine_inv x g"
  shows "engine_inv x g'"
proof -
  have "policies_now x g' = policies_now x g"
    using assms(1) by (simp add: db_quiet_def policies_now_def enabled_rows_def)
  with assms db_quiet_engine [OF assms(1)] show ?thesis
    by (simp add: db_quiet_def engine_inv_def cache_coherent_def)
qed

lemma db_quiet_keys:
  "db_quiet d (d\<lparr>db_faults := fs, db_keys := t\<rparr>)"
  if "distinct (map kr_id (db_keys d)) \<and> distinct (map kr_key_hash (db_keys d)) \<Longrightarrow>
    distinct (map kr_id t) \<and> distinct (map kr_key_hash t)"
  using that by (auto simp: db_quiet_def db_wf_def)

lemma db_quiet_sessions:
  "db_quiet d (d\<lparr>db_faults := fs, db_sessions := t\<rparr>)"
  if "distinct (map sr_id (db_sessions d)) \<Longrightarrow> distinct (map sr_id t)"
  using that by (auto simp: db_quiet_def db_wf_def)

lemma db_quiet_audit:
  "db_quiet d (d\<lparr>db_faults := fs, db_audit := t\<rparr>)"
  if "distinct (map ar_id (db_audit d)) \<Longrightarrow> distinct (map ar_id t)"
  using that by (auto simp: db_quiet_def db_wf_def)

lemma query_quiet [simp]: "db_quiet d (snd (query f d))"
  by simp

lemma exec_keys_quiet:
  assumes "\<And>t'. f (db_keys d) = Inr t' \<Longrightarrow>
    distinct (map kr_id (db_keys d)) \<and> distinct (map kr_key_hash (db_keys d)) \<Longrightarrow>
    distinct (map kr_id t') \<and> distinct (map kr_key_hash t')"
  shows "db_quiet d (snd (exec_keys f d))"
  by (cases rule: exec_keys_cases [of f d]) (auto simp: assms db_quiet_keys)

lemma exec_sessions_quiet:
  assumes "\<And>t'. f (db_sessions d) = Inr t' \<Longrightarrow> distinct (map sr_id (db_sessions d)) \<Longrightarrow> distinct (map sr_id t')"
  shows "db_quiet d (snd (exec_sessions f d))"
  by (cases rule: exec_sessions_cases [of f d]) (auto simp: assms db_quiet_sessions)

lemma key_call_quiet: "db_quiet d (snd (create_key x bytes i now w label d))"
  "db_quiet d (snd (validate_key x raw_key d))" "db_quiet d (run_key_job x now job d)"
  "db_quiet d (snd (revoke_key x i d))" "db_quiet d (snd (list_keys x w d))"
proof -
  show "db_quiet d (snd (create_key x bytes i now w label d))"
    by (auto simp: create_key_def Let_def key_ids.insert_distinct key_hashes.insert_distinct
        intro!: exec_keys_quiet)
  show "db_quiet d (run_key_job x now job d)"
    by (cases job) (auto intro!: exec_keys_quiet simp: key_ids.update_distinct key_hashes.update_distinct)
  show "db_quiet d (snd (revoke_key x i d))"
    by (auto simp: revoke_key_def key_ids.update_distinct key_hashes.update_distinct intro!: exec_keys_quiet)
qed (simp_all add: validate_key_step)

lemma store_session_quiet: "db_quiet d (snd (store_session x cfg i c e a w role scopes d))"
  unfolding store_session_def
  by (intro db_quiet_bind exec_sessions_quiet) (auto dest: session_ids.insert_distinct)

lemma create_session_quiet: "db_quiet d (snd (create_session x cfg i now a w role scopes ttl d))"
proof (cases "dt_add_secs x now (as_i64 ttl)")
  case (Some e)
  show ?thesis
    using store_session_quiet [of d x cfg i now e a w role scopes]
    by (cases "store_session x cfg i now e a w role scopes d") (simp add: create_session_def Some)
qed (simp add: create_session_def)

lemma validate_session_quiet: "db_quiet d (snd (validate_session x cfg jwt_now now token d))"
  unfolding validate_session_def by (intro db_quiet_bind) simp_all

lemma list_active_sessions_state:
  "snd (list_active_sessions x oc a now opts d) = d\<lparr>db_faults := tl (db_faults d)\<rparr>"
  by (simp add: list_active_sessions_def Let_def act_bind_case query_step
      split: prod.split sum.split option.split)

lemma list_active_sessions_quiet: "db_quiet d (snd (list_active_sessions x oc a now opts d))"
  by (simp add: list_active_sessions_state)

lemma revoke_session_quiet: "db_quiet d (snd (revoke_session x i d))"
  unfolding revoke_session_def
  by (intro exec_sessions_quiet) (auto simp: session_ids.update_distinct)

lemma assert_session_quiet: "db_quiet d (snd (assert_session_active x now s d))"
  by (simp add: assert_session_active_step)

lemma write_direct_quiet: "db_quiet d (snd (write_direct x e d))"
proof (cases rule: write_direct_cases [of x e d])
  case (2 m)
  then show ?thesis
    by (simp add: db_quiet_audit image_iff) (auto intro!: db_quiet_audit simp: entry_to_row_def)
qed simp

lemma write_each_quiet: "db_quiet d (snd (act_each (write_direct x) es d))"
  by (rule act_each_inv) (auto intro: db_quiet_trans write_direct_quiet)

lemma rollback_quiet: "db_quiet d1 d2 \<Longrightarrow> db_quiet d1 (rollback_to d1 d2)"
  by (auto simp: db_quiet_def rollback_to_def db_wf_def)

lemma tx_quiet: "db_quiet d (snd (begin_tx d))" "db_quiet d (snd (commit_tx d))"
  by (simp_all add: begin_tx_def commit_tx_def)

lemma flush_batch_quiet: "db_quiet d (snd (flush_batch x batch d))"
proof -
  obtain r1 d1 where b: "begin_tx d = (r1, d1)" by (cases "begin_tx d")
  obtain r2 d2 where w: "act_each (write_direct x) batch d1 = (r2, d2)"
    by (cases "act_each (write_direct x) batch d1")
  obtain r3 d3 where c: "commit_tx d2 = (r3, d3)" by (cases "commit_tx d2")
  have q: "db_quiet d d1" "db_quiet d1 d2" "db_quiet d2 d3"
    using tx_quiet(1) [of d] write_each_quiet [of d1 x batch] tx_quiet(2) [of d2] b w c by simp_all
  then have "db_quiet d (rollback_to d1 d2)" "db_quiet d (rollback_to d1 d3)" "db_quiet d d3"
    by (meson db_quiet_trans rollback_quiet)+
  with q(1) show ?thesis
    by (simp add: flush_batch_def b w c split: sum.split)
qed

lemma worker_quiet:
  "worker_flush x d w = (ev, d', w') \<Longrightarrow> db_quiet d d'"
  "worker_recv x d w = Some (ev, d', w') \<Longrightarrow> db_quiet d d'"
proof -
  show flush: "db_quiet d d'" if "worker_flush x d w = (ev, d', w')" for w ev w'
    using that flush_batch_quiet [of d x "wr_batch w"] by (auto simp: worker_flush_def split: prod.splits)
  show "db_quiet d d'" if "worker_recv x d w = Some (ev, d', w')"
    using that by (auto simp: worker_recv_def Let_def split: list.splits if_splits prod.splits dest: flush)
qed

section \<open>The invariant\<close>

definition guard_inv :: "extern \<Rightarrow> 'a guard_state_scheme \<Rightarrow> bool" where
  "guard_inv x g \<longleftrightarrow> engine_inv x g \<and> writer_inv (gd_writer g)"

lemma guard_inv_quiet: "db_quiet g g' \<Longrightarrow> guard_inv x g \<Longrightarrow> guard_inv x g'"
  for g g' :: "'a guard_state_scheme"
  using db_quiet_inv [of g g' x] db_quiet_writer [of g g'] by (simp add: guard_inv_def)

lemma guard_inv_engine_op:
  fixes g :: "'a guard_state_scheme"
  assumes "op_ok x run" "guard_inv x g"
  shows "guard_inv x (snd (run g))"
proof -
  have "engine_frame g (snd (run g))" "engine_inv x (snd (run g))"
    using assms by (auto simp: op_ok_def guard_inv_def)
  moreover have "gd_writer (snd (run g)) = gd_writer g"
    using engine_frame_log [OF calculation(1)] by (simp add: guard_log_def)
  ultimately show ?thesis using assms(2) by (simp add: guard_inv_def)
qed

lemma engine_inv_writer [simp]: "engine_inv x (g\<lparr>gd_writer := w\<rparr>) = engine_inv x g"
  for g :: "'a guard_state_scheme"
  by (simp add: engine_inv_def cache_coherent_def db_wf_def policies_now_def enabled_rows_def)

lemma audit_write_inv: "writer_inv w \<Longrightarrow> writer_inv (snd (audit_write e w))"
  by (auto simp: audit_write_def writer_inv_def)

lemma write_audit_inv: "guard_inv x g \<Longrightarrow> guard_inv x (snd (write_audit x e decision risk g))"
proof -
  assume inv: "guard_inv x g"
  let ?e = "decide_entry e decision risk"
  have w: "guard_inv x (g\<lparr>gd_writer := snd (audit_write ?e (gd_writer g))\<rparr>)"
    using inv audit_write_inv by (simp add: guard_inv_def)
  then have "guard_inv x (snd (write_direct x ?e (g\<lparr>gd_writer := snd (audit_write ?e (gd_writer g))\<rparr>)))"
    by (rule guard_inv_quiet [OF write_direct_quiet])
  with w show ?thesis
    by (auto simp: write_audit_def Let_def split: prod.splits outcome.splits sum.splits)
qed

lemma op_ok_evaluate: "op_ok x (evaluate x ctx)"
  unfolding op_ok_engine_op by (rule evaluate_op.engine_op_axioms)

lemma check_access_inv:
  assumes "guard_inv x g"
  shows "guard_inv x (snd (check_access_with_task x cfg i ts now hour s action resource task g))"
proof -
  obtain r1 g1 where a: "assert_session_active x now s g = (r1, g1)"
    by (cases "assert_session_active x now s g")
  have i1: "guard_inv x g1" using guard_inv_quiet [OF assert_session_quiet assms, of x now s] a by simp
  let ?ctx = "scored_context cfg hour s action resource task"
  obtain r2 g2 where e: "evaluate x ?ctx g1 = (r2, g2)" by (cases "evaluate x ?ctx g1")
  have i2: "guard_inv x g2" using guard_inv_engine_op [OF op_ok_evaluate i1, of ?ctx] e by simp
  have wa: "guard_inv x g3"
    if "write_audit x en d risk g' = (o', g3)" "guard_inv x g'" for en d risk g' o' g3
    using write_audit_inv [OF that(2), of en d risk] that(1) by simp
  show ?thesis
    by (auto simp: check_access_with_task_def Let_def a e i1 i2 split: sum.split prod.split outcome.split
        dest: wa)
qed

section \<open>Calls\<close>

text \<open>
  The handlers of the service, the operations of the library that the service does not expose, and
  the background task.
\<close>

datatype guard_call =
    Rpc_check_access datetime datetime uuid datetime datetime u8 check_access_request
  | Rpc_create_session uuid datetime create_session_request
  | Rpc_validate_session datetime datetime string
  | Rpc_revoke_session string
  | Rpc_add_policy "nat \<Rightarrow> uuid \<times> datetime" string string
  | Rpc_list_policies
  | Rpc_remove_policy string
  | Rpc_query_audit_log query_audit_log_request
  | Guard_key key_call
  | Lib_check_access uuid datetime datetime u8 guard_session string string string
  | Lib_create_session uuid datetime uuid uuid string "string list" u64
  | Lib_list_active_sessions bool uuid datetime "list_options option"
  | Lib_load_from_dir "nat \<Rightarrow> nat \<Rightarrow> uuid \<times> datetime" "(string + (string + policy_entry) list) option"
  | Writer_recv
  | Writer_tick

text \<open>
  The background task works on the guard's database and its own state; with a period of zero all it
  does is panic.
\<close>

definition writer_task ::
    "(writer_event \<times> 'a guard_state_scheme \<times> writer) option \<Rightarrow> 'a guard_state_scheme \<Rightarrow>
       'a guard_state_scheme" where
  "writer_task out g =
     (if \<not> wr_running (gd_writer g) then g
      else if wr_period (gd_writer g) = 0 then g\<lparr>gd_writer := snd (worker_abort (gd_writer g))\<rparr>
      else (case out of None \<Rightarrow> g | Some (_, g', w') \<Rightarrow> g'\<lparr>gd_writer := w'\<rparr>))"

fun guard_call_step :: "extern \<Rightarrow> guard_config \<Rightarrow> guard_call \<Rightarrow> guard_state \<Rightarrow> guard_state" where
  "guard_call_step x cfg (Rpc_check_access jwt_now now0 i ts now hour q) g =
     snd (rpc_check_access x cfg jwt_now now0 i ts now hour q g)"
| "guard_call_step x cfg (Rpc_create_session i now q) g = snd (rpc_create_session x cfg i now q g)"
| "guard_call_step x cfg (Rpc_validate_session jwt_now now token) g = snd (rpc_validate_session x cfg jwt_now now token g)"
| "guard_call_step x cfg (Rpc_revoke_session i) g = snd (rpc_revoke_session x i g)"
| "guard_call_step x cfg (Rpc_add_policy draw name source) g = snd (rpc_add_policy x draw name source g)"
| "guard_call_step x cfg Rpc_list_policies g = snd (rpc_list_policies x g)"
| "guard_call_step x cfg (Rpc_remove_policy i) g = snd (rpc_remove_policy x i g)"
| "guard_call_step x cfg (Rpc_query_audit_log q) g = snd (rpc_query_audit_log x q g)"
| "guard_call_step x cfg (Guard_key c) g = key_call_step x c g"
| "guard_call_step x cfg (Lib_check_access i ts now hour s action resource task) g =
     snd (check_access_with_task x cfg i ts now hour s action resource task g)"
| "guard_call_step x cfg (Lib_create_session i now a w role scopes ttl) g =
     snd (create_session x cfg i now a w role scopes ttl g)"
| "guard_call_step x cfg (Lib_list_active_sessions oc a now opts) g =
     snd (list_active_sessions x oc a now opts g)"
| "guard_call_step x cfg (Lib_load_from_dir draw dir) g = snd (load_from_dir x draw dir g)"
| "guard_call_step x cfg Writer_recv g = writer_task (worker_recv x g (gd_writer g)) g"
| "guard_call_step x cfg Writer_tick g = writer_task (Some (worker_flush x g (gd_writer g))) g"

lemma writer_task_inv:
  assumes "guard_inv x g"
  shows "guard_inv x (writer_task (worker_recv x g (gd_writer g)) g)"
    "guard_inv x (writer_task (Some (worker_flush x g (gd_writer g))) g)"
proof -
  have w: "writer_inv (gd_writer g)" and e: "engine_inv x g" using assms by (simp_all add: guard_inv_def)
  show "guard_inv x (writer_task (worker_recv x g (gd_writer g)) g)"
  proof (cases "worker_recv x g (gd_writer g)")
    case None
    then show ?thesis using assms by (simp add: writer_task_def guard_inv_def writer_inv_def worker_abort_def)
  next
    case (Some out)
    obtain ev g' w' where out: "out = (ev, g', w')" by (cases out)
    show ?thesis
      using assms w worker_recv_inv [OF Some [unfolded out] w] db_quiet_inv [OF worker_quiet(2) [OF Some [unfolded out]] e]
      by (auto simp: writer_task_def Some out guard_inv_def writer_inv_def worker_abort_def)
  qed
  obtain ev g' w' where out: "worker_flush x g (gd_writer g) = (ev, g', w')"
    by (cases "worker_flush x g (gd_writer g)")
  show "guard_inv x (writer_task (Some (worker_flush x g (gd_writer g))) g)"
    using assms worker_flush_inv [OF out] w db_quiet_inv [OF worker_quiet(1) [OF out] e]
    by (simp add: writer_task_def out guard_inv_def writer_inv_def worker_abort_def)
qed

lemma guard_call_inv: "guard_inv x g \<Longrightarrow> guard_inv x (guard_call_step x cfg c g)"
proof (cases c)
  case (Rpc_check_access jwt_now now0 i ts now hour q)
  assume inv: "guard_inv x g"
  obtain r g1 where v: "validate_session x cfg jwt_now now0 (car_session_token q) g = (r, g1)"
    by (cases "validate_session x cfg jwt_now now0 (car_session_token q) g")
  have "guard_inv x g1"
    using guard_inv_quiet [OF validate_session_quiet inv, of x cfg jwt_now now0 "car_session_token q"] v by simp
  moreover have "guard_inv x g2"
    if "check_access_with_task x cfg i ts now hour s action resource task g1 = (o', g2)"
    for s action resource task o' g2
    using check_access_inv [OF \<open>guard_inv x g1\<close>, of cfg i ts now hour s action resource task] that by simp
  ultimately show ?thesis
    by (auto simp: Rpc_check_access rpc_check_access_def v split: sum.split prod.split outcome.split)
next
  case (Rpc_create_session i now q)
  assume inv: "guard_inv x g"
  have "guard_inv x g'" if "create_session x cfg i now a w role scopes ttl g = (o', g')"
    for a w role scopes ttl o' g'
    using guard_inv_quiet [OF create_session_quiet inv, of x cfg i now a w role scopes ttl] that by simp
  then show ?thesis using inv
    by (auto simp: Rpc_create_session rpc_create_session_def split: sum.split prod.split outcome.split)
next
  case (Rpc_validate_session jwt_now now token)
  assume "guard_inv x g"
  from guard_inv_quiet [OF validate_session_quiet this, of x cfg jwt_now now token] show ?thesis
    by (auto simp: Rpc_validate_session rpc_validate_session_def split: prod.splits sum.splits)
next
  case (Rpc_revoke_session i)
  assume inv: "guard_inv x g"
  have "guard_inv x g'" if "revoke_session x u g = (r, g')" for u r g'
    using guard_inv_quiet [OF revoke_session_quiet inv, of x u] that by simp
  then show ?thesis using inv
    by (auto simp: Rpc_revoke_session rpc_revoke_session_def split: sum.split prod.split)
next
  case (Rpc_add_policy draw name source)
  assume "guard_inv x g"
  from guard_inv_engine_op [OF op_ok_add this, of draw source name] show ?thesis
    by (auto simp: Rpc_add_policy rpc_add_policy_def split: prod.splits sum.splits)
next
  case Rpc_list_policies
  assume "guard_inv x g"
  from guard_inv_engine_op [OF list_op.engine_op_axioms [folded op_ok_engine_op] this] show ?thesis
    by (auto simp: Rpc_list_policies rpc_list_policies_def split: prod.splits sum.splits)
next
  case (Rpc_remove_policy i)
  assume inv: "guard_inv x g"
  have "guard_inv x g'" if "remove_policy x u g = (r, g')" for u r g'
    using guard_inv_engine_op [OF remove_op.engine_op_axioms [folded op_ok_engine_op] inv, of u] that by simp
  then show ?thesis using inv
    by (auto simp: Rpc_remove_policy rpc_remove_policy_def split: sum.split prod.split)
next
  case (Rpc_query_audit_log q)
  assume inv: "guard_inv x g"
  have "db_quiet g (snd (query_audit x f g))" for f
    by (simp add: query_audit_def query_audit_step)
  then have "guard_inv x g'" if "query_audit x f g = (r, g')" for f r g'
    using inv guard_inv_quiet that by (metis snd_conv)
  then show ?thesis using inv
    by (auto simp: Rpc_query_audit_log rpc_query_audit_log_def split: sum.split prod.split)
next
  case (Guard_key k)
  assume inv: "guard_inv x g"
  have "db_quiet g (key_call_step x k g)" by (cases k) (simp_all add: key_call_quiet)
  from guard_inv_quiet [OF this inv] show ?thesis by (simp add: Guard_key)
next
  case (Lib_create_session i now a w role scopes ttl)
  assume "guard_inv x g"
  from guard_inv_quiet [OF create_session_quiet this] show ?thesis by (simp add: Lib_create_session)
next
  case (Lib_list_active_sessions oc a now opts)
  assume "guard_inv x g"
  moreover have "db_quiet g (snd (list_active_sessions x oc a now opts g))"
    using list_active_sessions_quiet .
  ultimately show ?thesis using guard_inv_quiet by (simp add: Lib_list_active_sessions) blast
next
  case (Lib_load_from_dir draw dir)
  assume "guard_inv x g"
  from guard_inv_engine_op [OF load_dir_op.engine_op_axioms [folded op_ok_engine_op] this] show ?thesis
    by (simp add: Lib_load_from_dir)
qed (simp_all add: writer_task_inv check_access_inv)

lemma guard_calls_inv: "guard_inv x g \<Longrightarrow> guard_inv x (fold (guard_call_step x cfg) calls g)"
  by (induction calls arbitrary: g) (simp_all add: guard_call_inv)

text \<open>A new guard satisfies it.\<close>

lemma guard_new_inv:
  assumes "guard_new x oc cfg draw dir d = Done (Inr g)" "db_wf d" "ids_shown x (db_policies d)"
  shows "guard_inv x g"
proof -
  let ?init = "case policy_dir cfg of None \<Rightarrow> (Inr 0, engine_new d)
    | Some _ \<Rightarrow> load_from_dir x draw dir (engine_new d)"
  have new: "engine_inv x (engine_new d)" by (rule engine_new_inv [OF assms(2,3)])
  have init: "engine_inv x (snd ?init)"
    using new load_dir_op.inv [OF new] by (simp split: option.split)
  from assms(1) obtain n e w where "?init = (Inr n, e)"
    "writer_new oc (audit_flush_interval_ms cfg) (audit_batch_size cfg) = Done w"
    "g = engine.extend e (guard_state.fields w)"
    by (auto simp: guard_new_def split: prod.splits sum.splits outcome.splits)
  with init writer_new_inv [of oc "audit_flush_interval_ms cfg" "audit_batch_size cfg" w] show ?thesis
    by (simp add: guard_inv_def engine_inv_def cache_coherent_def db_wf_def policies_now_def
        enabled_rows_def engine.defs guard_state.defs)
qed

section \<open>Sessions along runs\<close>

lemma engine_op_sessions:
  fixes g :: "'a guard_state_scheme"
  assumes "op_ok x run"
  shows "db_sessions (snd (run g)) = db_sessions g"
  using assms by (simp add: op_ok_def engine_frame_def)

lemma exec_keys_sessions [simp]: "db_sessions (snd (exec_keys f d)) = db_sessions d"
  by (cases rule: exec_keys_cases [of f d]) auto

lemma key_call_sessions [simp]: "db_sessions (key_call_step x c d) = db_sessions d"
proof (cases c)
  case (Key_job now job)
  then show ?thesis by (cases job) simp
qed (simp_all add: create_key_def Let_def validate_key_step revoke_key_def)

lemma write_direct_sessions [simp]: "db_sessions (snd (write_direct x e d)) = db_sessions d"
  by (cases rule: write_direct_cases [of x e d]) auto

lemma write_each_sessions [simp]: "db_sessions (snd (act_each (write_direct x) es d)) = db_sessions d"
  by (rule act_each_inv [of "\<lambda>t. db_sessions t = db_sessions d"]) auto

lemma flush_batch_sessions [simp]: "db_sessions (snd (flush_batch x batch d)) = db_sessions d"
proof -
  obtain r1 d1 where b: "begin_tx d = (r1, d1)" by (cases "begin_tx d")
  obtain r2 d2 where w: "act_each (write_direct x) batch d1 = (r2, d2)"
    by (cases "act_each (write_direct x) batch d1")
  obtain r3 d3 where c: "commit_tx d2 = (r3, d3)" by (cases "commit_tx d2")
  have "db_sessions d1 = db_sessions d" using b
    by (auto simp: begin_tx_def query_step split: option.splits)
  moreover have "db_sessions d2 = db_sessions d1" using write_each_sessions [of x batch d1] w by simp
  moreover have "db_sessions d3 = db_sessions d2" using c
    by (auto simp: commit_tx_def query_step split: option.splits)
  ultimately show ?thesis by (simp add: flush_batch_def b w c rollback_to_def split: sum.split)
qed

lemma worker_sessions:
  "worker_flush x d w = (ev, d', w') \<Longrightarrow> db_sessions d' = db_sessions d"
  "worker_recv x d w = Some (ev, d', w') \<Longrightarrow> db_sessions d' = db_sessions d"
proof -
  show flush: "db_sessions d' = db_sessions d" if "worker_flush x d w = (ev, d', w')" for w ev w'
  proof -
    obtain r b d1 where f: "flush_batch x (wr_batch w) d = ((r, b), d1)"
      by (metis prod.collapse)
    with flush_batch_sessions [of x "wr_batch w" d] that show ?thesis by (simp add: worker_flush_def)
  qed
  show "db_sessions d' = db_sessions d" if "worker_recv x d w = Some (ev, d', w')"
    using that by (auto simp: worker_recv_def Let_def split: list.splits if_splits prod.splits dest: flush)
qed

lemma write_audit_sessions [simp]: "db_sessions (snd (write_audit x e decision risk g)) = db_sessions g"
proof -
  let ?e = "decide_entry e decision risk"
  have "db_sessions (snd (write_direct x ?e (g\<lparr>gd_writer := snd (audit_write ?e (gd_writer g))\<rparr>))) = db_sessions g"
    by simp
  then show ?thesis
    by (auto simp del: write_direct_sessions simp: write_audit_def Let_def
        split: prod.splits outcome.splits sum.splits)
qed

lemma check_access_sessions [simp]:
  "db_sessions (snd (check_access_with_task x cfg i ts now hour s action resource task g)) = db_sessions g"
proof -
  obtain r1 g1 where a: "assert_session_active x now s g = (r1, g1)"
    by (cases "assert_session_active x now s g")
  have i1: "db_sessions g1 = db_sessions g"
    using a by (auto simp: assert_session_active_step)
  let ?ctx = "scored_context cfg hour s action resource task"
  obtain r2 g2 where e: "evaluate x ?ctx g1 = (r2, g2)" by (cases "evaluate x ?ctx g1")
  have i2: "db_sessions g2 = db_sessions g1" using engine_op_sessions [OF op_ok_evaluate, of x ?ctx g1] e by simp
  have wa: "db_sessions g3 = db_sessions g'" if "write_audit x en d risk g' = (o', g3)" for en d risk g' o' g3
    using write_audit_sessions [of x en d risk g'] that by simp
  show ?thesis
    by (auto simp: check_access_with_task_def Let_def a e i1 i2 split: sum.split prod.split outcome.split
        dest: wa)
qed

lemma guard_calls_grow:
  "table_grows sr_id (\<lambda>r. sr_revoked r \<noteq> 0) (db_sessions g) (db_sessions (guard_call_step x cfg c g))"
proof -
  have same: "table_grows sr_id (\<lambda>r. sr_revoked r \<noteq> 0) (db_sessions g) (db_sessions g')"
    if "db_sessions g' = db_sessions g" for g' :: guard_state
    using that by (simp add: table_grows_refl)
  show ?thesis
  proof (cases c)
    case (Rpc_check_access jwt_now now0 i ts now hour q)
    have ca: "db_sessions g2 = db_sessions g1"
      if "check_access_with_task x cfg i ts now hour s a re t g1 = (o', g2)" for s a re t o' g1 g2
      using check_access_sessions [of x cfg i ts now hour s a re t g1] that by simp
    have "db_sessions (snd (rpc_check_access x cfg jwt_now now0 i ts now hour q g)) =
        db_sessions (snd (validate_session x cfg jwt_now now0 (car_session_token q) g))"
      by (auto simp del: session_reads_state simp: rpc_check_access_def
          split: sum.split prod.split outcome.split dest: ca)
    then show ?thesis by (intro same) (simp add: Rpc_check_access)
  next
    case (Rpc_create_session i now q)
    have "table_grows sr_id (\<lambda>r. sr_revoked r \<noteq> 0) (db_sessions g) (db_sessions g')"
      if "create_session x cfg i now a w role scopes ttl g = (o', g')" for a w role scopes ttl o' g'
      using create_session_grows [of "\<lambda>r. sr_revoked r \<noteq> 0" g x cfg i now a w role scopes ttl] that by simp
    then show ?thesis
      by (auto simp: Rpc_create_session rpc_create_session_def table_grows_refl
          split: sum.split prod.split outcome.split)
  next
    case (Rpc_validate_session jwt_now now token)
    have "db_sessions (snd (rpc_validate_session x cfg jwt_now now token g)) =
        db_sessions (snd (validate_session x cfg jwt_now now token g))"
      by (auto simp del: session_reads_state simp: rpc_validate_session_def split: prod.split sum.split)
    then show ?thesis by (intro same) (simp add: Rpc_validate_session)
  next
    case (Rpc_revoke_session i)
    have "table_grows sr_id (\<lambda>r. sr_revoked r \<noteq> 0) (db_sessions g) (db_sessions g')"
      if "revoke_session x u g = (r, g')" for u r g'
      using session_calls_grow [of g x cfg "Session_revoke u"] that by simp
    then show ?thesis
      by (auto simp: Rpc_revoke_session rpc_revoke_session_def table_grows_refl split: sum.split prod.split)
  next
    case (Rpc_add_policy draw name source)
    have "db_sessions (snd (rpc_add_policy x draw name source g)) =
        db_sessions (snd (add_policy_from_toml x draw source name g))"
      by (auto simp: rpc_add_policy_def split: prod.split sum.split)
    then show ?thesis by (intro same) (simp add: Rpc_add_policy engine_op_sessions [OF op_ok_add])
  next
    case Rpc_list_policies
    have "db_sessions (snd (rpc_list_policies x g)) = db_sessions (snd (list_policies x g))"
      by (auto simp: rpc_list_policies_def split: prod.split sum.split)
    then show ?thesis
      by (intro same) (simp add: Rpc_list_policies list_op.sessions_untouched)
  next
    case (Rpc_remove_policy i)
    have rm: "db_sessions g' = db_sessions g" if "remove_policy x u g = (r, g')" for u r g'
      using remove_op.sessions_untouched [of x u g] that by simp
    show ?thesis
      by (intro same) (auto simp: Rpc_remove_policy rpc_remove_policy_def split: sum.split prod.split dest: rm)
  next
    case (Rpc_query_audit_log q)
    show ?thesis
      by (intro same) (auto simp: Rpc_query_audit_log rpc_query_audit_log_def query_audit_def
          query_audit_step split: sum.split)
  next
    case (Lib_create_session i now a w role scopes ttl)
    show ?thesis using create_session_grows by (simp add: Lib_create_session)
  next
    case (Lib_load_from_dir draw dir)
    show ?thesis
      by (intro same) (simp add: Lib_load_from_dir load_dir_op.sessions_untouched)
  next
    case Writer_recv
    show ?thesis
      by (intro same) (auto simp: Writer_recv writer_task_def dest: worker_sessions split: option.split)
  next
    case Writer_tick
    show ?thesis
      by (intro same) (auto simp: Writer_tick writer_task_def dest: worker_sessions split: prod.split)
  qed (simp_all add: table_grows_refl list_active_sessions_state)
qed

interpretation guard_revocable: revocable
  "\<lambda>g k. List.find (\<lambda>r. sr_id r = k) (db_sessions g)" "\<lambda>r. sr_revoked r \<noteq> 0" "guard_call_step x cfg"
  for x cfg
  by unfold_locales (rule table_grows_lookup [OF guard_calls_grow])

end
