(* ===== verification/Guard_Race.thy ===== *)
theory Guard_Race
  imports Guard_Run
begin

text \<open>
  The service under concurrency. The handlers are asynchronous: between two awaits of one request other
  requests, policy changes and the audit task run. A request is a task that is in one of the places
  where it can wait. The state is the guard and the list of the tasks that were started, each kept at
  its index also when it has finished; one step is what one task does up to its next await, or one call
  that waits for a single statement only. A run is a sequence of steps with its trace: the states, and
  what happened between them.
\<close>

section \<open>Tasks\<close>

datatype check_task =
    Validated check_access_request guard_session audit_entry
  | Asserted check_access_request guard_session audit_entry eval_context
  | Missed check_access_request guard_session audit_entry eval_context
  | Fetched check_access_request guard_session audit_entry eval_context "policy list"
  | Decided check_access_request guard_session audit_entry eval_context policy_decision
  | Rejected check_access_request guard_session audit_entry guard_error
  | Answered check_access_request guard_session eval_context policy_decision
  | Failed check_access_request guard_session guard_error
  | Statement_done
  | Invalidated

text \<open>A policy write is a statement, then the invalidation of the cache.\<close>

definition upsert_statement :: "extern \<Rightarrow> policy \<Rightarrow> ('a db_scheme, unit) action" where
  "upsert_statement x p =
     act_bind (act_lift (json_to_string x (enc_rules x (p_rules p)))) (\<lambda>rules.
     exec_policies (upsert_row (policy_to_row x p rules)))"

definition remove_statement :: "extern \<Rightarrow> uuid \<Rightarrow> ('a db_scheme, unit) action" where
  "remove_statement x policy_id =
     exec_policies (\<lambda>t. Inr (delete_rows (\<lambda>r. pr_id r = uuid_show x policy_id) t))"

lemma policy_write_pieces:
  "upsert_policy x p e = act_bind (upsert_statement x p) (\<lambda>_ e. (Inr (), invalidate_cache e)) e"
  "remove_policy x i e = act_bind (remove_statement x i) (\<lambda>_ e. (Inr (), invalidate_cache e)) e"
  by (auto simp: upsert_policy_def upsert_statement_def remove_policy_def remove_statement_def act_bind_case
      split: prod.split sum.split)

text \<open>The calls with one await at most.\<close>

fun atomic_call :: "guard_call \<Rightarrow> bool" where
  "atomic_call (Rpc_check_access jwt_now now0 i ts now hour q) = False"
| "atomic_call (Rpc_add_policy draw name source) = False"
| "atomic_call (Rpc_remove_policy i) = False"
| "atomic_call (Lib_check_access i ts now hour s action resource task) = False"
| "atomic_call (Lib_load_from_dir draw dir) = False"
| "atomic_call c = True"

text \<open>
  What one task does next: a request checks the session's row, looks at the cache, loads, stores and
  decides, and writes its audit entry; a policy write empties the cache. The label of the check says
  what the two clocks read.
\<close>

datatype task_event =
    Checks datetime u8
  | Goes_on

inductive task_step ::
    "extern \<Rightarrow> guard_config \<Rightarrow> guard_state \<times> check_task \<Rightarrow> task_event \<Rightarrow> guard_state \<times> check_task \<Rightarrow> bool"
  for x cfg where
  assert_ok: "assert_session_active x now s g = (Inr (), g') \<Longrightarrow>
    task_step x cfg (g, Validated q s e) (Checks now hour)
      (g', Asserted q s e (scored_context cfg hour s (car_action q) (car_resource q) (car_task q)))"
| assert_fails: "assert_session_active x now s g = (Inl err, g') \<Longrightarrow>
    task_step x cfg (g, Validated q s e) (Checks now hour) (g', Rejected q s e err)"
| cache_hit: "pe_cache g \<noteq> [] \<Longrightarrow>
    task_step x cfg (g, Asserted q s e ctx) Goes_on (g, Decided q s e ctx (eval_policies (pe_cache g) ctx))"
| cache_miss: "pe_cache g = [] \<Longrightarrow> task_step x cfg (g, Asserted q s e ctx) Goes_on (g, Missed q s e ctx)"
| load: "load_policies_from_db x g = (Inr ps, g') \<Longrightarrow>
    task_step x cfg (g, Missed q s e ctx) Goes_on (g', Fetched q s e ctx ps)"
| load_fails: "load_policies_from_db x g = (Inl err, g') \<Longrightarrow>
    task_step x cfg (g, Missed q s e ctx) Goes_on (g', Failed q s err)"
| store: "task_step x cfg (g, Fetched q s e ctx ps) Goes_on
    (g\<lparr>pe_cache := ps\<rparr>, Decided q s e ctx (eval_policies ps ctx))"
| audit: "write_audit x e d (ec_risk_score ctx) g = (Done (Inr ()), g') \<Longrightarrow>
    task_step x cfg (g, Decided q s e ctx d) Goes_on (g', Answered q s ctx d)"
| audit_fails: "write_audit x e d (ec_risk_score ctx) g = (Done (Inl err), g') \<Longrightarrow>
    task_step x cfg (g, Decided q s e ctx d) Goes_on (g', Failed q s err)"
| audit_rejection:
    "write_audit x e (Deny (error_to_string (sqlx_display x) err)) f64_one g = (Done r, g') \<Longrightarrow>
    task_step x cfg (g, Rejected q s e err) Goes_on
      (g', Failed q s (case r of Inl err' \<Rightarrow> err' | Inr _ \<Rightarrow> err))"
| invalidate: "task_step x cfg (g, Statement_done) Goes_on (invalidate_cache g, Invalidated)"

text \<open>
  What the service does next: a call, the acceptance of a request (its token validates; the label says
  what the clocks read), the statement of a policy write, or a step of the \<open>k\<close>-th task.
\<close>

datatype service_event =
    Calls guard_call
  | Accepts datetime datetime check_access_request
  | Writes
  | Works nat task_event

type_synonym service_state = "guard_state \<times> check_task list"

inductive service_step ::
    "extern \<Rightarrow> guard_config \<Rightarrow> service_state \<Rightarrow> service_event \<Rightarrow> service_state \<Rightarrow> bool"
  for x cfg where
  call: "atomic_call c \<Longrightarrow> service_step x cfg (g, T) (Calls c) (guard_call_step x cfg c g, T)"
| validate: "validate_session x cfg jwt_now now0 (car_session_token q) g = (Inr s, g') \<Longrightarrow>
    service_step x cfg (g, T) (Accepts jwt_now now0 q)
      (g', T @ [Validated q s (base_entry i ts s (car_action q) (car_resource q))])"
| upsert: "upsert_statement x p g = (r, g') \<Longrightarrow>
    service_step x cfg (g, T) Writes (g', if res_ok r then T @ [Statement_done] else T)"
| remove: "remove_statement x i g = (r, g') \<Longrightarrow>
    service_step x cfg (g, T) Writes (g', if res_ok r then T @ [Statement_done] else T)"
| work: "k < length T \<Longrightarrow> task_step x cfg (g, T ! k) w (g', t) \<Longrightarrow>
    service_step x cfg (g, T) (Works k w) (g', T[k := t])"

section \<open>Runs\<close>

type_synonym service_trace = "(service_state \<times> service_event \<times> service_state) list"

inductive service_run ::
    "extern \<Rightarrow> guard_config \<Rightarrow> service_state \<Rightarrow> service_trace \<Rightarrow> service_state \<Rightarrow> bool"
  for x cfg st0 where
  start: "service_run x cfg st0 [] st0"
| more: "service_run x cfg st0 tr st \<Longrightarrow> service_step x cfg st ev st' \<Longrightarrow>
    service_run x cfg st0 (tr @ [(st, ev, st')]) st'"

abbreviation service_reach :: "extern \<Rightarrow> guard_config \<Rightarrow> service_state \<Rightarrow> service_state \<Rightarrow> bool" where
  "service_reach x cfg \<equiv> (\<lambda>st st'. \<exists>ev. service_step x cfg st ev st')\<^sup>*\<^sup>*"

lemma run_reach: "service_run x cfg st0 tr st \<Longrightarrow> service_reach x cfg st0 st"
  by (induction rule: service_run.induct) (auto intro: rtranclp.rtrancl_into_rtrancl)

lemma reach_run:
  assumes "service_reach x cfg st0 st"
  obtains tr where "service_run x cfg st0 tr st"
proof -
  from assms have "\<exists>tr. service_run x cfg st0 tr st"
    by (induction rule: rtranclp_induct) (auto intro: service_run.intros)
  then show ?thesis using that by blast
qed

lemma step_then: "service_step x cfg s ev s' \<Longrightarrow> service_reach x cfg s' s'' \<Longrightarrow> service_reach x cfg s s''"
  by (rule converse_rtranclp_into_rtranclp) blast+

lemma one_step: "service_step x cfg s ev s' \<Longrightarrow> service_reach x cfg s s'"
  by (rule r_into_rtranclp) blast

text \<open>An invariant of the steps is one of the runs.\<close>

lemma reach_keeps:
  assumes "service_reach x cfg s s'" "\<And>s ev s'. service_step x cfg s ev s' \<Longrightarrow> P s \<Longrightarrow> P s'" "P s"
  shows "P s'"
  using assms(1,3) by (induction rule: rtranclp_induct) (auto intro: assms(2))

text \<open>What the calls leave alone: the cache, and the writer unless it is the task that runs.\<close>

definition service_frame :: "'a guard_state_scheme \<Rightarrow> policy list \<times> writer" where
  "service_frame g = (pe_cache g, gd_writer g)"

lemma quiet_cache: "db_quiet g g' \<Longrightarrow> pe_cache g' = pe_cache g"
  for g g' :: "'a engine_scheme"
  by (simp add: db_quiet_engine)

lemma quiet_frame: "db_quiet g g' \<Longrightarrow> service_frame g' = service_frame g"
  for g g' :: "'a guard_state_scheme"
  by (simp add: service_frame_def quiet_cache db_quiet_writer)

lemma quiet_run: "(\<And>g. db_quiet g (snd (run g))) \<Longrightarrow> run g = (r, g') \<Longrightarrow> db_quiet g g'"
  by (metis snd_conv)

lemma atomic_call_quiet:
  assumes "atomic_call c" "c \<noteq> Writer_recv" "c \<noteq> Writer_tick"
  shows "db_quiet g (guard_call_step x cfg c g)"
proof (cases c)
  case (Rpc_create_session i now q)
  then show ?thesis
    by (auto simp: rpc_create_session_def dest!: quiet_run [OF create_session_quiet]
        split: sum.split prod.split outcome.split)
next
  case (Rpc_validate_session jwt_now now token)
  then show ?thesis
    by (auto simp: rpc_validate_session_def dest!: quiet_run [OF validate_session_quiet]
        split: sum.split prod.split)
next
  case (Rpc_revoke_session i)
  then show ?thesis
    by (auto simp: rpc_revoke_session_def dest!: quiet_run [OF revoke_session_quiet]
        split: sum.split prod.split)
next
  case Rpc_list_policies
  then show ?thesis
    by (auto simp: rpc_list_policies_def list_policies_def load_step split: sum.split prod.split option.split)
next
  case (Rpc_query_audit_log q)
  then show ?thesis
    by (auto simp: rpc_query_audit_log_def query_audit_def query_audit_step split: sum.split prod.split)
next
  case (Guard_key k)
  then show ?thesis by (cases k) (simp_all add: key_call_quiet)
next
  case (Lib_create_session i now a w role scopes ttl)
  then show ?thesis by (simp add: create_session_quiet)
next
  case (Lib_list_active_sessions oc a now opts)
  then show ?thesis by (simp add: list_active_sessions_quiet)
qed (use assms in simp_all)

lemmas atomic_call_frame = quiet_frame [OF atomic_call_quiet]

lemma writer_task_frame:
  "pe_cache (writer_task (worker_recv x g (gd_writer g)) g) = pe_cache g"
  "pe_cache (writer_task (Some (worker_flush x g (gd_writer g))) g) = pe_cache g"
  by (auto simp: writer_task_def split: option.split prod.split dest!: worker_quiet quiet_cache)

lemma atomic_call_cache: "atomic_call c \<Longrightarrow> pe_cache (guard_call_step x cfg c g) = pe_cache g"
  using atomic_call_frame [of c x cfg g] writer_task_frame [of x g]
  by (cases "c = Writer_recv \<or> c = Writer_tick") (auto simp: service_frame_def)

lemma atomic_call_writer:
  assumes "atomic_call c" "writer_inv (gd_writer g)"
  shows "writer_inv (gd_writer (guard_call_step x cfg c g))"
proof -
  have "writer_inv (gd_writer (writer_task (worker_recv x g (gd_writer g)) g))"
    using assms(2) worker_recv_inv [of x g "gd_writer g"]
    by (auto simp: writer_task_def worker_abort_def writer_inv_def split: option.split)
  moreover have "writer_inv (gd_writer (writer_task (Some (worker_flush x g (gd_writer g))) g))"
    using assms(2) worker_flush_inv [of x g "gd_writer g"]
    by (auto simp: writer_task_def worker_abort_def writer_inv_def split: prod.split)
  ultimately show ?thesis
    using assms atomic_call_frame [OF assms(1), of x cfg g] by (cases c) (auto simp: service_frame_def)
qed

lemma write_audit_cache: "pe_cache (snd (write_audit x e d risk g)) = pe_cache g"
proof -
  have "pe_cache (snd (write_direct x en g1)) = pe_cache g1" for en and g1 :: "'a guard_state_scheme"
    by (rule quiet_cache [OF write_direct_quiet])
  then have "pe_cache g2 = pe_cache g1" if "write_direct x en g1 = (r, g2)"
    for en r and g1 g2 :: "'a guard_state_scheme"
    using that by (metis snd_conv)
  then show ?thesis
    by (auto simp: write_audit_def Let_def split: prod.split outcome.split sum.split)
qed

lemma exec_policies_frame: "service_frame (snd (exec_policies f g)) = service_frame g"
  by (auto simp: service_frame_def exec_policies_def sql_def Let_def
      split: list.split option.split sum.split prod.split)

lemma statement_frame:
  "service_frame (snd (upsert_statement x p g)) = service_frame g"
  "service_frame (snd (remove_statement x i g)) = service_frame g"
  using exec_policies_frame
  by (auto simp: upsert_statement_def remove_statement_def act_bind_case act_lift_def split: sum.split prod.split)

lemma validate_session_token:
  assumes "validate_session x cfg jwt_now now token g = (Inr s, g')"
  shows "gs_token s = token"
proof -
  from assms have "fst (validate_session x cfg jwt_now now token g) = Inr s" by simp
  then show ?thesis by (rule validate_session_Inr) simp
qed

section \<open>What a task has behind it\<close>

text \<open>
  Of the run with trace \<open>tr\<close>: the \<open>k\<close>-th task is a request that was accepted, its token validating to
  the session there and then; after that it found the row of the session active, there and then, and
  its context is that of the session and the request at that hour; \<open>ps\<close> were the policies in force in
  some state; the \<open>k\<close>-th task has logged an entry.
\<close>

definition was_validated ::
    "extern \<Rightarrow> guard_config \<Rightarrow> service_trace \<Rightarrow> nat \<Rightarrow> check_access_request \<Rightarrow> guard_session \<Rightarrow> bool" where
  "was_validated x cfg tr k q s \<longleftrightarrow>
     (\<exists>before g T jwt_now now0 st' after. tr = before @ ((g, T), Accepts jwt_now now0 q, st') # after \<and>
        length T = k \<and> validate_session x cfg jwt_now now0 (car_session_token q) g = (Inr s, fst st'))"

definition was_checked ::
    "extern \<Rightarrow> guard_config \<Rightarrow> service_trace \<Rightarrow> nat \<Rightarrow> check_access_request \<Rightarrow> guard_session \<Rightarrow>
       eval_context \<Rightarrow> bool" where
  "was_checked x cfg tr k q s ctx \<longleftrightarrow>
     (\<exists>before g T now hour st' after. tr = before @ ((g, T), Works k (Checks now hour), st') # after \<and>
        was_validated x cfg before k q s \<and> assert_session_active x now s g = (Inr (), fst st') \<and>
        ctx = scored_context cfg hour s (car_action q) (car_resource q) (car_task q))"

definition visited :: "service_state \<Rightarrow> service_trace \<Rightarrow> service_state \<Rightarrow> bool" where
  "visited st0 tr st \<longleftrightarrow> st = st0 \<or> (\<exists>st1 ev. (st1, ev, st) \<in> set tr)"

definition was_in_force :: "extern \<Rightarrow> service_state \<Rightarrow> service_trace \<Rightarrow> policy list \<Rightarrow> bool" where
  "was_in_force x st0 tr ps \<longleftrightarrow> (\<exists>st. visited st0 tr st \<and> policies_now x (fst st) = Inr ps)"

definition was_logged :: "extern \<Rightarrow> service_trace \<Rightarrow> nat \<Rightarrow> audit_entry \<Rightarrow> bool" where
  "was_logged x tr k e \<longleftrightarrow>
     (\<exists>st w st'. (st, Works k w, st') \<in> set tr \<and> logged x (fst st) (fst st') e)"

abbreviation entry_for :: "audit_entry \<Rightarrow> check_access_request \<Rightarrow> guard_session \<Rightarrow> bool" where
  "entry_for e q s \<equiv> \<exists>i ts. e = base_entry i ts s (car_action q) (car_resource q)"

fun task_story ::
    "extern \<Rightarrow> guard_config \<Rightarrow> service_state \<Rightarrow> service_trace \<Rightarrow> nat \<Rightarrow> check_task \<Rightarrow> bool" where
  "task_story x cfg st0 tr k (Validated q s e) = (was_validated x cfg tr k q s \<and> entry_for e q s)"
| "task_story x cfg st0 tr k (Asserted q s e ctx) = (was_checked x cfg tr k q s ctx \<and> entry_for e q s)"
| "task_story x cfg st0 tr k (Missed q s e ctx) = (was_checked x cfg tr k q s ctx \<and> entry_for e q s)"
| "task_story x cfg st0 tr k (Fetched q s e ctx ps) =
     (was_checked x cfg tr k q s ctx \<and> entry_for e q s \<and> was_in_force x st0 tr ps)"
| "task_story x cfg st0 tr k (Decided q s e ctx d) =
     (was_checked x cfg tr k q s ctx \<and> entry_for e q s \<and>
        (\<exists>ps. was_in_force x st0 tr ps \<and> eval_policies ps ctx = d))"
| "task_story x cfg st0 tr k (Answered q s ctx d) =
     (was_checked x cfg tr k q s ctx \<and>
        (\<exists>ps. was_in_force x st0 tr ps \<and> eval_policies ps ctx = d) \<and>
        (\<exists>e. entry_for e q s \<and> was_logged x tr k (decide_entry e d (ec_risk_score ctx))))"
| "task_story x cfg st0 tr k _ = True"

lemma was_validated_more: "was_validated x cfg tr k q s \<Longrightarrow> was_validated x cfg (tr @ tr') k q s"
  unfolding was_validated_def by (metis append_Cons append_assoc)

lemma was_checked_more: "was_checked x cfg tr k q s ctx \<Longrightarrow> was_checked x cfg (tr @ tr') k q s ctx"
  unfolding was_checked_def by (metis append_Cons append_assoc)

lemma was_in_force_more: "was_in_force x st0 tr ps \<Longrightarrow> was_in_force x st0 (tr @ tr') ps"
  unfolding was_in_force_def visited_def set_append by blast

lemma was_logged_more: "was_logged x tr k e \<Longrightarrow> was_logged x (tr @ tr') k e"
  unfolding was_logged_def set_append by blast

lemmas was_more = was_validated_more was_checked_more was_in_force_more was_logged_more

lemma task_story_more: "task_story x cfg st0 tr k t \<Longrightarrow> task_story x cfg st0 (tr @ tr') k t"
  by (cases t) (auto intro: was_more)

lemma was_validated_now:
  "validate_session x cfg jwt_now now0 (car_session_token q) g = (Inr s, fst st') \<Longrightarrow>
     was_validated x cfg (tr @ [((g, T), Accepts jwt_now now0 q, st')]) (length T) q s"
  unfolding was_validated_def by blast

lemma was_checked_now:
  "was_validated x cfg tr k q s \<Longrightarrow> assert_session_active x now s g = (Inr (), fst st') \<Longrightarrow>
     was_checked x cfg (tr @ [((g, T), Works k (Checks now hour), st')]) k q s
       (scored_context cfg hour s (car_action q) (car_resource q) (car_task q))"
  unfolding was_checked_def by blast

lemma run_visited: "service_run x cfg st0 tr st \<Longrightarrow> visited st0 tr st"
  by (induction rule: service_run.induct) (auto simp: visited_def)

definition cache_seen :: "extern \<Rightarrow> service_state \<Rightarrow> service_trace \<Rightarrow> guard_state \<Rightarrow> bool" where
  "cache_seen x st0 tr g \<longleftrightarrow> pe_cache g = [] \<or> was_in_force x st0 tr (pe_cache g)"

lemma cache_seen_more: "cache_seen x st0 tr g \<Longrightarrow> pe_cache g' = pe_cache g \<Longrightarrow> cache_seen x st0 (tr @ tr') g'"
  by (auto simp: cache_seen_def intro: was_in_force_more)

definition run_inv :: "extern \<Rightarrow> guard_config \<Rightarrow> service_state \<Rightarrow> service_trace \<Rightarrow> service_state \<Rightarrow> bool" where
  "run_inv x cfg st0 tr st \<longleftrightarrow> cache_seen x st0 tr (fst st) \<and>
     (\<forall>k<length (snd st). task_story x cfg st0 tr k (snd st ! k))"

lemma task_step_story:
  assumes "task_step x cfg (g, t) w (g', t')" "task_story x cfg st0 tr k t" "cache_seen x st0 tr g"
    and "visited st0 tr (g, T)" and tr': "tr' = tr @ [((g, T), Works k w, st')]" "fst st' = g'"
  shows "task_story x cfg st0 tr' k t' \<and> cache_seen x st0 tr' g'"
proof -
  have keep: "pe_cache g' = pe_cache g \<Longrightarrow> cache_seen x st0 tr' g'"
    unfolding tr' by (rule cache_seen_more [OF assms(3)])
  have force: "was_in_force x st0 tr' ps" if "was_in_force x st0 tr ps" for ps
    unfolding tr'(1) using that by (rule was_in_force_more)
  then have same: "was_in_force x st0 tr' (pe_cache g)" if "pe_cache g \<noteq> []"
    using assms(3) that by (simp add: cache_seen_def)
  have checked: "was_checked x cfg tr' k q s ctx" if "was_checked x cfg tr k q s ctx" for q s ctx
    unfolding tr'(1) using that by (rule was_checked_more)
  have logged: "was_logged x tr' k e" if "logged x g g' e" for e
    unfolding was_logged_def tr'(1)
    by (intro exI [of _ "(g, T)"] exI [of _ w] exI [of _ st']) (simp add: that tr'(2))
  from assms(1) show ?thesis
  proof cases
    case (assert_ok now s q e hour)
    have "was_checked x cfg tr' k q s
        (scored_context cfg hour s (car_action q) (car_resource q) (car_task q))"
      unfolding tr'(1) assert_ok(2) using assms(2) by (intro was_checked_now) (simp_all add: assert_ok tr'(2))
    then show ?thesis using assert_ok assms(2) keep by (auto simp: assert_session_active_step)
  next
    case (assert_fails now s err q e hour)
    then show ?thesis using keep by (auto simp: assert_session_active_step)
  next
    case (cache_hit q s e ctx)
    then show ?thesis using assms(2) keep same checked by auto
  next
    case (cache_miss q s e ctx)
    then show ?thesis using assms(2) keep checked by auto
  next
    case (load ps q s e ctx)
    then have "policies_now x g = Inr ps" "pe_cache g' = pe_cache g"
      by (auto simp: load_step split: option.splits)
    moreover from this(1) assms(4) have "was_in_force x st0 tr ps"
      unfolding was_in_force_def by force
    ultimately show ?thesis using load assms(2) keep checked force by auto
  next
    case (load_fails err q s e ctx)
    then show ?thesis using keep by (auto simp: load_step)
  next
    case (store q s e ctx ps)
    then show ?thesis using assms(2) checked force by (fastforce simp: cache_seen_def)
  next
    case (audit e d ctx q s)
    then have "was_logged x tr' k (decide_entry e d (ec_risk_score ctx))"
      by (intro logged write_audit_logged)
    moreover have "pe_cache g' = pe_cache g"
      using write_audit_cache [of x e d "ec_risk_score ctx" g] audit by simp
    moreover have "was_checked x cfg tr k q s ctx" "entry_for e q s"
      "\<exists>ps. was_in_force x st0 tr ps \<and> eval_policies ps ctx = d" using assms(2) audit by simp_all
    ultimately show ?thesis unfolding audit(3) task_story.simps using keep checked force by blast
  next
    case (audit_fails e d ctx err q s)
    then show ?thesis using keep write_audit_cache [of x e d "ec_risk_score ctx" g] by auto
  next
    case (audit_rejection e err r q s)
    then show ?thesis
      using keep write_audit_cache [of x e "Deny (error_to_string (sqlx_display x) err)" f64_one g] by auto
  next
    case invalidate
    then show ?thesis by (auto simp: invalidate_cache_def cache_seen_def)
  qed
qed

lemma run_inv_step:
  assumes "service_run x cfg st0 tr st" "service_step x cfg st ev st'" "run_inv x cfg st0 tr st"
  shows "run_inv x cfg st0 (tr @ [(st, ev, st')]) st'"
proof -
  let ?tr = "tr @ [(st, ev, st')]"
  have tasks: "task_story x cfg st0 ?tr k (snd st ! k)" if "k < length (snd st)" for k
    using assms(3) that task_story_more by (auto simp: run_inv_def)
  have cache: "cache_seen x st0 ?tr g'" if "pe_cache g' = pe_cache (fst st)" for g'
    using assms(3) that by (intro cache_seen_more) (simp_all add: run_inv_def)
  from assms(2) show ?thesis
  proof cases
    case (call c g T)
    with cache tasks show ?thesis by (simp add: run_inv_def atomic_call_cache)
  next
    case (validate jwt_now now0 q g s g' T i ts)
    have "pe_cache g' = pe_cache g"
      using quiet_cache [OF validate_session_quiet [of g x cfg jwt_now now0 "car_session_token q"]] validate(4) by simp
    moreover have "was_validated x cfg ?tr (length T) q s"
      unfolding validate(1,2) by (rule was_validated_now) (simp add: validate(3,4))
    ultimately show ?thesis
      using validate cache tasks by (auto simp: run_inv_def nth_append less_Suc_eq)
  next
    case (upsert p g r g' T)
    then show ?thesis using cache tasks statement_frame(1) [of x p g]
      by (auto simp: run_inv_def service_frame_def nth_append less_Suc_eq)
  next
    case (remove i g r g' T)
    then show ?thesis using cache tasks statement_frame(2) [of x i g]
      by (auto simp: run_inv_def service_frame_def nth_append less_Suc_eq)
  next
    case (work k T g w g' t)
    have "task_story x cfg st0 ?tr k t \<and> cache_seen x st0 ?tr g'"
      using task_step_story [OF work(5), of st0 tr k T ?tr st'] assms(3) run_visited [OF assms(1)] work(1-4)
      by (simp add: run_inv_def)
    then show ?thesis using work tasks by (auto simp: run_inv_def nth_list_update)
  qed
qed

lemma service_run_inv:
  assumes "service_run x cfg (g0, []) tr st" "guard_inv x g0"
  shows "run_inv x cfg (g0, []) tr st"
  using assms(1)
proof (induction rule: service_run.induct)
  case start
  have "pe_cache g0 = [] \<or> policies_now x g0 = Inr (pe_cache g0)"
    using assms(2) by (simp add: guard_inv_def engine_inv_def cache_coherent_def)
  then show ?case by (auto simp: run_inv_def cache_seen_def was_in_force_def visited_def)
next
  case (more tr st ev st')
  then show ?case using run_inv_step by blast
qed

section \<open>Sessions along a run\<close>

lemma statement_sessions:
  "db_sessions (snd (upsert_statement x p d)) = db_sessions d"
  "db_sessions (snd (remove_statement x i d)) = db_sessions d"
proof -
  have exec: "db_sessions (snd (exec_policies f d)) = db_sessions d" for f
    by (auto simp: exec_policies_def sql_def Let_def split: list.split option.split sum.split prod.split)
  show "db_sessions (snd (upsert_statement x p d)) = db_sessions d"
    using exec by (auto simp: upsert_statement_def act_bind_case act_lift_def split: sum.split prod.split)
  show "db_sessions (snd (remove_statement x i d)) = db_sessions d"
    by (simp add: remove_statement_def exec)
qed

lemma task_step_sessions:
  assumes "task_step x cfg (g, t) w (g', t')"
  shows "db_sessions g' = db_sessions g"
  using assms
proof cases
  case (audit e d ctx q s)
  then show ?thesis using write_audit_sessions [of x e d "ec_risk_score ctx" g] by simp
next
  case (audit_fails e d ctx err q s)
  then show ?thesis using write_audit_sessions [of x e d "ec_risk_score ctx" g] by simp
next
  case (audit_rejection e err r q s)
  then show ?thesis
    using write_audit_sessions [of x e "Deny (error_to_string (sqlx_display x) err)" f64_one g] by simp
qed (auto simp: assert_session_active_step load_step invalidate_cache_def)

lemma service_step_grows:
  assumes "service_step x cfg s ev s'"
  shows "table_grows sr_id (\<lambda>r. sr_revoked r \<noteq> 0) (db_sessions (fst s)) (db_sessions (fst s'))"
  using assms
proof cases
  case (call c g T)
  then show ?thesis using guard_calls_grow by simp
next
  case (validate jwt_now now0 q g u g' T i ts)
  then show ?thesis
    using session_reads_state(1) [of x cfg jwt_now now0 "car_session_token q" g] by (simp add: table_grows_refl)
next
  case (upsert p g r g' T)
  then show ?thesis using statement_sessions(1) [of x p g] by (simp add: table_grows_refl)
next
  case (remove i g r g' T)
  then show ?thesis using statement_sessions(2) [of x i g] by (simp add: table_grows_refl)
next
  case (work k T g w g' t)
  then show ?thesis using task_step_sessions [OF work(5)] by (simp add: table_grows_refl)
qed

text \<open>A session that is revoked, in the table of a state, and one request that has not passed its check.\<close>

definition session_revoked :: "extern \<Rightarrow> uuid \<Rightarrow> session_row list \<Rightarrow> bool" where
  "session_revoked x i t \<longleftrightarrow>
     (\<exists>r. List.find (\<lambda>r. sr_id r = uuid_show x i) t = Some r \<and> sr_revoked r \<noteq> 0)"

lemma revoke_session_revoked:
  assumes "revoke_session x i g = (Inr (), g1)"
    and "List.find (\<lambda>r. sr_id r = uuid_show x i) (db_sessions g) \<noteq> None"
  shows "session_revoked x i (db_sessions g1)"
proof -
  obtain r0 where r0: "List.find (\<lambda>r. sr_id r = uuid_show x i) (db_sessions g) = Some r0"
    using assms(2) by auto
  have "List.find (\<lambda>r. sr_id r = uuid_show x i) (db_sessions g1) = Some (r0\<lparr>sr_revoked := 1\<rparr>)"
    unfolding revoke_session_Inr [OF assms(1)] by (subst session_ids.update_find) (simp_all add: r0)
  then show ?thesis by (simp add: session_revoked_def)
qed

lemma service_step_revoked:
  "service_step x cfg s ev s' \<Longrightarrow> session_revoked x i (db_sessions (fst s)) \<Longrightarrow>
     session_revoked x i (db_sessions (fst s'))"
  unfolding session_revoked_def using table_grows_lookup [OF service_step_grows] by blast

lemma service_reach_revoked:
  "service_reach x cfg s s' \<Longrightarrow> session_revoked x i (db_sessions (fst s)) \<Longrightarrow> session_revoked x i (db_sessions (fst s'))"
  by (erule reach_keeps) (rule service_step_revoked)

fun past_check :: "uuid \<Rightarrow> check_task \<Rightarrow> bool" where
  "past_check i (Asserted q s e ctx) = (gs_id s = i)"
| "past_check i (Missed q s e ctx) = (gs_id s = i)"
| "past_check i (Fetched q s e ctx ps) = (gs_id s = i)"
| "past_check i (Decided q s e ctx d) = (gs_id s = i)"
| "past_check i (Answered q s ctx d) = (gs_id s = i)"
| "past_check i _ = False"

definition locked_out :: "extern \<Rightarrow> uuid \<Rightarrow> nat \<Rightarrow> service_state \<Rightarrow> bool" where
  "locked_out x i k st \<longleftrightarrow> session_revoked x i (db_sessions (fst st)) \<and>
     (k < length (snd st) \<longrightarrow> \<not> past_check i (snd st ! k))"

lemma task_step_locked:
  assumes "task_step x cfg (g, t) w (g', t')" "session_revoked x i (db_sessions g)" "\<not> past_check i t"
  shows "\<not> past_check i t'"
  using assms(1)
proof cases
  case (assert_ok now s q e hour)
  then have "gs_id s \<noteq> i"
    using assms(2) by (auto simp: session_revoked_def assert_session_active_step session_row_active_def
        split: option.splits if_splits)
  with assert_ok show ?thesis by simp
qed (use assms(3) in auto)

lemma locked_out_step:
  assumes "service_step x cfg s ev s'" "locked_out x i k s"
  shows "locked_out x i k s'"
proof -
  have "session_revoked x i (db_sessions (fst s'))"
    using service_step_revoked [OF assms(1)] assms(2) by (simp add: locked_out_def)
  moreover from assms(1) have "k < length (snd s') \<longrightarrow> \<not> past_check i (snd s' ! k)"
  proof cases
    case (work j T g w g' t)
    then show ?thesis
      using task_step_locked [OF work(5)] assms(2) by (auto simp: locked_out_def nth_list_update)
  qed (use assms(2) in \<open>auto simp: locked_out_def nth_append less_Suc_eq split: if_splits\<close>)
  ultimately show ?thesis by (simp add: locked_out_def)
qed

lemma locked_out_reach:
  "service_reach x cfg s s' \<Longrightarrow> locked_out x i k s \<Longrightarrow> locked_out x i k s'"
  by (erule reach_keeps) (rule locked_out_step)

section \<open>The writer along a run\<close>

lemma write_audit_writer: "writer_inv (gd_writer g) \<Longrightarrow> writer_inv (gd_writer (snd (write_audit x e d risk g)))"
proof -
  assume w: "writer_inv (gd_writer g)"
  have "gd_writer (snd (write_direct x en g1)) = gd_writer g1" for en and g1 :: "'a guard_state_scheme"
    by (rule db_quiet_writer [OF write_direct_quiet])
  then have "gd_writer g2 = gd_writer g1" if "write_direct x en g1 = (r, g2)"
    for en r and g1 g2 :: "'a guard_state_scheme"
    using that by (metis snd_conv)
  moreover obtain o' w' where aw: "audit_write (decide_entry e d risk) (gd_writer g) = (o', w')"
    by (cases "audit_write (decide_entry e d risk) (gd_writer g)")
  moreover have "writer_inv w'" using audit_write_inv [OF w, of "decide_entry e d risk"] aw by simp
  ultimately show ?thesis
    by (auto simp: write_audit_def Let_def split: prod.split outcome.split sum.split)
qed

lemma task_step_writer:
  assumes "task_step x cfg (g, t) w (g', t')" "writer_inv (gd_writer g)"
  shows "writer_inv (gd_writer g')"
  using assms(1)
proof cases
  case (audit e d ctx q s)
  then show ?thesis using assms(2) write_audit_writer [of g x e d "ec_risk_score ctx"] by simp
next
  case (audit_fails e d ctx err q s)
  then show ?thesis using assms(2) write_audit_writer [of g x e d "ec_risk_score ctx"] by simp
next
  case (audit_rejection e err r q s)
  then show ?thesis
    using assms(2) write_audit_writer [of g x e "Deny (error_to_string (sqlx_display x) err)" f64_one] by simp
qed (use assms(2) in \<open>auto simp: assert_session_active_step load_step invalidate_cache_def\<close>)

lemma service_step_writer:
  assumes "service_step x cfg s ev s'" "writer_inv (gd_writer (fst s))"
  shows "writer_inv (gd_writer (fst s'))"
  using assms(1)
proof cases
  case (call c g T)
  then show ?thesis using assms(2) by (simp add: atomic_call_writer)
next
  case (validate jwt_now now0 q g u g' T i ts)
  then show ?thesis
    using assms(2) db_quiet_writer [OF validate_session_quiet [of g x cfg jwt_now now0 "car_session_token q"]] by simp
next
  case (upsert p g r g' T)
  then show ?thesis using assms(2) statement_frame(1) [of x p g] by (simp add: service_frame_def)
next
  case (remove i g r g' T)
  then show ?thesis using assms(2) statement_frame(2) [of x i g] by (simp add: service_frame_def)
next
  case (work k T g w g' t)
  then show ?thesis using assms(2) task_step_writer [OF work(5)] by simp
qed

lemma service_reach_writer:
  "service_reach x cfg s s' \<Longrightarrow> writer_inv (gd_writer (fst s)) \<Longrightarrow> writer_inv (gd_writer (fst s'))"
  by (erule reach_keeps) (rule service_step_writer)

section \<open>The schema along a run\<close>

lemma statement_wf:
  "db_wf d \<Longrightarrow> db_wf (snd (upsert_statement x p d))"
  "db_wf d \<Longrightarrow> db_wf (snd (remove_statement x i d))"
proof -
  have exec: "db_wf (snd (exec_policies f d))"
    if "db_wf d" "\<And>t. f (db_policies d) = Inr t \<Longrightarrow> distinct (map pr_id t) \<and> distinct (map pr_name t)"
    for f and d :: "'b db_scheme"
    using that by (cases rule: exec_policies_cases [of f d]) (auto simp: db_wf_def)
  assume wf: "db_wf d"
  then have "db_wf (snd (exec_policies (upsert_row (policy_to_row x p rules)) d))" for rules
    by (rule exec) (use wf upsert_row_distinct in \<open>auto simp: db_wf_def\<close>)
  with wf show "db_wf (snd (upsert_statement x p d))"
    by (auto simp: upsert_statement_def act_bind_case act_lift_def split: sum.split)
  show "db_wf (snd (remove_statement x i d))"
    unfolding remove_statement_def
    by (rule exec [OF wf]) (use wf in \<open>auto simp: db_wf_def policy_ids.delete_distinct policy_names.delete_distinct\<close>)
qed

lemma write_audit_wf: "db_wf g \<Longrightarrow> db_wf (snd (write_audit x e d risk g))"
proof -
  assume "db_wf g"
  then have "db_wf (g\<lparr>gd_writer := w\<rparr>)" for w by (simp add: db_wf_def)
  then have "db_wf (snd (write_direct x en (g\<lparr>gd_writer := w\<rparr>)))" for en w
    using write_direct_quiet [of "g\<lparr>gd_writer := w\<rparr>" x en] by (simp add: db_quiet_def)
  then have "db_wf g2" if "write_direct x en (g\<lparr>gd_writer := w\<rparr>) = (r, g2)" for en w r g2
    using that by (metis snd_conv)
  with \<open>\<And>w. db_wf (g\<lparr>gd_writer := w\<rparr>)\<close> show ?thesis
    by (auto simp: write_audit_def Let_def split: prod.split outcome.split sum.split)
qed

lemma writer_task_wf:
  "db_wf g \<Longrightarrow> db_wf (writer_task (worker_recv x g (gd_writer g)) g)"
  "db_wf g \<Longrightarrow> db_wf (writer_task (Some (worker_flush x g (gd_writer g))) g)"
  by (auto simp: writer_task_def db_wf_def split: option.split prod.split
      dest!: worker_quiet [unfolded db_quiet_def db_wf_def])

lemma task_step_wf:
  assumes "task_step x cfg (g, t) w (g', t')" "db_wf g"
  shows "db_wf g'"
  using assms(1)
proof cases
  case (audit e d ctx q s)
  then show ?thesis using assms(2) write_audit_wf [of g x e d "ec_risk_score ctx"] by simp
next
  case (audit_fails e d ctx err q s)
  then show ?thesis using assms(2) write_audit_wf [of g x e d "ec_risk_score ctx"] by simp
next
  case (audit_rejection e err r q s)
  then show ?thesis
    using assms(2) write_audit_wf [of g x e "Deny (error_to_string (sqlx_display x) err)" f64_one] by simp
qed (use assms(2) in \<open>auto simp: assert_session_active_step load_step invalidate_cache_def db_wf_def\<close>)

lemma service_step_wf:
  assumes "service_step x cfg s ev s'" "db_wf (fst s)"
  shows "db_wf (fst s')"
  using assms(1)
proof cases
  case (call c g T)
  then show ?thesis
    using assms(2) atomic_call_quiet [OF call(4), of g x cfg] writer_task_wf [of g x]
    by (cases "c = Writer_recv \<or> c = Writer_tick") (auto simp: db_quiet_def)
next
  case (validate jwt_now now0 q g u g' T i ts)
  then show ?thesis
    using assms(2) validate_session_quiet [of g x cfg jwt_now now0 "car_session_token q"] by (simp add: db_quiet_def)
next
  case (upsert p g r g' T)
  then show ?thesis using assms(2) statement_wf(1) [of g x p] by simp
next
  case (remove i g r g' T)
  then show ?thesis using assms(2) statement_wf(2) [of g x i] by simp
next
  case (work k T g w g' t)
  then show ?thesis using assms(2) task_step_wf [OF work(5)] by simp
qed

lemma service_reach_wf:
  "service_reach x cfg s s' \<Longrightarrow> db_wf (fst s) \<Longrightarrow> db_wf (fst s')"
  by (erule reach_keeps) (rule service_step_wf)

section \<open>Requests finish\<close>

text \<open>Steps of one task, the others waiting.\<close>

lemma work_at:
  assumes "k < length T" "task_step x cfg (g, t) w (g', t')"
  shows "service_step x cfg (g, T[k := t]) (Works k w) (g', T[k := t'])"
  using work [of k "T[k := t]" x cfg g w g' t'] assms by simp

text \<open>A sequential check is a run of its own.\<close>

lemma evaluate_is_a_run:
  assumes "evaluate x ctx g = (r, g')" and k: "k < length T"
  shows "service_reach x cfg (g, T[k := Asserted q s e ctx])
    (g', T[k := (case r of Inr d \<Rightarrow> Decided q s e ctx d | Inl err \<Rightarrow> Failed q s err)])"
proof (cases "pe_cache g = []")
  case False
  then have "r = Inr (eval_policies (pe_cache g) ctx)" "g' = g"
    using assms by (auto simp: evaluate_def cached_policies_def act_bind_case act_return_def)
  then show ?thesis using one_step [OF work_at [OF k cache_hit [OF False]]] by simp
next
  case True
  obtain r1 g1 where l: "load_policies_from_db x g = (r1, g1)" by (cases "load_policies_from_db x g")
  have ev: "evaluate x ctx g = (case r1 of Inl err \<Rightarrow> (Inl err, g1)
      | Inr ps \<Rightarrow> (Inr (eval_policies ps ctx), g1\<lparr>pe_cache := ps\<rparr>))"
    using True by (auto simp: evaluate_def cached_policies_def act_bind_case act_return_def l split: sum.split)
  note miss = step_then [OF work_at [OF k cache_miss [OF True]]]
  show ?thesis
  proof (cases r1)
    case (Inl err)
    with assms(1) ev show ?thesis
      using miss [OF one_step [OF work_at [OF k load_fails [OF l [unfolded Inl]]]]] by auto
  next
    case (Inr ps)
    with assms(1) ev show ?thesis
      using miss [OF step_then [OF work_at [OF k load [OF l [unfolded Inr]]] one_step [OF work_at [OF k store]]]]
      by auto
  qed
qed

definition check_outcome ::
    "check_access_request \<Rightarrow> guard_session \<Rightarrow> eval_context \<Rightarrow> policy_decision guard_result \<Rightarrow> check_task" where
  "check_outcome q s ctx r = (case r of Inr d \<Rightarrow> Answered q s ctx d | Inl err \<Rightarrow> Failed q s err)"

lemma audit_is_a_run:
  assumes "write_audit x e d (ec_risk_score ctx) g = (Done r, g')"
  shows "task_step x cfg (g, Decided q s e ctx d) Goes_on
    (g', case r of Inr _ \<Rightarrow> Answered q s ctx d | Inl err \<Rightarrow> Failed q s err)"
  using assms audit audit_fails by (cases r) (auto simp: unit_eq)

lemma check_is_a_run:
  assumes "check_access_with_task x cfg i ts now hour s (car_action q) (car_resource q) (car_task q) g = (Done r, g')"
    and k: "k < length T"
  shows "service_reach x cfg
    (g, T[k := Validated q s (base_entry i ts s (car_action q) (car_resource q))])
    (g', T[k := check_outcome q s
        (scored_context cfg hour s (car_action q) (car_resource q) (car_task q)) r])"
proof -
  let ?e = "base_entry i ts s (car_action q) (car_resource q)"
  let ?ctx = "scored_context cfg hour s (car_action q) (car_resource q) (car_task q)"
  note at_k = work_at [OF k]
  obtain ra g1 where a: "assert_session_active x now s g = (ra, g1)" by (cases "assert_session_active x now s g")
  show ?thesis
  proof (cases ra)
    case (Inl err)
    obtain o' g2 where w: "write_audit x ?e (Deny (error_to_string (sqlx_display x) err)) f64_one g1 = (o', g2)"
      by (cases "write_audit x ?e (Deny (error_to_string (sqlx_display x) err)) f64_one g1")
    with assms(1) a Inl obtain rw where "o' = Done rw" "g' = g2"
      "r = Inl (case rw of Inl e' \<Rightarrow> e' | Inr _ \<Rightarrow> err)"
      by (auto simp: check_access_with_task_def Let_def split: outcome.splits sum.splits)
    then show ?thesis
      using step_then [OF at_k [OF assert_fails [OF a [unfolded Inl]]]
          one_step [OF at_k [OF audit_rejection [OF w [unfolded \<open>o' = Done rw\<close>]]]]]
      by (simp add: check_outcome_def)
  next
    case passed: (Inr v)
    then have u: "ra = Inr ()" by simp
    obtain re g2 where ev: "evaluate x ?ctx g1 = (re, g2)" by (cases "evaluate x ?ctx g1")
    note first = step_then [OF at_k [OF assert_ok [OF a [unfolded u]]] evaluate_is_a_run [OF ev k]]
    show ?thesis
    proof (cases re)
      case (Inl err)
      with assms(1) a u ev have "r = Inl err" "g' = g2" by (auto simp: check_access_with_task_def Let_def)
      with first Inl show ?thesis by (simp add: check_outcome_def)
    next
      case (Inr d)
      obtain o' g3 where w: "write_audit x ?e d (ec_risk_score ?ctx) g2 = (o', g3)"
        by (cases "write_audit x ?e d (ec_risk_score ?ctx) g2")
      with assms(1) a u ev Inr obtain rw where "o' = Done rw" "g' = g3"
        "r = (case rw of Inl e' \<Rightarrow> Inl e' | Inr _ \<Rightarrow> Inr d)"
        by (auto simp: check_access_with_task_def Let_def split: outcome.splits sum.splits)
      then show ?thesis
        using rtranclp_trans [OF first [unfolded Inr sum.case]
            one_step [OF at_k [OF audit_is_a_run [OF w [unfolded \<open>o' = Done rw\<close>]]]]]
        by (cases rw) (simp_all add: check_outcome_def)
    qed
  qed
qed

text \<open>The channel has room, or no receiver, after one round of the audit task at most.\<close>

definition can_audit :: "'a guard_state_scheme \<Rightarrow> bool" where
  "can_audit g \<longleftrightarrow>
     \<not> wr_running (gd_writer g) \<or> length (wr_queue (gd_writer g)) < wr_capacity (gd_writer g)"

lemma can_audit_returns:
  assumes "can_audit g"
  obtains r g' where "write_audit x e d risk g = (Done r, g')"
proof -
  have "\<exists>r g'. write_audit x e d risk g = (Done r, g')"
    using assms by (auto simp: can_audit_def write_audit_def Let_def audit_write_def split: prod.split)
  then show ?thesis using that by blast
qed

lemma worker_recv_makes_room:
  assumes "worker_recv x d w = Some (ev, d', w')" "wr_queue w = entry # queue"
  shows "wr_queue w' = queue \<and> wr_capacity w' = wr_capacity w"
  using assms by (auto simp: worker_recv_def Let_def worker_flush_def split: if_splits prod.splits)

lemma make_room:
  assumes "writer_inv (gd_writer g)"
  obtains g1 where "service_reach x cfg (g, T) (g1, T)" "can_audit g1"
proof (cases "can_audit g")
  case True
  then show ?thesis by (intro that [of g]) simp_all
next
  case False
  let ?w = "gd_writer g" and ?g1 = "guard_call_step x cfg Writer_recv g"
  from False assms have run: "wr_running ?w" and full: "length (wr_queue ?w) = wr_capacity ?w"
    by (auto simp: can_audit_def writer_inv_def)
  with assms obtain entry queue where q: "wr_queue ?w = entry # queue"
    by (cases "wr_queue ?w") (auto simp: writer_inv_def)
  have "can_audit ?g1"
  proof (cases "wr_period ?w = 0")
    case True
    with run show ?thesis by (simp add: writer_task_def worker_abort_def can_audit_def)
  next
    case False
    from q obtain ev g' w' where r: "worker_recv x g ?w = Some (ev, g', w')"
      by (cases "worker_recv x g ?w") (auto simp: worker_recv_def Let_def)
    with worker_recv_makes_room [OF r q] False run full q show ?thesis
      by (auto simp: writer_task_def can_audit_def)
  qed
  moreover have "service_reach x cfg (g, T) (?g1, T)" by (rule one_step) (rule call, simp)
  ultimately show ?thesis by (rule that [rotated])
qed

fun is_request :: "check_task \<Rightarrow> bool" where
  "is_request Statement_done = False"
| "is_request Invalidated = False"
| "is_request _ = True"

fun finished :: "check_task \<Rightarrow> bool" where
  "finished (Answered q s ctx d) = True"
| "finished (Failed q s err) = True"
| "finished _ = False"

definition finishes :: "extern \<Rightarrow> guard_config \<Rightarrow> check_task list \<Rightarrow> nat \<Rightarrow> guard_state \<Rightarrow> check_task \<Rightarrow> bool" where
  "finishes x cfg T k g t \<longleftrightarrow>
     (\<exists>g' t'. service_reach x cfg (g, T[k := t]) (g', T[k := t']) \<and> finished t')"

lemma finishes_now: "finished t \<Longrightarrow> finishes x cfg T k g t"
  unfolding finishes_def by blast

lemma finishes_after_room:
  assumes "writer_inv (gd_writer g)" "\<And>g1. can_audit g1 \<Longrightarrow> finishes x cfg T k g1 t"
  shows "finishes x cfg T k g t"
proof -
  obtain g1 where "service_reach x cfg (g, T[k := t]) (g1, T[k := t])" "can_audit g1"
    using make_room [OF assms(1)] .
  with assms(2) show ?thesis unfolding finishes_def by (meson rtranclp_trans)
qed

lemma finishes_step:
  assumes "k < length T" "task_step x cfg (g, t) w (g', t')" "finishes x cfg T k g' t'"
  shows "finishes x cfg T k g t"
  using assms(3) step_then [OF work_at [OF assms(1,2)]] unfolding finishes_def by blast

lemma decided_finishes:
  assumes "k < length T"
  shows "writer_inv (gd_writer g) \<Longrightarrow> finishes x cfg T k g (Decided q s e ctx d)"
proof (rule finishes_after_room)
  fix g1 :: guard_state assume "can_audit g1"
  then obtain r g' where w: "write_audit x e d (ec_risk_score ctx) g1 = (Done r, g')"
    by (rule can_audit_returns)
  show "finishes x cfg T k g1 (Decided q s e ctx d)"
    by (rule finishes_step [OF assms audit_is_a_run [OF w] finishes_now]) (simp split: sum.split)
qed

lemma rejected_finishes:
  assumes "k < length T"
  shows "writer_inv (gd_writer g) \<Longrightarrow> finishes x cfg T k g (Rejected q s e err)"
proof (rule finishes_after_room)
  fix g1 :: guard_state assume "can_audit g1"
  then obtain r g' where
    w: "write_audit x e (Deny (error_to_string (sqlx_display x) err)) f64_one g1 = (Done r, g')"
    by (rule can_audit_returns)
  show "finishes x cfg T k g1 (Rejected q s e err)"
    by (rule finishes_step [OF assms audit_rejection [OF w] finishes_now]) simp
qed

lemma fetched_finishes:
  assumes "k < length T" "writer_inv (gd_writer g)"
  shows "finishes x cfg T k g (Fetched q s e ctx ps)"
  by (rule finishes_step [OF assms(1) store decided_finishes [OF assms(1)]]) (simp add: assms(2))

lemma missed_finishes:
  assumes k: "k < length T" and w: "writer_inv (gd_writer g)"
  shows "finishes x cfg T k g (Missed q s e ctx)"
proof -
  obtain r g1 where l: "load_policies_from_db x g = (r, g1)" by (cases "load_policies_from_db x g")
  then have "writer_inv (gd_writer g1)" using w by (auto simp: load_step)
  then show ?thesis
    using finishes_step [OF k load fetched_finishes [OF k]] finishes_step [OF k load_fails finishes_now] l
    by (cases r) auto
qed

lemma asserted_finishes:
  assumes k: "k < length T" and w: "writer_inv (gd_writer g)"
  shows "finishes x cfg T k g (Asserted q s e ctx)"
  using finishes_step [OF k cache_hit decided_finishes [OF k w]]
    finishes_step [OF k cache_miss missed_finishes [OF k w]] by blast

lemma request_finishes:
  assumes k: "k < length T" and w: "writer_inv (gd_writer g)" and "is_request t"
  shows "finishes x cfg T k g t"
proof -
  note step = finishes_step [OF k]
  have validated: "finishes x cfg T k g (Validated q s e)" for q s e
  proof -
    obtain r g1 where a: "assert_session_active x 0 s g = (r, g1)" by (cases "assert_session_active x 0 s g")
    then have "writer_inv (gd_writer g1)" using w by (auto simp: assert_session_active_step)
    then show ?thesis
      using step [OF assert_ok asserted_finishes [OF k]] step [OF assert_fails rejected_finishes [OF k]] a
      by (cases r) (auto simp: unit_eq)
  qed
  show ?thesis
    using assms(3) validated missed_finishes [OF k w] fetched_finishes [OF k w] asserted_finishes [OF k w] decided_finishes [OF k w]
      rejected_finishes [OF k w] by (cases t) (simp_all add: finishes_now)
qed

end
