(* ===== verification/Demo_Guard.thy ===== *)
theory Demo_Guard
  imports Guard_Run
begin

text \<open>
  A concrete guard for the witnesses: one administrator's session, one policy that allows
  administrators, third-party functions from \<open>demo_extern\<close>, and an access check evaluated on it.
\<close>

section \<open>An instance of the whole guard\<close>

definition demo_g :: extern where
  "demo_g = demo_extern [(JArray [], ''[]''), (demo_rules_json, ''R1''), (JObject [], ''{}'')] []
     [(''tok'', demo_claims 65)]"

definition admin_row :: "int \<Rightarrow> session_row" where
  "admin_row revoked = (demo_session_row revoked)\<lparr>sr_role := ''admin''\<rparr>"

definition demo_guard_db :: "int \<Rightarrow> db" where
  "demo_guard_db revoked =
     empty_db\<lparr>db_sessions := [admin_row revoked], db_policies := [demo_row 1 ''R1'']\<rparr>"

definition demo_guard :: "int \<Rightarrow> audit_entry list \<Rightarrow> policy list \<Rightarrow> guard_state" where
  "demo_guard revoked q cache = engine.extend (engine_new (demo_guard_db revoked)\<lparr>pe_cache := cache\<rparr>)
     (guard_state.fields \<lparr>wr_queue = q, wr_capacity = 4, wr_batch_size = 2, wr_batch = [], wr_period = 100,
        wr_running = True, wr_closed = False\<rparr>)"

definition demo_request :: check_access_request where
  "demo_request = \<lparr>car_session_token = ''tok'', car_action = ''read'', car_resource = ''doc'', car_task = ''read''\<rparr>"

definition admin_session :: guard_session where
  "admin_session = demo_session\<lparr>gs_role := ''admin''\<rparr>"

lemma demo_g_simps [simp]:
  "uuid_show demo_g u = replicate (unat u) (CHR ''u'')"
  "ts_millis demo_g t = t div 1000000"
  "parse_uuid demo_g (replicate n (CHR ''u'')) = Inr (of_nat n)"
  "uuid_laws demo_g" "chrono_laws demo_g"
  by (auto simp: demo_g_def) (auto simp: demo_extern_def unary_def parse_uuid_def)

lemma demo_g_uuids [simp]:
  "parse_uuid demo_g ''u'' = Inr 1" "parse_uuid demo_g ''uu'' = Inr 2" "parse_uuid demo_g ''uuu'' = Inr 3"
  using demo_g_simps(3) [of 1] demo_g_simps(3) [of 2] demo_g_simps(3) [of 3]
  by (simp_all del: demo_g_simps)

lemma demo_g_from_ms [simp]: "\<bar>m\<bar> \<le> 8000000000000000 \<Longrightarrow> from_ms demo_g m = Inr (m * 1000000)"
  by (simp add: from_ms_def demo_g_def demo_extern_def)

lemma demo_g_json [simp]:
  "json_text demo_g (JObject []) = Inr ''{}''" "json_rt demo_g (JObject [])"
  "json_from_str demo_g dec_scopes ''[]'' = Inr []"
  "json_from_str demo_g (dec_rules demo_g) ''R1'' = Inr demo_rules"
proof -
  show "json_text demo_g (JObject []) = Inr ''{}''"
    by (simp add: demo_g_def demo_extern_def demo_rules_json_def)
  then show "json_rt demo_g (JObject [])"
    by (simp add: json_rt_def) (simp add: demo_g_def demo_extern_def)
  show "json_from_str demo_g dec_scopes ''[]'' = Inr []"
    by (simp add: json_from_str_def demo_g_def demo_extern_def dec_scopes_def dec_list_def)
  have "json_parse demo_g ''R1'' = Inr demo_rules_json" by (simp add: demo_g_def demo_extern_def)
  moreover have "list_all rule_finite demo_rules" by (simp add: demo_rules_def)
  ultimately show "json_from_str demo_g (dec_rules demo_g) ''R1'' = Inr demo_rules"
    using dec_enc_rules [of demo_g demo_rules] by (simp add: json_from_str_def)
qed

lemma demo_guard_parts [simp]:
  "db_faults (demo_guard v q c) = []" "pe_cache (demo_guard v q c) = c"
  "db_sessions (demo_guard v q c) = [admin_row v]" "db_policies (demo_guard v q c) = [demo_row 1 ''R1'']"
  "db_audit (demo_guard v q c) = []" "scan_policies (demo_guard v q c) = id"
  "wr_queue (gd_writer (demo_guard v q c)) = q" "wr_running (gd_writer (demo_guard v q c))"
  by (simp_all add: demo_guard_def engine_new_def db.defs engine.defs guard_state.defs demo_guard_db_def empty_db_def)

lemma demo_guard_cache: "demo_guard v q c\<lparr>pe_cache := c'\<rparr> = demo_guard v q c'"
  by (simp add: demo_guard_def engine_new_def db.defs engine.defs guard_state.defs)

lemma demo_guard_new:
  "guard_new demo_g False demo_cfg draw dir (demo_guard_db v) = Done (Inr (demo_guard v [] []))"
  by (simp add: guard_new_def demo_cfg_def writer_new_def Let_def demo_guard_def engine_new_def
      db.defs engine.defs guard_state.defs)

lemma demo_guard_wf: "db_wf (demo_guard_db v)" "ids_shown demo_g (db_policies (demo_guard_db v))"
  by (auto simp: db_wf_def demo_guard_db_def empty_db_def ids_shown_def demo_row_def intro!: exI [of _ 1])

lemma admin_row_decodes:
  "row_to_session_record demo_g (admin_row v) =
     Inr \<lparr>se_id = 1, se_agent_id = 2, se_workspace_id = 3, se_role = ''admin'', se_scopes = [],
          se_created_at = 5000000000, se_expires_at = 65000000000, se_revoked = (v \<noteq> 0)\<rparr>"
  by (simp add: row_to_session_record_def admin_row_def demo_session_row_def)

lemma demo_token:
  "jwt_decode demo_g (jwt_secret demo_cfg) 6000000000 ''tok'' = Inr (demo_claims 65)"
  by (simp add: demo_g_def demo_extern_def demo_claims_def)

lemma demo_guard_validate:
  "validate_session demo_g demo_cfg 6000000000 6000000000 ''tok'' (demo_guard 0 q c) = (Inr admin_session, demo_guard 0 q c)"
proof -
  have "sr_id (admin_row 0) = ''u''" by (simp add: admin_row_def demo_session_row_def)
  then show ?thesis
    by (simp add: validate_session_def act_bind_case demo_token query_healthy check_session_row_def
        admin_row_decodes admin_session_def demo_session_def demo_claims_def)
qed

lemma demo_guard_active:
  "assert_session_active demo_g 6000000000 admin_session (demo_guard 0 q c) = (Inr (), demo_guard 0 q c)"
  by (simp add: assert_session_active_step next_fault_def session_row_active_def admin_row_def
      demo_session_row_def admin_session_def demo_session_def)

lemma demo_guard_load:
  "load_policies_from_db demo_g (demo_guard 0 q c) = (Inr [demo_policy 1 demo_rules], demo_guard 0 q c)"
proof -
  have "row_to_policy demo_g (demo_row 1 ''R1'') = Inr (demo_policy 1 demo_rules)"
    by (simp add: row_to_policy_def demo_row_def demo_policy_def)
  moreover have "pr_enabled (demo_row 1 ''R1'') = 1" by (simp add: demo_row_def)
  ultimately show ?thesis
    by (simp add: load_step next_fault_def policies_now_def enabled_rows_def select_rows_def del: One_nat_def)
qed

abbreviation demo_entry_logged :: audit_entry where
  "demo_entry_logged \<equiv> decide_entry (base_entry 9 6000000000 admin_session ''read'' ''doc'') Allow
     (compute_risk demo_cfg 10 (access_context admin_session ''read'' ''doc'' ''read''))"

lemma demo_guard_check:
  "check_access_with_task demo_g demo_cfg 9 6000000000 6000000000 10 admin_session ''read'' ''doc'' ''read''
     (demo_guard 0 [] []) = (Done (Inr Allow), demo_guard 0 [demo_entry_logged] [demo_policy 1 demo_rules])"
proof -
  let ?ctx = "scored_context demo_cfg 10 admin_session ''read'' ''doc'' ''read''"
  have "eval_policies [demo_policy 1 demo_rules] ?ctx = Allow"
    by (simp add: demo_policy_def demo_rules_def scored_context_def access_context_def Let_def admin_session_def)
  then have ev: "evaluate demo_g ?ctx (demo_guard 0 [] []) =
      (Inr Allow, demo_guard 0 [] [demo_policy 1 demo_rules])"
    by (simp add: evaluate_def cached_policies_def act_bind_case demo_guard_load demo_guard_cache)
  have w: "write_audit demo_g e Allow risk (demo_guard 0 [] c) =
      (Done (Inr ()), demo_guard 0 [decide_entry e Allow risk] c)" for e risk c
    by (simp add: write_audit_def Let_def audit_write_def)
      (simp add: demo_guard_def engine_new_def db.defs engine.defs guard_state.defs)
  show ?thesis
    by (simp add: check_access_with_task_def Let_def demo_guard_active ev w)
       (simp add: scored_context_def Let_def)
qed

lemma demo_rpc_allow:
  "rpc_check_access demo_g demo_cfg 6000000000 6000000000 9 6000000000 6000000000 10 demo_request (demo_guard 0 [] []) =
     (Done (Inr (decision_response Allow)), demo_guard 0 [demo_entry_logged] [demo_policy 1 demo_rules])"
  by (simp add: rpc_check_access_def demo_request_def demo_guard_validate demo_guard_check)

lemma demo_revoked: "revoke_session demo_g 1 (demo_guard 0 [] []) = (Inr (), demo_guard 1 [] [])"
  by (simp add: revoke_session_def exec_sessions_def sql_healthy)
     (simp add: demo_guard_def engine_new_def demo_guard_db_def empty_db_def update_rows_def admin_row_def
        demo_session_row_def db.defs engine.defs guard_state.defs)

end
