(* ===== verification/Race_Claims.thy ===== *)
theory Race_Claims
  imports Guard_Race Demo_Guard
begin

text \<open>
  The properties of the service under concurrency: what an answer has behind it and that it is logged,
  what revocation stops, and that no request is stuck.
\<close>

section \<open>An instance\<close>

definition demo_ctx_admin :: eval_context where
  "demo_ctx_admin = scored_context demo_cfg 10 admin_session ''read'' ''doc'' ''read''"

abbreviation demo_start :: service_state where
  "demo_start \<equiv> (demo_guard 0 [] [], [])"

abbreviation demo_waiting :: check_task where
  "demo_waiting \<equiv> Validated demo_request admin_session (base_entry 9 6000000000 admin_session
     (car_action demo_request) (car_resource demo_request))"

abbreviation demo_end :: service_state where
  "demo_end \<equiv> (demo_guard 0 [demo_entry_logged] [demo_policy 1 demo_rules],
     [Answered demo_request admin_session demo_ctx_admin Allow])"

lemma demo_guard_inv: "guard_inv demo_g (demo_guard 0 [] [])"
  by (rule guard_new_inv [OF demo_guard_new [where v = 0] demo_guard_wf [of 0]])

lemma demo_validated:
  "service_step demo_g demo_cfg demo_start (Accepts 6000000000 6000000000 demo_request)
     (demo_guard 0 [] [], [demo_waiting])"
proof -
  have "validate_session demo_g demo_cfg 6000000000 6000000000 (car_session_token demo_request) (demo_guard 0 [] []) =
      (Inr admin_session, demo_guard 0 [] [])"
    by (simp add: demo_request_def demo_guard_validate)
  from validate [OF this, of "[]" 9 6000000000] show ?thesis by simp
qed

lemma demo_checked: "service_reach demo_g demo_cfg (demo_guard 0 [] [], [demo_waiting]) demo_end"
proof -
  have "check_access_with_task demo_g demo_cfg 9 6000000000 6000000000 10 admin_session
      (car_action demo_request) (car_resource demo_request) (car_task demo_request) (demo_guard 0 [] []) =
    (Done (Inr Allow), demo_guard 0 [demo_entry_logged] [demo_policy 1 demo_rules])"
    using demo_guard_check by (simp add: demo_request_def)
  from check_is_a_run [OF this, of 0 "[demo_waiting]"] show ?thesis
    by (simp add: demo_request_def check_outcome_def demo_ctx_admin_def)
qed

lemma demo_run_service: obtains tr where "service_run demo_g demo_cfg demo_start tr demo_end"
  using reach_run [OF step_then [OF demo_validated demo_checked]] .

section \<open>Answers\<close>

text \<open>
  C6. Under any interleaving of requests, policy changes and the audit task, an \<open>allow\<close> given to the
  \<open>k\<close>-th request of a run is justified by that run: the request was accepted in a state in which its own
  token validated, by the clocks read then, to the session; in a later state its check found the row of
  that session active, by the clock read then; the context evaluated is that of the session and of the
  request's own action, resource and task, with the risk computed at that hour; and in some state of
  the run the policies in force gave \<open>allow\<close> for it as the decision of the first rule that fires.
\<close>

theorem concurrent_allow_is_justified:
  assumes "guard_inv x g0" and "service_run x cfg (g0, []) tr (g, T)"
    and "k < length T" and "T ! k = Answered q s ctx Allow"
  shows "(\<exists>tr1 h1 T1 jwt_now now0 st1 tr2 h2 T2 now hour st2 tr3.
      tr = tr1 @ ((h1, T1), Accepts jwt_now now0 q, st1) # tr2 @ ((h2, T2), Works k (Checks now hour), st2) # tr3 \<and>
      length T1 = k \<and> validate_session x cfg jwt_now now0 (car_session_token q) h1 = (Inr s, fst st1) \<and>
      assert_session_active x now s h2 = (Inr (), fst st2) \<and>
      ctx = scored_context cfg hour s (car_action q) (car_resource q) (car_task q)) \<and>
    (\<exists>ps us c vs. was_in_force x (g0, []) tr ps \<and>
       concat (map p_rules ps) = us @ AllowIf c # vs \<and> cond_matches c ctx \<and>
       (\<forall>u\<in>set us. \<not> rule_fires ctx u))"
proof
  have story: "task_story x cfg (g0, []) tr k (Answered q s ctx Allow)"
    using service_run_inv [OF assms(2,1)] assms(3,4) unfolding run_inv_def by (metis snd_conv)
  then obtain ps where ps: "was_in_force x (g0, []) tr ps" "eval_policies ps ctx = Allow"
    and checked: "was_checked x cfg tr k q s ctx" by auto
  obtain us rl vs where rl: "concat (map p_rules ps) = us @ rl # vs"
    "rule_fires ctx rl" "rule_decision rl = Allow" "\<forall>u\<in>set us. \<not> rule_fires ctx u"
    using ps(2) first_match_cases [of "concat (map p_rules ps)" ctx Allow] by (auto simp: eval_policies_first_match)
  then obtain c where "rl = AllowIf c" "cond_matches c ctx" by (cases rl) auto
  with rl ps(1) show "\<exists>ps us c vs. was_in_force x (g0, []) tr ps \<and>
      concat (map p_rules ps) = us @ AllowIf c # vs \<and> cond_matches c ctx \<and> (\<forall>u\<in>set us. \<not> rule_fires ctx u)"
    by blast
  from checked show "\<exists>tr1 h1 T1 jwt_now now0 st1 tr2 h2 T2 now hour st2 tr3.
      tr = tr1 @ ((h1, T1), Accepts jwt_now now0 q, st1) # tr2 @ ((h2, T2), Works k (Checks now hour), st2) # tr3 \<and>
      length T1 = k \<and> validate_session x cfg jwt_now now0 (car_session_token q) h1 = (Inr s, fst st1) \<and>
      assert_session_active x now s h2 = (Inr (), fst st2) \<and>
      ctx = scored_context cfg hour s (car_action q) (car_resource q) (car_task q)"
    unfolding was_checked_def was_validated_def by (metis append_Cons append_assoc)
qed

theorem concurrent_allow_is_justified_witness:
  "\<exists>tr h T now hour st. service_run demo_g demo_cfg demo_start tr demo_end \<and>
     ((h, T), Works 0 (Checks now hour), st) \<in> set tr \<and>
     assert_session_active demo_g now admin_session h = (Inr (), fst st) \<and>
     demo_ctx_admin = scored_context demo_cfg hour admin_session ''read'' ''doc'' ''read''"
proof -
  obtain tr where run: "service_run demo_g demo_cfg demo_start tr demo_end" by (rule demo_run_service)
  obtain tr1 h1 T1 jwt_now now0 st1 tr2 h2 T2 now hour st2 tr3 where
    "tr = tr1 @ ((h1, T1), Accepts jwt_now now0 demo_request, st1) # tr2 @
      ((h2, T2), Works 0 (Checks now hour), st2) # tr3"
    "assert_session_active demo_g now admin_session h2 = (Inr (), fst st2)"
    "demo_ctx_admin = scored_context demo_cfg hour admin_session (car_action demo_request)
      (car_resource demo_request) (car_task demo_request)"
    using concurrent_allow_is_justified [OF demo_guard_inv run, of 0 demo_request admin_session demo_ctx_admin]
    by auto
  moreover from this(1) have "((h2, T2), Works 0 (Checks now hour), st2) \<in> set tr" by simp
  ultimately show ?thesis using run by (intro exI [of _ tr] exI conjI) (assumption | simp add: demo_request_def)+
qed

text \<open>
  C12. Every answer is logged, under any interleaving: for each request of a run that was answered, a
  step of that request put the entry of its decision - with its session, agent, workspace, action,
  resource and the risk of its context - in the audit channel, or wrote it to the table because the
  channel was closed.
\<close>

theorem concurrent_answers_are_logged:
  assumes "guard_inv x g0" and "service_run x cfg (g0, []) tr (g, T)"
    and "k < length T" and "T ! k = Answered q s ctx d"
  shows "\<exists>h1 T1 w st i ts. ((h1, T1), Works k w, st) \<in> set tr \<and>
    logged x h1 (fst st)
      (decide_entry (base_entry i ts s (car_action q) (car_resource q)) d (ec_risk_score ctx))"
proof -
  have "task_story x cfg (g0, []) tr k (Answered q s ctx d)"
    using service_run_inv [OF assms(2,1)] assms(3,4) unfolding run_inv_def by (metis snd_conv)
  then show ?thesis unfolding task_story.simps was_logged_def by fastforce
qed

theorem concurrent_answers_are_logged_witness:
  "\<exists>tr h T w st i ts. service_run demo_g demo_cfg demo_start tr demo_end \<and> ((h, T), Works 0 w, st) \<in> set tr \<and>
     logged demo_g h (fst st)
       (decide_entry (base_entry i ts admin_session ''read'' ''doc'') Allow (ec_risk_score demo_ctx_admin))"
proof -
  obtain tr where run: "service_run demo_g demo_cfg demo_start tr demo_end" by (rule demo_run_service)
  from concurrent_answers_are_logged [OF demo_guard_inv run, of 0 demo_request admin_session demo_ctx_admin Allow] run
  show ?thesis by (auto simp: demo_request_def) blast
qed

section \<open>Revocation\<close>

text \<open>
  C7. Revocation stops the requests in flight: once \<open>revoke_session\<close> has returned, each request of that
  session that had not passed its own check of the session by then - one that had not arrived, and also
  one whose token has validated before - is never answered with a decision, whatever runs in between
  and whatever other requests of the session are past their checks or answered.
\<close>

theorem revocation_stops_requests_in_flight:
  assumes "List.find (\<lambda>r. sr_id r = uuid_show x i) (db_sessions g) \<noteq> None"
    and "revoke_session x i g = (Inr (), g1)"
    and "length T \<le> k \<or> \<not> past_check i (T ! k)"
    and "service_reach x cfg (g1, T) (g2, T2)"
    and "k < length T2" and "T2 ! k = Answered q s ctx d"
  shows "gs_id s \<noteq> i"
proof -
  have "session_revoked x i (db_sessions g1)" by (rule revoke_session_revoked [OF assms(2,1)])
  then have "locked_out x i k (g1, T)" using assms(3) by (auto simp: locked_out_def)
  then have "locked_out x i k (g2, T2)" by (rule locked_out_reach [OF assms(4)])
  then show ?thesis using assms(5,6) by (auto simp: locked_out_def)
qed

text \<open>In the witness the session has been served before, and one request is in flight.\<close>

theorem revocation_stops_requests_in_flight_witness:
  "\<not> (\<exists>g2 t q ctx d. service_reach demo_g demo_cfg
     (demo_guard 1 [] [], [Answered demo_request admin_session demo_ctx_admin Allow, demo_waiting])
     (g2, [t, Answered q admin_session ctx d]))"
proof
  let ?T = "[Answered demo_request admin_session demo_ctx_admin Allow, demo_waiting]"
  assume "\<exists>g2 t q ctx d. service_reach demo_g demo_cfg (demo_guard 1 [] [], ?T)
     (g2, [t, Answered q admin_session ctx d])"
  then obtain g2 t q ctx d where run: "service_reach demo_g demo_cfg (demo_guard 1 [] [], ?T)
     (g2, [t, Answered q admin_session ctx d])" by blast
  have "List.find (\<lambda>r. sr_id r = uuid_show demo_g 1) (db_sessions (demo_guard 0 [] [])) = Some (admin_row 0)"
    by (simp add: admin_row_def demo_session_row_def)
  then have "gs_id admin_session \<noteq> 1"
    using revocation_stops_requests_in_flight [OF _ demo_revoked _ run, of 1] by simp
  then show False by (simp add: admin_session_def demo_session_def)
qed

section \<open>Progress\<close>

text \<open>
  C11. No request is stuck: from every state that the service can reach, every request in flight can run
  to its end while the others wait - with an answer or an error - also when the audit channel is full
  or its task has died.
\<close>

theorem requests_can_finish:
  assumes "guard_inv x g0" and "service_reach x cfg (g0, []) (g, T)" and "k < length T" and "is_request (T ! k)"
  shows "\<exists>g' t'. service_reach x cfg (g, T) (g', T[k := t']) \<and> finished t'"
proof -
  have "writer_inv (gd_writer g)"
    using service_reach_writer [OF assms(2)] assms(1) by (simp add: guard_inv_def)
  then have "finishes x cfg T k g (T ! k)" by (intro request_finishes assms(3,4))
  then show ?thesis by (simp add: finishes_def)
qed

theorem requests_can_finish_witness:
  "\<exists>g' t'. service_reach demo_g demo_cfg (demo_guard 0 [] [], [demo_waiting]) (g', [t']) \<and> finished t'"
  using requests_can_finish [OF demo_guard_inv one_step [OF demo_validated], of 0] by simp

end
