(* ===== verification/Row_Types.thy ===== *)
theory Row_Types
  imports Guard_Race
begin

text \<open>
  The types that SQLite does not enforce. The columns of the schema are texts and integers; the code
  relies on more: identifiers and times as the program writes them, flags that are zero or one,
  columns of JSON, and audit entries in one of three shapes. \<open>guard_typed\<close> says so of the tables and
  of the entries that are still on their way to the log, and every operation preserves it.
\<close>

section \<open>Typed rows\<close>

definition row_id :: "extern \<Rightarrow> string \<Rightarrow> bool" where
  "row_id x s \<longleftrightarrow> (\<exists>u. s = uuid_show x u)"

definition row_time :: "extern \<Rightarrow> int \<Rightarrow> bool" where
  "row_time x m \<longleftrightarrow> (\<exists>t. m = ts_millis x t)"

abbreviation row_flag :: "int \<Rightarrow> bool" where
  "row_flag v \<equiv> v \<in> {0, 1}"

definition unit_risk :: "f64 \<Rightarrow> bool" where
  "unit_risk r \<longleftrightarrow> (\<exists>k. r = Fin k \<and> 0 \<le> k \<and> k \<le> 2 ^ 1074)"

definition key_typed :: "extern \<Rightarrow> key_row \<Rightarrow> bool" where
  "key_typed x r \<longleftrightarrow> row_id x (kr_id r) \<and> row_id x (kr_workspace_id r) \<and>
     (\<exists>h. kr_key_hash r = hash_hex x h) \<and> row_time x (kr_created_at r) \<and> row_flag (kr_revoked r) \<and>
     (\<forall>m. kr_last_used_at r = Some m \<longrightarrow> row_time x m)"

definition session_typed :: "extern \<Rightarrow> session_row \<Rightarrow> bool" where
  "session_typed x r \<longleftrightarrow> row_id x (sr_id r) \<and> row_id x (sr_agent_id r) \<and> row_id x (sr_workspace_id r) \<and>
     (\<exists>scopes. json_text x (enc_scopes scopes) = Inr (sr_scopes r)) \<and>
     row_time x (sr_created_at r) \<and> row_time x (sr_expires_at r) \<and> row_flag (sr_revoked r)"

definition policy_typed :: "extern \<Rightarrow> policy_row \<Rightarrow> bool" where
  "policy_typed x r \<longleftrightarrow> row_id x (pr_id r) \<and> (\<exists>rules. json_text x (enc_rules x rules) = Inr (pr_rules r)) \<and>
     row_flag (pr_enabled r) \<and> row_time x (pr_created_at r) \<and> row_time x (pr_updated_at r)"

text \<open>An entry of the log: a decision with what belongs to it, and a risk in the unit interval.\<close>

fun decision_shape :: "string \<Rightarrow> string option \<Rightarrow> json \<Rightarrow> bool" where
  "decision_shape decision reason metadata =
     (if decision = ''Deny'' then reason \<noteq> None \<and> metadata = JObject []
      else if decision = ''Mask'' then
        reason = None \<and> (\<exists>fields. metadata = JObject [(''fields'', JArray (map JString fields))])
      else decision = ''Allow'' \<and> reason = None \<and> metadata = JObject [])"

definition entry_typed :: "audit_entry \<Rightarrow> bool" where
  "entry_typed e \<longleftrightarrow>
     decision_shape (ae_decision e) (ae_reason e) (ae_metadata e) \<and> unit_risk (ae_risk_score e)"

definition audit_typed :: "extern \<Rightarrow> audit_row \<Rightarrow> bool" where
  "audit_typed x r \<longleftrightarrow>
     (\<exists>e m. entry_typed e \<and> json_text x (ae_metadata e) = Inr m \<and> r = entry_to_row x e m)"

definition db_typed :: "extern \<Rightarrow> 'a db_scheme \<Rightarrow> bool" where
  "db_typed x d \<longleftrightarrow> (\<forall>r\<in>set (db_keys d). key_typed x r) \<and> (\<forall>r\<in>set (db_sessions d). session_typed x r) \<and>
     (\<forall>r\<in>set (db_policies d). policy_typed x r) \<and> (\<forall>r\<in>set (db_audit d). audit_typed x r)"

definition writer_typed :: "writer \<Rightarrow> bool" where
  "writer_typed w \<longleftrightarrow> (\<forall>e\<in>set (wr_batch w @ wr_queue w). entry_typed e)"

definition guard_typed :: "extern \<Rightarrow> 'a guard_state_scheme \<Rightarrow> bool" where
  "guard_typed x g \<longleftrightarrow> db_typed x g \<and> writer_typed (gd_writer g)"

lemma row_shown [simp]: "row_id x (uuid_show x u)" "row_time x (ts_millis x t)"
  by (auto simp: row_id_def row_time_def)

lemma db_typed_upd [simp]:
  "db_typed x (d\<lparr>db_faults := fs\<rparr>) = db_typed x d"
  "db_typed x (e\<lparr>pe_cache := c\<rparr>) = db_typed x e"
  "db_typed x (g\<lparr>gd_writer := w\<rparr>) = db_typed x g"
  for e :: "'b engine_scheme" and g :: "'c guard_state_scheme"
  by (simp_all add: db_typed_def)

section \<open>What the statements do\<close>

definition keeps_typed :: "extern \<Rightarrow> ('a db_scheme, 'v) action \<Rightarrow> bool" where
  "keeps_typed x run \<longleftrightarrow> (\<forall>d. db_typed x d \<longrightarrow> db_typed x (snd (run d)))"

named_theorems keeps_rules

lemma keepsD: "keeps_typed x run \<Longrightarrow> run d = (r, d') \<Longrightarrow> db_typed x d \<Longrightarrow> db_typed x d'"
  unfolding keeps_typed_def by (metis snd_conv)

lemma keeps_snd: "keeps_typed x run \<Longrightarrow> db_typed x d \<Longrightarrow> db_typed x (snd (run d))"
  by (simp add: keeps_typed_def)

lemma keeps_each: "\<forall>y\<in>set ys. keeps_typed x (f y) \<Longrightarrow> keeps_typed x (act_each f ys)"
  unfolding keeps_typed_def by (induction ys) (auto intro!: act_bind_inv [of "db_typed x"])

lemma keeps_basic [keeps_rules]:
  "keeps_typed x (act_lift r)" "keeps_typed x (act_return v)" "keeps_typed x (Pair r)"
  "keeps_typed x (query f)"
  by (simp_all add: keeps_typed_def)

lemma keeps_bind [keeps_rules]:
  "keeps_typed x m \<Longrightarrow> (\<And>v. keeps_typed x (f v)) \<Longrightarrow> keeps_typed x (act_bind m f)"
  unfolding keeps_typed_def by (intro allI impI, rule act_bind_inv [of "db_typed x"]) simp_all

text \<open>A statement keeps the types when its function on the table does.\<close>

abbreviation table_keeps :: "('r \<Rightarrow> bool) \<Rightarrow> ('r list \<Rightarrow> sqlx_error + 'r list) \<Rightarrow> bool" where
  "table_keeps P f \<equiv> \<forall>t t'. f t = Inr t' \<longrightarrow> (\<forall>r\<in>set t. P r) \<longrightarrow> (\<forall>r\<in>set t'. P r)"

lemma keeps_exec_keys: "table_keeps (key_typed x) f \<Longrightarrow> keeps_typed x (exec_keys f)"
  unfolding keeps_typed_def
proof (intro allI impI)
  fix d :: "'a db_scheme"
  assume f: "table_keeps (key_typed x) f" and d: "db_typed x d"
  show "db_typed x (snd (exec_keys f d))"
    by (cases rule: exec_keys_cases [of f d]) (use f d in \<open>auto simp: db_typed_def\<close>)
qed

lemma keeps_exec_sessions: "table_keeps (session_typed x) f \<Longrightarrow> keeps_typed x (exec_sessions f)"
  unfolding keeps_typed_def
proof (intro allI impI)
  fix d :: "'a db_scheme"
  assume f: "table_keeps (session_typed x) f" and d: "db_typed x d"
  show "db_typed x (snd (exec_sessions f d))"
    by (cases rule: exec_sessions_cases [of f d]) (use f d in \<open>auto simp: db_typed_def\<close>)
qed

lemma keeps_exec_policies: "table_keeps (policy_typed x) f \<Longrightarrow> keeps_typed x (exec_policies f)"
  unfolding keeps_typed_def
proof (intro allI impI)
  fix d :: "'a db_scheme"
  assume f: "table_keeps (policy_typed x) f" and d: "db_typed x d"
  show "db_typed x (snd (exec_policies f d))"
    by (cases rule: exec_policies_cases [of f d]) (use f d in \<open>auto simp: db_typed_def\<close>)
qed

lemma table_keeps_insert: "P r \<Longrightarrow> table_keeps P (insert_row us r)"
  by (auto simp: insert_row_Inr)

lemma table_keeps_update: "(\<And>r. P r \<Longrightarrow> P (f r)) \<Longrightarrow> table_keeps P (\<lambda>t. Inr (update_rows Q f t))"
  by (auto simp: update_rows_def)

lemma table_keeps_delete: "table_keeps P (\<lambda>t. Inr (delete_rows Q t))"
  by (auto simp: delete_rows_def)

section \<open>Keys, sessions, policies\<close>

lemma keeps_create_key [keeps_rules]: "keeps_typed x (create_key x bytes i now w label)"
  unfolding create_key_def Let_def
  by (intro keeps_rules keeps_exec_keys table_keeps_insert) (auto simp: key_typed_def key_digest_def)

lemma keeps_revoke_key [keeps_rules]: "keeps_typed x (revoke_key x i)"
  unfolding revoke_key_def
  by (intro keeps_exec_keys table_keeps_update) (simp add: key_typed_def)

lemma keeps_key_job: "db_typed x d \<Longrightarrow> db_typed x (run_key_job x now job d)"
proof (cases job)
  case (Touch_key i)
  have "keeps_typed x (exec_keys (\<lambda>t. Inr (update_rows (\<lambda>r. kr_id r = uuid_show x i)
      (\<lambda>r. r\<lparr>kr_last_used_at := Some (ts_millis x now)\<rparr>) t)) :: ('a db_scheme, unit) action)"
    by (intro keeps_exec_keys table_keeps_update) (simp add: key_typed_def)
  moreover assume "db_typed x d"
  ultimately show ?thesis by (simp add: Touch_key keeps_typed_def)
qed

lemma keeps_store_session: "keeps_typed x (store_session x cfg i c e a w role scopes)"
  unfolding keeps_typed_def
proof (intro allI impI)
  fix d :: "'a db_scheme"
  assume d: "db_typed x d"
  let ?ins = "\<lambda>s. exec_sessions (insert_row session_uniques (session_to_row x i a w role s c e))"
  have ins: "db_typed x (snd (?ins s d))" if "json_to_string x (enc_scopes scopes) = Inr s" for s
  proof -
    have "session_typed x (session_to_row x i a w role s c e)"
      using that by (auto simp: session_typed_def session_to_row_def json_to_string_Inr)
    then have "keeps_typed x (?ins s :: ('a db_scheme, unit) action)"
      by (intro keeps_exec_sessions table_keeps_insert)
    with d show ?thesis by (simp add: keeps_typed_def)
  qed
  show "db_typed x (snd (store_session x cfg i c e a w role scopes d))"
    unfolding store_session_def
    by (intro act_bind_inv [of "db_typed x"]) (use d ins in auto)
qed

lemma keeps_create_session: "db_typed x d \<Longrightarrow> db_typed x (snd (create_session x cfg i now a w role scopes ttl d))"
proof (cases "dt_add_secs x now (as_i64 ttl)")
  case (Some e)
  assume "db_typed x d"
  then show ?thesis
    using keeps_store_session [of x cfg i now e a w role scopes]
    by (cases "store_session x cfg i now e a w role scopes d") (auto simp: create_session_def Some dest: keepsD)
qed (simp add: create_session_def)

lemma keeps_validate_session [keeps_rules]: "keeps_typed x (validate_session x cfg jwt_now now token)"
  unfolding validate_session_def by (intro keeps_rules)

lemma keeps_revoke_session [keeps_rules]: "keeps_typed x (revoke_session x i)"
  unfolding revoke_session_def
  by (intro keeps_exec_sessions table_keeps_update) (simp add: session_typed_def)

lemma keeps_assert_session [keeps_rules]: "keeps_typed x (assert_session_active x now s)"
  unfolding assert_session_active_def by (intro keeps_rules)

lemma policy_typed_row:
  "json_to_string x (enc_rules x (p_rules p)) = Inr rules \<Longrightarrow> policy_typed x (policy_to_row x p rules)"
  by (auto simp: policy_typed_def policy_to_row_def json_to_string_Inr)

lemma table_keeps_upsert: "policy_typed x r \<Longrightarrow> table_keeps (policy_typed x) (upsert_row r)"
  by (auto simp: upsert_row_def insert_row_Inr update_rows_def policy_typed_def split: if_splits)

lemma keeps_upsert_statement [keeps_rules]: "keeps_typed x (upsert_statement x p)"
proof (cases "json_to_string x (enc_rules x (p_rules p))")
  case (Inl e)
  then show ?thesis by (simp add: upsert_statement_def keeps_typed_def)
next
  case (Inr rules)
  have "keeps_typed x (exec_policies (upsert_row (policy_to_row x p rules)) :: ('a db_scheme, unit) action)"
    by (intro keeps_exec_policies table_keeps_upsert policy_typed_row Inr)
  with Inr show ?thesis by (simp add: upsert_statement_def keeps_typed_def)
qed

lemma keeps_remove_statement [keeps_rules]: "keeps_typed x (remove_statement x i)"
  unfolding remove_statement_def by (intro keeps_exec_policies table_keeps_delete)

lemma keeps_invalidate [keeps_rules]: "keeps_typed x (\<lambda>e. (Inr (), invalidate_cache e))"
  by (simp add: keeps_typed_def invalidate_cache_def)

lemma keeps_upsert_policy [keeps_rules]: "keeps_typed x (upsert_policy x p)"
  unfolding policy_write_pieces [abs_def] by (intro keeps_rules)

lemma keeps_remove_policy [keeps_rules]: "keeps_typed x (remove_policy x i)"
  unfolding policy_write_pieces [abs_def] by (intro keeps_rules)

lemma keeps_load [keeps_rules]: "keeps_typed x (load_policies_from_db x)"
  unfolding load_policies_from_db_def by (intro keeps_rules)

lemma keeps_list [keeps_rules]: "keeps_typed x (list_policies x)"
  unfolding list_policies_def by (intro keeps_rules)

lemma keeps_evaluate [keeps_rules]: "keeps_typed x (evaluate x ctx)"
proof -
  have "keeps_typed x (cached_policies x :: ('a engine_scheme, policy list) action)"
    by (auto simp: keeps_typed_def cached_policies_def act_bind_case load_step split: sum.split option.split)
  then show ?thesis unfolding evaluate_def by (intro keeps_rules)
qed

lemma keeps_upsert_all [keeps_rules]: "keeps_typed x (upsert_all x ps latest)"
  by (induction ps arbitrary: latest) (auto intro!: keeps_rules)

lemma keeps_add_policy [keeps_rules]: "keeps_typed x (add_policy_from_toml x draw source name)"
  unfolding add_policy_from_toml_def by (intro keeps_rules)

lemma keeps_load_entries [keeps_rules]: "keeps_typed x (load_entries x draw k entries)"
  by (induction x draw k entries rule: load_entries.induct)
     (auto intro!: keeps_rules split: sum.split option.split)

lemma keeps_load_from_dir [keeps_rules]: "keeps_typed x (load_from_dir x draw dir)"
  unfolding load_from_dir_def by (auto intro!: keeps_rules split: option.split sum.split)

section \<open>The audit log\<close>

lemma keeps_write_direct: "entry_typed e \<Longrightarrow> keeps_typed x (write_direct x e)"
  unfolding keeps_typed_def
proof (intro allI impI)
  fix d :: "'a db_scheme"
  assume e: "entry_typed e" and d: "db_typed x d"
  show "db_typed x (snd (write_direct x e d))"
  proof (cases rule: write_direct_cases [of x e d])
    case (2 m)
    then have "audit_typed x (entry_to_row x e m)" using e by (auto simp: audit_typed_def json_to_string_Inr)
    with 2 d show ?thesis by (auto simp: db_typed_def)
  qed (simp add: d)
qed

lemma keeps_write_each: "\<forall>e\<in>set es. entry_typed e \<Longrightarrow> keeps_typed x (act_each (write_direct x) es)"
  by (intro keeps_each ballI keeps_write_direct) simp

lemma db_typed_rollback: "db_typed x d1 \<Longrightarrow> db_typed x d2 \<Longrightarrow> db_typed x (rollback_to d1 d2)"
  by (simp add: db_typed_def rollback_to_def)

lemma keeps_flush_batch:
  assumes "\<forall>e\<in>set batch. entry_typed e" "db_typed x d"
  shows "db_typed x (snd (flush_batch x batch d))"
proof -
  obtain r1 d1 where b: "begin_tx d = (r1, d1)" by (cases "begin_tx d")
  obtain r2 d2 where w: "act_each (write_direct x) batch d1 = (r2, d2)"
    by (cases "act_each (write_direct x) batch d1")
  obtain r3 d3 where c: "commit_tx d2 = (r3, d3)" by (cases "commit_tx d2")
  have "db_typed x d1" using keepsD [OF keeps_basic(4) b [unfolded begin_tx_def] assms(2)] .
  moreover have "db_typed x d2" using keepsD [OF keeps_write_each [OF assms(1)] w calculation] .
  moreover have "db_typed x d3" using keepsD [OF keeps_basic(4) c [unfolded commit_tx_def]] calculation(2) .
  ultimately show ?thesis
    using assms(2) by (auto simp: flush_batch_def b w c split: sum.split intro: db_typed_rollback)
qed

lemma worker_flush_typed:
  assumes "worker_flush x d w = (ev, d', w')" "writer_typed w" "db_typed x d"
  shows "writer_typed w' \<and> db_typed x d'"
proof -
  obtain r b d1 where f: "flush_batch x (wr_batch w) d = ((r, b), d1)"
    by (metis prod.collapse)
  have "db_typed x (snd (flush_batch x (wr_batch w) d))"
    by (rule keeps_flush_batch) (use assms(2,3) in \<open>auto simp: writer_typed_def\<close>)
  moreover have "set b \<subseteq> set (wr_batch w)"
    using f by (auto simp: flush_batch_def split: if_splits prod.splits sum.splits)
  ultimately show ?thesis using assms f by (auto simp: worker_flush_def writer_typed_def)
qed

lemma worker_recv_typed:
  assumes "worker_recv x d w = Some (ev, d', w')" "writer_typed w" "db_typed x d"
  shows "writer_typed w' \<and> db_typed x d'"
proof (cases "wr_queue w")
  case Nil
  then show ?thesis
    using assms worker_flush_typed [of x d w]
    by (auto simp: worker_recv_def writer_typed_def split: if_splits prod.splits)
next
  case (Cons e es)
  let ?w = "w\<lparr>wr_queue := es, wr_batch := wr_batch w @ [e]\<rparr>"
  have "writer_typed ?w" using assms(2) Cons by (auto simp: writer_typed_def)
  then show ?thesis
    using assms(1,3) worker_flush_typed [of x d ?w ev d' w'] Cons
    by (auto simp: worker_recv_def Let_def split: if_splits)
qed

lemma writer_task_typed:
  assumes "guard_typed x g"
  shows "guard_typed x (writer_task (worker_recv x g (gd_writer g)) g)"
    and "guard_typed x (writer_task (Some (worker_flush x g (gd_writer g))) g)"
  using assms worker_recv_typed [of x g "gd_writer g"] worker_flush_typed [of x g "gd_writer g"]
  by (auto simp: writer_task_def guard_typed_def worker_abort_def writer_typed_def
      split: option.split prod.split)

section \<open>The access check\<close>

definition base_typed :: "audit_entry \<Rightarrow> bool" where
  "base_typed e \<longleftrightarrow> ae_reason e = None \<and> ae_metadata e = JObject []"

lemma base_entry_typed: "base_typed (base_entry i ts s action resource)"
  by (simp add: base_typed_def base_entry_def)

lemma scored_context_risk: "unit_risk (ec_risk_score (scored_context cfg hour s action resource task))"
  using lit_tenths_range [OF min.cobounded1 risk_tenths_not_2]
  by (simp add: scored_context_def Let_def unit_risk_def compute_risk_tenths)

lemma one_risk: "unit_risk f64_one"
  using lit_tenths_range [of 10] by (simp add: unit_risk_def lit_10_one)

lemma decide_entry_typed: "base_typed e \<Longrightarrow> unit_risk risk \<Longrightarrow> entry_typed (decide_entry e d risk)"
  by (cases d) (auto simp: base_typed_def entry_typed_def decide_entry_def)

lemma write_audit_typed:
  assumes "write_audit x e d risk g = (o', g')" "base_typed e" "unit_risk risk" "guard_typed x g"
  shows "guard_typed x g'"
proof -
  let ?e = "decide_entry e d risk"
  have e: "entry_typed ?e" by (rule decide_entry_typed [OF assms(2,3)])
  obtain o1 w where a: "audit_write ?e (gd_writer g) = (o1, w)" by (cases "audit_write ?e (gd_writer g)")
  then have w: "writer_typed w"
    using assms(4) e by (auto simp: audit_write_def writer_typed_def guard_typed_def split: if_splits)
  obtain r g2 where wd: "write_direct x ?e (g\<lparr>gd_writer := w\<rparr>) = (r, g2)"
    by (cases "write_direct x ?e (g\<lparr>gd_writer := w\<rparr>)")
  have "db_typed x (g\<lparr>gd_writer := w\<rparr>)" using assms(4) by (simp add: guard_typed_def)
  from keepsD [OF keeps_write_direct [OF e] wd this] have d: "db_typed x g2" .
  have "gd_writer g2 = w"
    using db_quiet_writer [OF write_direct_quiet [of "g\<lparr>gd_writer := w\<rparr>" x ?e]] wd by simp
  with assms(1,4) w d show ?thesis
    by (auto simp: write_audit_def Let_def a wd guard_typed_def split: outcome.splits sum.splits)
qed

section \<open>Calls and steps\<close>

text \<open>An operation on the tables only, and one of the policy engine.\<close>

lemma guard_typed_quiet:
  fixes run :: "(guard_state, 'v) action"
  assumes "keeps_typed x run" "\<And>g. db_quiet g (snd (run g))" "guard_typed x g" "run g = (r, g')"
  shows "guard_typed x g'"
  using keepsD [OF assms(1,4)] db_quiet_writer [OF assms(2) [of g]] assms(3,4) by (simp add: guard_typed_def)

lemma guard_typed_engine:
  fixes run :: "(guard_state, 'v) action"
  assumes "keeps_typed x run" "op_ok x run" "guard_typed x g" "run g = (r, g')"
  shows "guard_typed x g'"
proof -
  have "engine_frame g g'" using assms(2,4) unfolding op_ok_def by (metis snd_conv)
  then have "gd_writer g' = gd_writer g" by (cases g; cases g') (simp add: engine_frame_def)
  with keepsD [OF assms(1,4)] assms(3) show ?thesis by (simp add: guard_typed_def)
qed

lemmas session_calls_typed =
  guard_typed_quiet [OF keeps_validate_session validate_session_quiet]
  guard_typed_quiet [OF keeps_revoke_session revoke_session_quiet]
  guard_typed_quiet [OF keeps_assert_session assert_session_quiet]

lemmas engine_calls_typed =
  guard_typed_engine [OF keeps_evaluate op_ok_evaluate]
  guard_typed_engine [OF keeps_add_policy op_ok_add]
  guard_typed_engine [OF keeps_list list_op.engine_op_axioms [folded op_ok_engine_op]]
  guard_typed_engine [OF keeps_remove_policy remove_op.engine_op_axioms [folded op_ok_engine_op]]
  guard_typed_engine [OF keeps_load_from_dir load_dir_op.engine_op_axioms [folded op_ok_engine_op]]

lemma guard_typed_faults [simp]: "guard_typed x (g\<lparr>db_faults := fs\<rparr>) = guard_typed x g"
  for g :: guard_state
  by (simp add: guard_typed_def)

lemma create_session_typed:
  fixes g :: guard_state
  assumes "create_session x cfg i now a w role scopes ttl g = (o', g')" "guard_typed x g"
  shows "guard_typed x g'"
  using assms keeps_create_session [of x g cfg i now a w role scopes ttl]
    db_quiet_writer [OF create_session_quiet [of g x cfg i now a w role scopes ttl]]
  by (simp add: guard_typed_def)

lemma key_call_typed:
  fixes g :: guard_state
  assumes "guard_typed x g"
  shows "guard_typed x (key_call_step x k g)"
proof -
  have "db_typed x (key_call_step x k g)"
    using assms
    by (cases k) (simp_all add: guard_typed_def keeps_key_job validate_key_step
        keeps_snd [OF keeps_create_key] keeps_snd [OF keeps_revoke_key])
  moreover have "db_quiet g (key_call_step x k g)" by (cases k) (simp_all add: key_call_quiet)
  ultimately show ?thesis using assms db_quiet_writer [of g "key_call_step x k g"] by (simp add: guard_typed_def)
qed

lemma check_access_typed:
  fixes g :: guard_state
  assumes "check_access_with_task x cfg i ts now hour s action resource task g = (o', g')" "guard_typed x g"
  shows "guard_typed x g'"
proof -
  let ?ctx = "scored_context cfg hour s action resource task"
  obtain r1 g1 where a: "assert_session_active x now s g = (r1, g1)" by (cases "assert_session_active x now s g")
  then have 1: "guard_typed x g1" by (rule session_calls_typed(3) [OF assms(2)])
  obtain r2 g2 where e: "evaluate x ?ctx g1 = (r2, g2)" by (cases "evaluate x ?ctx g1")
  then have 2: "guard_typed x g2" by (rule engine_calls_typed(1) [OF 1])
  note audited = write_audit_typed [OF _ base_entry_typed]
  show ?thesis
    using assms(1) 1 2
    by (auto simp: check_access_with_task_def Let_def a e split: sum.splits prod.splits outcome.splits
        dest!: audited intro: one_risk scored_context_risk)
qed

lemma guard_call_typed:
  fixes g :: guard_state
  assumes "guard_typed x g"
  shows "guard_typed x (guard_call_step x cfg c g)"
proof (cases c)
  case (Rpc_check_access jwt_now now0 i ts now hour q)
  with assms show ?thesis
    by (auto simp: rpc_check_access_def split: sum.split prod.split outcome.split
        dest: session_calls_typed check_access_typed)
next
  case (Rpc_create_session i now q)
  with assms show ?thesis
    by (auto simp: rpc_create_session_def split: sum.split prod.split outcome.split dest: create_session_typed)
next
  case (Rpc_validate_session jwt_now now token)
  with assms show ?thesis
    by (auto simp: rpc_validate_session_def split: sum.split prod.split dest: session_calls_typed)
next
  case (Rpc_revoke_session i)
  with assms show ?thesis
    by (auto simp: rpc_revoke_session_def split: sum.split prod.split dest: session_calls_typed)
next
  case (Rpc_add_policy draw name source)
  with assms show ?thesis
    by (auto simp: rpc_add_policy_def split: sum.split prod.split dest: engine_calls_typed)
next
  case Rpc_list_policies
  with assms show ?thesis
    by (auto simp: rpc_list_policies_def split: sum.split prod.split dest: engine_calls_typed)
next
  case (Rpc_remove_policy i)
  with assms show ?thesis
    by (auto simp: rpc_remove_policy_def split: sum.split prod.split dest: engine_calls_typed)
next
  case (Rpc_query_audit_log q)
  with assms show ?thesis
    by (auto simp: rpc_query_audit_log_def query_audit_def query_audit_step split: sum.split prod.split)
next
  case (Guard_key k)
  then show ?thesis using key_call_typed [OF assms] by simp
next
  case (Lib_check_access i ts now hour s action resource task)
  then show ?thesis
    using assms check_access_typed [of x cfg i ts now hour s action resource task g]
    by (cases "check_access_with_task x cfg i ts now hour s action resource task g") simp
next
  case (Lib_create_session i now a w role scopes ttl)
  then show ?thesis
    using assms create_session_typed [of x cfg i now a w role scopes ttl g]
    by (cases "create_session x cfg i now a w role scopes ttl g") simp
next
  case (Lib_list_active_sessions oc a now opts)
  with assms show ?thesis by (simp add: list_active_sessions_state)
next
  case (Lib_load_from_dir draw dir)
  then show ?thesis
    using assms engine_calls_typed(5) [of x g draw dir] by (cases "load_from_dir x draw dir g") simp
qed (simp_all add: assms writer_task_typed)

lemma guard_calls_typed: "guard_typed x g \<Longrightarrow> guard_typed x (fold (guard_call_step x cfg) calls g)"
  by (induction calls arbitrary: g) (simp_all add: guard_call_typed)

text \<open>The entries and scores that the tasks of a run carry.\<close>

fun task_typed :: "check_task \<Rightarrow> bool" where
  "task_typed (Validated q s e) = base_typed e"
| "task_typed (Asserted q s e ctx) = (base_typed e \<and> unit_risk (ec_risk_score ctx))"
| "task_typed (Missed q s e ctx) = (base_typed e \<and> unit_risk (ec_risk_score ctx))"
| "task_typed (Fetched q s e ctx ps) = (base_typed e \<and> unit_risk (ec_risk_score ctx))"
| "task_typed (Decided q s e ctx d) = (base_typed e \<and> unit_risk (ec_risk_score ctx))"
| "task_typed (Rejected q s e err) = base_typed e"
| "task_typed _ = True"

definition service_typed :: "extern \<Rightarrow> service_state \<Rightarrow> bool" where
  "service_typed x st \<longleftrightarrow> guard_typed x (fst st) \<and> (\<forall>t\<in>set (snd st). task_typed t)"

lemma task_step_typed:
  assumes "task_step x cfg (g, t) w (g', t')" "guard_typed x g" "task_typed t"
  shows "guard_typed x g' \<and> task_typed t'"
  using assms(1)
proof cases
  case invalidate
  with assms(2) show ?thesis by (simp add: guard_typed_def invalidate_cache_def)
next
  case (load ps q s e ctx)
  with assms show ?thesis by (auto simp: load_step)
next
  case (load_fails err q s e ctx)
  with assms show ?thesis by (auto simp: load_step)
next
  case (store q s e ctx ps)
  with assms show ?thesis by (simp add: guard_typed_def)
qed (use assms(2,3) in \<open>auto simp: scored_context_risk dest: session_calls_typed write_audit_typed
    intro: one_risk\<close>)

lemma service_step_typed:
  assumes "service_step x cfg s ev s'" "service_typed x s"
  shows "service_typed x s'"
  using assms(1)
proof cases
  case (call c g T)
  with assms(2) show ?thesis by (simp add: service_typed_def guard_call_typed)
next
  case (validate jwt_now now0 q g u g' T i ts)
  with assms(2) show ?thesis by (auto simp: service_typed_def base_entry_typed dest: session_calls_typed)
next
  case (upsert p g r g' T)
  then show ?thesis
    using assms(2) keepsD [OF keeps_upsert_statement upsert(4)] statement_frame(1) [of x p g]
    by (auto simp: service_typed_def guard_typed_def service_frame_def split: if_splits)
next
  case (remove i g r g' T)
  then show ?thesis
    using assms(2) keepsD [OF keeps_remove_statement remove(4)] statement_frame(2) [of x i g]
    by (auto simp: service_typed_def guard_typed_def service_frame_def split: if_splits)
next
  case (work k T g w g' t)
  have "guard_typed x g' \<and> task_typed t"
    by (rule task_step_typed [OF work(5)]) (use assms(2) work in \<open>simp_all add: service_typed_def\<close>)
  with assms(2) work show ?thesis
    using set_update_subset_insert [of T k t] by (auto simp: service_typed_def)
qed

lemma service_reach_typed:
  "service_reach x cfg s s' \<Longrightarrow> service_typed x s \<Longrightarrow> service_typed x s'"
  by (erule reach_keeps) (rule service_step_typed)

text \<open>A guard that is opened on typed tables.\<close>

lemma engine_new_typed [simp]: "db_typed x (engine_new d) = db_typed x d"
  by (simp add: db_typed_def engine_new_def db.defs)

lemma guard_new_typed:
  assumes "guard_new x oc cfg draw dir d = Done (Inr g)" "db_typed x d"
  shows "guard_typed x g"
proof -
  let ?init = "case policy_dir cfg of None \<Rightarrow> (Inr 0, engine_new d)
    | Some _ \<Rightarrow> load_from_dir x draw dir (engine_new d)"
  have init: "db_typed x (snd ?init)"
    using assms(2) by (simp add: keeps_snd [OF keeps_load_from_dir] split: option.split)
  from assms(1) obtain n e w where "?init = (Inr n, e)"
    "writer_new oc (audit_flush_interval_ms cfg) (audit_batch_size cfg) = Done w"
    "g = engine.extend e (guard_state.fields w)"
    by (auto simp: guard_new_def split: prod.splits sum.splits outcome.splits)
  with init show ?thesis
    by (auto simp: guard_typed_def db_typed_def writer_typed_def writer_new_def Let_def engine.defs
        guard_state.defs split: if_splits)
qed

section \<open>Reading typed rows\<close>

text \<open>
  A row can be read when chrono has its times and \<open>serde_json\<close> reads back what it wrote in its column
  of JSON; for rules, also when their thresholds are finite (\<open>Policy_Codec\<close>).
\<close>

abbreviation time_readable :: "extern \<Rightarrow> int \<Rightarrow> bool" where
  "time_readable x m \<equiv> dt_from_millis x m \<noteq> None"

definition text_reads_back :: "extern \<Rightarrow> string \<Rightarrow> bool" where
  "text_reads_back x s \<longleftrightarrow> (\<forall>v. json_text x v = Inr s \<longrightarrow> json_parse x s = Inr v)"

definition key_readable :: "extern \<Rightarrow> key_row \<Rightarrow> bool" where
  "key_readable x r \<longleftrightarrow> time_readable x (kr_created_at r) \<and>
     (\<forall>m. kr_last_used_at r = Some m \<longrightarrow> time_readable x m)"

definition session_readable :: "extern \<Rightarrow> session_row \<Rightarrow> bool" where
  "session_readable x r \<longleftrightarrow> time_readable x (sr_created_at r) \<and> time_readable x (sr_expires_at r) \<and>
     text_reads_back x (sr_scopes r)"

definition policy_readable :: "extern \<Rightarrow> policy_row \<Rightarrow> bool" where
  "policy_readable x r \<longleftrightarrow> time_readable x (pr_created_at r) \<and> time_readable x (pr_updated_at r) \<and>
     text_reads_back x (pr_rules r) \<and>
     (\<forall>rules. json_text x (enc_rules x rules) = Inr (pr_rules r) \<longrightarrow> list_all rule_finite rules)"

definition audit_readable :: "extern \<Rightarrow> audit_row \<Rightarrow> bool" where
  "audit_readable x r \<longleftrightarrow> time_readable x (ar_ts r) \<and>
     (\<forall>m. ar_metadata r = Some m \<longrightarrow> text_reads_back x m)"

text \<open>The rows of a key and of a session, at any time of their lives.\<close>

definition key_row_of :: "extern \<Rightarrow> api_key_record \<Rightarrow> key_row" where
  "key_row_of x k =
     \<lparr>kr_id = uuid_show x (ak_id k), kr_key_hash = ak_key_hash k,
      kr_workspace_id = uuid_show x (ak_workspace_id k), kr_label = ak_label k,
      kr_created_at = ts_millis x (ak_created_at k), kr_revoked = (if ak_revoked k then 1 else 0),
      kr_last_used_at = map_option (ts_millis x) (ak_last_used_at k)\<rparr>"

definition session_row_of :: "extern \<Rightarrow> session_record \<Rightarrow> string \<Rightarrow> session_row" where
  "session_row_of x s scopes =
     (session_to_row x (se_id s) (se_agent_id s) (se_workspace_id s) (se_role s) scopes
        (se_created_at s) (se_expires_at s))\<lparr>sr_revoked := if se_revoked s then 1 else 0\<rparr>"

lemma read_id: "uuid_laws x \<Longrightarrow> row_id x s \<Longrightarrow> \<exists>u. parse_uuid x s = Inr u \<and> uuid_show x u = s"
  by (auto simp: row_id_def)

lemma read_time: "chrono_laws x \<Longrightarrow> time_readable x m \<Longrightarrow> \<exists>t. from_ms x m = Inr t \<and> ts_millis x t = m"
  by (auto simp: from_ms_def ts_millis_div dest: dt_from_millis_Some)

lemma read_json:
  "text_reads_back x s \<Longrightarrow> json_text x v = Inr s \<Longrightarrow>
     json_from_str x dec s = ok_or (SerializationError (serde_mismatch x)) (dec v)"
  by (simp add: text_reads_back_def json_from_str_def)

lemma typed_key_reads:
  assumes "uuid_laws x" "chrono_laws x" "key_typed x r" "key_readable x r"
  shows "\<exists>k. row_to_api_key_record x r = Inr k \<and> key_row_of x k = r"
proof -
  obtain i w where ids: "parse_uuid x (kr_id r) = Inr i" "uuid_show x i = kr_id r"
    "parse_uuid x (kr_workspace_id r) = Inr w" "uuid_show x w = kr_workspace_id r"
    using read_id [OF assms(1)] assms(3) unfolding key_typed_def by metis
  obtain c where c: "from_ms x (kr_created_at r) = Inr c" "ts_millis x c = kr_created_at r"
    using read_time [OF assms(2)] assms(4) unfolding key_readable_def by metis
  have "\<exists>u. opt_res (from_ms x) (kr_last_used_at r) = Inr u \<and> map_option (ts_millis x) u = kr_last_used_at r"
  proof (cases "kr_last_used_at r")
    case (Some m)
    then obtain t where "from_ms x m = Inr t" "ts_millis x t = m"
      using read_time [OF assms(2)] assms(4) unfolding key_readable_def by metis
    with Some show ?thesis by simp
  qed simp
  then obtain u where "opt_res (from_ms x) (kr_last_used_at r) = Inr u"
    "map_option (ts_millis x) u = kr_last_used_at r" by blast
  with ids c assms(3) show ?thesis
    by (cases r) (auto simp: row_to_api_key_record_def key_row_of_def key_typed_def)
qed

lemma typed_session_reads:
  assumes "uuid_laws x" "chrono_laws x" "session_typed x r" "session_readable x r"
  shows "\<exists>s. row_to_session_record x r = Inr s \<and> json_text x (enc_scopes (se_scopes s)) = Inr (sr_scopes r) \<and>
    session_row_of x s (sr_scopes r) = r"
proof -
  obtain i a w where ids: "parse_uuid x (sr_id r) = Inr i" "uuid_show x i = sr_id r"
    "parse_uuid x (sr_agent_id r) = Inr a" "uuid_show x a = sr_agent_id r"
    "parse_uuid x (sr_workspace_id r) = Inr w" "uuid_show x w = sr_workspace_id r"
    using read_id [OF assms(1)] assms(3) unfolding session_typed_def by metis
  obtain c e where times: "from_ms x (sr_created_at r) = Inr c" "ts_millis x c = sr_created_at r"
    "from_ms x (sr_expires_at r) = Inr e" "ts_millis x e = sr_expires_at r"
    using read_time [OF assms(2)] assms(4) unfolding session_readable_def by metis
  obtain scopes where scopes: "json_text x (enc_scopes scopes) = Inr (sr_scopes r)"
    using assms(3) unfolding session_typed_def by blast
  then have "json_from_str x dec_scopes (sr_scopes r) = Inr scopes"
    using read_json [OF _ scopes, of dec_scopes] assms(4) by (simp add: session_readable_def dec_enc_scopes)
  with ids times scopes assms(3) show ?thesis
    by (cases r) (auto simp: row_to_session_record_def session_row_of_def session_to_row_def session_typed_def)
qed

lemma typed_policy_reads:
  assumes "uuid_laws x" "chrono_laws x" "policy_typed x r" "policy_readable x r"
  shows "\<exists>p. row_to_policy x r = Inr p \<and> json_text x (enc_rules x (p_rules p)) = Inr (pr_rules r) \<and>
    policy_to_row x p (pr_rules r) = r"
proof -
  obtain i where id: "parse_uuid x (pr_id r) = Inr i" "uuid_show x i = pr_id r"
    using read_id [OF assms(1)] assms(3) unfolding policy_typed_def by metis
  obtain c u where times: "from_ms x (pr_created_at r) = Inr c" "ts_millis x c = pr_created_at r"
    "from_ms x (pr_updated_at r) = Inr u" "ts_millis x u = pr_updated_at r"
    using read_time [OF assms(2)] assms(4) unfolding policy_readable_def by metis
  obtain rules where rules: "json_text x (enc_rules x rules) = Inr (pr_rules r)"
    using assms(3) unfolding policy_typed_def by blast
  then have "json_from_str x (dec_rules x) (pr_rules r) = Inr rules"
    using read_json [OF _ rules, of "dec_rules x"] assms(1,4) by (simp add: policy_readable_def dec_enc_rules)
  with id times rules assms(3) show ?thesis
    by (cases r) (auto simp: row_to_policy_def policy_to_row_def policy_typed_def)
qed

lemma typed_audit_reads:
  assumes "uuid_laws x" "chrono_laws x" "audit_typed x r" "audit_readable x r"
  shows "\<exists>e m. row_to_audit_entry x r = Inr e \<and> json_text x (ae_metadata e) = Inr m \<and> entry_to_row x e m = r"
proof -
  obtain e0 m where e0: "entry_typed e0" "json_text x (ae_metadata e0) = Inr m" "r = entry_to_row x e0 m"
    using assms(3) unfolding audit_typed_def by blast
  obtain t where t: "from_ms x (ar_ts r) = Inr t" "ts_millis x t = ar_ts r"
    using read_time [OF assms(2)] assms(4) unfolding audit_readable_def by metis
  have "json_from_str x Some m = Inr (ae_metadata e0)"
    using read_json [OF _ e0(2), of Some] assms(4) e0(3) by (simp add: audit_readable_def entry_to_row_def)
  moreover have "ae_risk_score e0 \<noteq> NaN" using e0(1) by (auto simp: entry_typed_def unit_risk_def)
  ultimately have "row_to_audit_entry x r = Inr (e0\<lparr>ae_ts := t\<rparr>)"
    using t(1) assms(1) e0(3) by (simp add: row_to_audit_entry_def entry_to_row_def get_column_def)
  with e0 t(2) show ?thesis by (auto simp: entry_to_row_def)
qed

end
