(* ===== verification/Socket_Addr.thy ===== *)
theory Socket_Addr
  imports Rust_Std "HOL-Library.Word"
begin

text \<open>
  \<open>FromStr\<close> of \<open>std::net::SocketAddr\<close>, with which \<open>bin/guard-server.rs\<close> reads its bind address: the
  recursive-descent parser of the standard library. A reader takes a text and returns a value with the
  rest, or nothing and then has consumed nothing.
\<close>

type_synonym 'a reader = "string \<Rightarrow> ('a \<times> string) option"

datatype socket_addr =
    V4 "8 word list" "16 word"
  | V6 "16 word list" "32 word" "16 word"

definition to_digit :: "nat \<Rightarrow> char \<Rightarrow> nat option" where
  "to_digit radix c =
     (let n = (of_char c :: nat);
          d = (if 48 \<le> n \<and> n \<le> 57 then n - 48
               else if 65 \<le> n \<and> n \<le> 90 then n - 55
               else if 97 \<le> n \<and> n \<le> 122 then n - 87 else radix)
      in if d < radix then Some d else None)"

fun read_given_char :: "char \<Rightarrow> unit reader" where
  "read_given_char c [] = None"
| "read_given_char c (d # s) = (if d = c then Some ((), s) else None)"

text \<open>The digits of a number below \<open>2 ^ w\<close>, with how many were seen.\<close>

fun read_digits :: "nat \<Rightarrow> nat \<Rightarrow> nat option \<Rightarrow> nat \<Rightarrow> nat \<Rightarrow> (nat \<times> nat) reader" where
  "read_digits radix w max_digits acc seen [] = Some ((acc, seen), [])"
| "read_digits radix w max_digits acc seen (c # s) =
     (case to_digit radix c of
        None \<Rightarrow> Some ((acc, seen), c # s)
      | Some d \<Rightarrow>
          (if max_digits = Some seen \<or> 2 ^ w \<le> acc * radix + d then None
           else read_digits radix w max_digits (acc * radix + d) (Suc seen) s))"

definition read_number :: "nat \<Rightarrow> nat \<Rightarrow> nat option \<Rightarrow> bool \<Rightarrow> nat reader" where
  "read_number radix w max_digits allow_zero_prefix s =
     (case read_digits radix w max_digits 0 0 s of
        None \<Rightarrow> None
      | Some ((n, seen), rest) \<Rightarrow>
          (if seen = 0 \<or> (\<not> allow_zero_prefix \<and> read_given_char (CHR ''0'') s \<noteq> None \<and> 1 < seen)
           then None else Some (n, rest)))"

definition read_separator :: "char \<Rightarrow> nat \<Rightarrow> 'a reader \<Rightarrow> 'a reader" where
  "read_separator sep index inner s =
     (if 0 < index then
        (case read_given_char sep s of None \<Rightarrow> None | Some (_, s') \<Rightarrow> inner s')
      else inner s)"

fun read_octets :: "nat \<Rightarrow> nat \<Rightarrow> 8 word list reader" where
  "read_octets 0 i s = Some ([], s)"
| "read_octets (Suc n) i s =
     (case read_separator (CHR ''.'') i (read_number 10 8 (Some 3) False) s of
        None \<Rightarrow> None
      | Some (octet, s') \<Rightarrow>
          (case read_octets n (Suc i) s' of
             None \<Rightarrow> None
           | Some (octets, s'') \<Rightarrow> Some (of_nat octet # octets, s'')))"

definition read_ipv4_addr :: "8 word list reader" where
  "read_ipv4_addr = read_octets 4 0"

text \<open>Two octets make a group of an IPv6 address.\<close>

fun v4_groups :: "8 word list \<Rightarrow> 16 word list" where
  "v4_groups (a # b # octets) = of_nat (unat a * 256 + unat b) # v4_groups octets"
| "v4_groups octets = []"

text \<open>
  \<open>read_groups\<close> over \<open>n\<close> remaining groups, the \<open>i\<close>-th first: the groups, whether an IPv4 address ended
  them, the rest.
\<close>

fun read_groups :: "nat \<Rightarrow> nat \<Rightarrow> string \<Rightarrow> 16 word list \<times> bool \<times> string" where
  "read_groups 0 i s = ([], False, s)"
| "read_groups (Suc n) i s =
     (case (if 0 < n then read_separator (CHR '':'') i read_ipv4_addr s else None) of
        Some (octets, s') \<Rightarrow> (v4_groups octets, True, s')
      | None \<Rightarrow>
          (case read_separator (CHR '':'') i (read_number 16 16 (Some 4) True) s of
             Some (grp, s') \<Rightarrow>
               (case read_groups n (Suc i) s' of (groups, v4, s'') \<Rightarrow> (of_nat grp # groups, v4, s''))
           | None \<Rightarrow> ([], False, s)))"

definition read_ipv6_addr :: "16 word list reader" where
  "read_ipv6_addr s =
     (case read_groups 8 0 s of
        (head, v4, s1) \<Rightarrow>
          (if length head = 8 then Some (head, s1)
           else if v4 then None
           else case strip_prefix ''::'' s1 of
             None \<Rightarrow> None
           | Some s2 \<Rightarrow>
               (case read_groups (8 - (length head + 1)) 0 s2 of
                  (tail, _, s3) \<Rightarrow>
                    Some (head @ replicate (8 - length head - length tail) 0 @ tail, s3))))"

definition read_port :: "16 word reader" where
  "read_port s =
     (case read_separator (CHR '':'') 1 (read_number 10 16 None True) s of
        None \<Rightarrow> None | Some (port, s') \<Rightarrow> Some (of_nat port, s'))"

definition read_socket_addr_v4 :: "socket_addr reader" where
  "read_socket_addr_v4 s =
     (case read_ipv4_addr s of
        None \<Rightarrow> None
      | Some (ip, s1) \<Rightarrow> (case read_port s1 of None \<Rightarrow> None | Some (port, s2) \<Rightarrow> Some (V4 ip port, s2)))"

definition read_scope_id :: "32 word reader" where
  "read_scope_id s =
     (case read_separator (CHR ''%'') 1 (read_number 10 32 None True) s of
        None \<Rightarrow> None | Some (scope, s') \<Rightarrow> Some (of_nat scope, s'))"

definition read_socket_addr_v6 :: "socket_addr reader" where
  "read_socket_addr_v6 s =
     (case read_separator (CHR ''['') 1 read_ipv6_addr s of
        None \<Rightarrow> None
      | Some (ip, s1) \<Rightarrow>
          (case (case read_scope_id s1 of None \<Rightarrow> (0, s1) | Some r \<Rightarrow> r) of
             (scope, s2) \<Rightarrow>
               (case read_separator (CHR '']'') 1 read_port s2 of
                  None \<Rightarrow> None | Some (port, s3) \<Rightarrow> Some (V6 ip scope port, s3))))"

text \<open>The whole text has to be read.\<close>

definition parse_socket_addr :: "string \<Rightarrow> string + socket_addr" where
  "parse_socket_addr s =
     (case (case read_socket_addr_v4 s of None \<Rightarrow> read_socket_addr_v6 s | r \<Rightarrow> r) of
        Some (addr, []) \<Rightarrow> Inr addr
      | _ \<Rightarrow> Inl ''invalid socket address syntax'')"

section \<open>Facts\<close>

text \<open>The default of \<open>guard-server\<close>.\<close>

lemma digit_chars [simp]:
  "to_digit 10 (CHR ''0'') = Some 0" "to_digit 10 (CHR ''1'') = Some 1" "to_digit 10 (CHR ''5'') = Some 5"
  "to_digit 10 (CHR ''.'') = None" "to_digit 10 (CHR '':'') = None"
  by (simp_all add: to_digit_def)

lemma read_zero_octet:
  "c \<in> {CHR ''.'', CHR '':''} \<Longrightarrow>
     read_number 10 8 (Some 3) False (CHR ''0'' # c # s) = Some (0, c # s)"
  by (auto simp: read_number_def)

lemma read_four_octets: "read_ipv4_addr s = read_octets (Suc (Suc (Suc (Suc 0)))) 0 s"
  by (simp add: read_ipv4_addr_def eval_nat_numeral)

lemma parse_default_addr: "parse_socket_addr ''0.0.0.0:50051'' = Inr (V4 [0, 0, 0, 0] 50051)"
proof -
  have "read_ipv4_addr ''0.0.0.0:50051'' = Some ([0, 0, 0, 0], '':50051'')"
    by (simp add: read_four_octets read_separator_def read_zero_octet)
  moreover have "read_port '':50051'' = Some (50051, [])"
    by (simp add: read_port_def read_separator_def read_number_def)
  ultimately show ?thesis by (simp add: parse_socket_addr_def read_socket_addr_v4_def)
qed

text \<open>What was parsed has the shape of an address.\<close>

fun addr_ok :: "socket_addr \<Rightarrow> bool" where
  "addr_ok (V4 octets port) \<longleftrightarrow> length octets = 4"
| "addr_ok (V6 groups scope port) \<longleftrightarrow> length groups = 8"

lemma read_octets_length: "read_octets n i s = Some (os, s') \<Longrightarrow> length os = n"
  by (induction n i s arbitrary: os s' rule: read_octets.induct) (auto split: option.splits)

lemma v4_groups_length: "length (v4_groups os) = length os div 2"
  by (induction os rule: v4_groups.induct) auto

lemma read_groups_length: "read_groups n i s = (gs, v4, s') \<Longrightarrow> length gs \<le> n"
proof (induction n i s arbitrary: gs v4 s' rule: read_groups.induct)
  case (2 n i s)
  have v4: "length (v4_groups os) = 2" if "read_separator (CHR '':'') i read_ipv4_addr s = Some (os, s1)" for os s1
    using that by (auto simp: read_separator_def read_ipv4_addr_def v4_groups_length
        dest!: read_octets_length split: if_splits option.splits)
  from 2 show ?case
    by (auto split: option.splits if_splits prod.splits dest!: v4)
qed auto

lemma parse_socket_addr_ok: "parse_socket_addr s = Inr a \<Longrightarrow> addr_ok a"
proof -
  assume "parse_socket_addr s = Inr a"
  then consider "read_socket_addr_v4 s = Some (a, [])" | "read_socket_addr_v6 s = Some (a, [])"
    by (auto simp: parse_socket_addr_def split: option.splits list.splits)
  then show ?thesis
  proof cases
    case 1
    then show ?thesis
      by (auto simp: read_socket_addr_v4_def read_ipv4_addr_def split: option.splits dest!: read_octets_length)
  next
    case 2
    have "length ip = 8" if "read_ipv6_addr s1 = Some (ip, s2)" for s1 s2 ip
      using that
      by (auto simp: read_ipv6_addr_def split: prod.splits if_splits option.splits dest!: read_groups_length)
    with 2 show ?thesis
      by (auto simp: read_socket_addr_v6_def read_separator_def split: option.splits prod.splits)
  qed
qed

end
