(* ===== verification/Server.thy ===== *)
theory Server
  imports Row_Types Socket_Addr
begin

text \<open>
  The life of the process: \<open>main\<close> of \<open>src/bin/guard-server.rs\<close>, \<open>Guard::new\<close> from the opening of the
  pool on, and what a database file keeps from one process to the next. What the system gives the
  process - its environment, the files behind the pool and the policy directory, the answers of
  \<open>sqlx\<close> - is the record \<open>host\<close>.
\<close>

section \<open>The database file\<close>

text \<open>
  The tables of a file; one that no migration has created yet is \<open>None\<close>. No statement of the program
  reads or writes \<open>data_masks\<close>.
\<close>

record mask_row =
  mr_id :: string
  mr_field_pattern :: string
  mr_mask_type :: string
  mr_config :: "string option"

record db_file =
  file_keys :: "key_row list option"
  file_sessions :: "session_row list option"
  file_policies :: "policy_row list option"
  file_audit :: "audit_row list option"
  file_masks :: "mask_row list option"

text \<open>\<open>CREATE TABLE IF NOT EXISTS\<close>, and the migration that creates the tables.\<close>

definition create_table :: "'r list option \<Rightarrow> 'r list option" where
  "create_table t = Some (case t of None \<Rightarrow> [] | Some rows \<Rightarrow> rows)"

definition run_migrations :: "db_file \<Rightarrow> db_file" where
  "run_migrations f =
     \<lparr>file_keys = create_table (file_keys f), file_sessions = create_table (file_sessions f),
      file_policies = create_table (file_policies f), file_audit = create_table (file_audit f),
      file_masks = create_table (file_masks f)\<rparr>"

definition table_rows :: "'r list option \<Rightarrow> 'r list" where
  "table_rows t = (case t of None \<Rightarrow> [] | Some rows \<Rightarrow> rows)"

text \<open>
  The open database: the tables of the file, with the faults and the orders of scanning of \<open>plan\<close>
  (whose own tables are not used).
\<close>

definition opened_db :: "db_file \<Rightarrow> db \<Rightarrow> db" where
  "opened_db f plan =
     plan\<lparr>db_keys := table_rows (file_keys f), db_sessions := table_rows (file_sessions f),
          db_policies := table_rows (file_policies f), db_audit := table_rows (file_audit f)\<rparr>"

text \<open>What a process leaves when it ends, in whatever way: its tables and the untouched one, and nothing
  that was in memory.\<close>

definition file_of :: "mask_row list \<Rightarrow> 'a db_scheme \<Rightarrow> db_file" where
  "file_of masks d =
     \<lparr>file_keys = Some (db_keys d), file_sessions = Some (db_sessions d),
      file_policies = Some (db_policies d), file_audit = Some (db_audit d), file_masks = Some masks\<rparr>"

section \<open>Starting\<close>

record host =
  ho_env :: env
  ho_connect :: "string \<Rightarrow> sqlx_error + db_file"
  ho_migrator :: "db_file \<Rightarrow> string option"
  ho_plan :: db
  ho_dir :: "string \<Rightarrow> (string + (string + policy_entry) list) option"
  ho_draw :: "nat \<Rightarrow> nat \<Rightarrow> uuid \<times> datetime"

text \<open>\<open>Guard::new\<close>: connect, migrate (\<open>ho_migrator\<close> is sqlx's own objection, if any), load policies.\<close>

definition guard_open ::
    "extern \<Rightarrow> bool \<Rightarrow> guard_config \<Rightarrow> host \<Rightarrow> guard_state guard_result outcome" where
  "guard_open x overflow_checks cfg h =
     (case ho_connect h (sqlite_connection_string cfg) of
        Inl e \<Rightarrow> Done (Inl (DatabaseError e))
      | Inr f \<Rightarrow>
          (case ho_migrator h f of
             Some m \<Rightarrow> Done (Inl (MigrationError m))
           | None \<Rightarrow>
               guard_new x overflow_checks cfg (ho_draw h)
                 (case policy_dir cfg of None \<Rightarrow> None | Some dir \<Rightarrow> ho_dir h dir)
                 (opened_db (run_migrations f) (ho_plan h))))"

text \<open>\<open>serve\<close>: how the transport ends, as the code reports it.\<close>

definition serve :: "string option \<Rightarrow> unit guard_result" where
  "serve transport_error =
     (case transport_error of
        None \<Rightarrow> Inr ()
      | Some m \<Rightarrow> Inl (ConfigError (''gRPC server failed: '' @ m)))"

datatype main_error =
    Main_guard guard_error
  | Main_addr string

text \<open>\<open>main\<close> up to the call of \<open>serve\<close>.\<close>

definition server_start ::
    "extern \<Rightarrow> bool \<Rightarrow> host \<Rightarrow> (main_error + guard_config \<times> guard_state \<times> socket_addr) outcome" where
  "server_start x overflow_checks h =
     (case from_env (ho_env h) of
        Inl e \<Rightarrow> Done (Inl (Main_guard e))
      | Inr cfg \<Rightarrow>
          (case guard_open x overflow_checks cfg h of
             Panicked \<Rightarrow> Panicked
           | Pending \<Rightarrow> Pending
           | Done (Inl e) \<Rightarrow> Done (Inl (Main_guard e))
           | Done (Inr g) \<Rightarrow>
               (case parse_socket_addr (case ho_env h ''CLAW_GUARD_GRPC_ADDR'' of
                    Some v \<Rightarrow> v | None \<Rightarrow> ''0.0.0.0:50051'') of
                  Inl m \<Rightarrow> Done (Inl (Main_addr m))
                | Inr addr \<Rightarrow> Done (Inr (cfg, g, addr)))))"

definition server_main ::
    "extern \<Rightarrow> bool \<Rightarrow> host \<Rightarrow> (guard_state \<Rightarrow> socket_addr \<Rightarrow> string option) \<Rightarrow>
       (main_error + unit) outcome" where
  "server_main x overflow_checks h transport =
     (case server_start x overflow_checks h of
        Panicked \<Rightarrow> Panicked
      | Pending \<Rightarrow> Pending
      | Done (Inl e) \<Rightarrow> Done (Inl e)
      | Done (Inr (cfg, g, addr)) \<Rightarrow>
          (case serve (transport g addr) of
             Inl e \<Rightarrow> Done (Inl (Main_guard e))
           | Inr u \<Rightarrow> Done (Inr u)))"

section \<open>One process after another\<close>

text \<open>
  What one process can make of a file. It serves, under any interleaving, and ends at any point, also
  in the middle of requests; or it ends before it serves, when some policies of its directory have
  been written (any sequence of upserts covers a loading that fails or is interrupted). Scans return the
  rows of a table, as SQLite documents.
\<close>

definition scans_ok :: "db \<Rightarrow> bool" where
  "scans_ok plan \<longleftrightarrow> scan_ok (scan_keys plan) \<and> scan_ok (scan_sessions plan) \<and>
     scan_ok (scan_policies plan) \<and> scan_ok (scan_audit plan)"

inductive lifetime :: "extern \<Rightarrow> bool \<Rightarrow> db_file \<Rightarrow> db_file \<Rightarrow> bool" for x overflow_checks where
  served: "server_start x overflow_checks h = Done (Inr (cfg, g, addr)) \<Longrightarrow>
    ho_connect h (sqlite_connection_string cfg) = Inr f \<Longrightarrow> scans_ok (ho_plan h) \<Longrightarrow>
    service_reach x cfg (g, []) (g', T) \<Longrightarrow> lifetime x overflow_checks f (file_of (table_rows (file_masks f)) g')"
| stopped: "act_each (upsert_statement x) ps (opened_db (run_migrations f) plan) = (r, d) \<Longrightarrow>
    scans_ok plan \<Longrightarrow> lifetime x overflow_checks f (file_of (table_rows (file_masks f)) d)"

abbreviation lifetimes :: "extern \<Rightarrow> bool \<Rightarrow> db_file \<Rightarrow> db_file \<Rightarrow> bool" where
  "lifetimes x oc \<equiv> (lifetime x oc)\<^sup>*\<^sup>*"

section \<open>What holds of the file\<close>

lemma opened_tables [simp]:
  "db_keys (opened_db f plan) = table_rows (file_keys f)"
  "db_sessions (opened_db f plan) = table_rows (file_sessions f)"
  "db_policies (opened_db f plan) = table_rows (file_policies f)"
  "db_audit (opened_db f plan) = table_rows (file_audit f)"
  by (simp_all add: opened_db_def)

lemma migrated_tables [simp]:
  "table_rows (file_keys (run_migrations f)) = table_rows (file_keys f)"
  "table_rows (file_sessions (run_migrations f)) = table_rows (file_sessions f)"
  "table_rows (file_policies (run_migrations f)) = table_rows (file_policies f)"
  "table_rows (file_audit (run_migrations f)) = table_rows (file_audit f)"
  "table_rows (file_masks (run_migrations f)) = table_rows (file_masks f)"
  by (simp_all add: run_migrations_def create_table_def table_rows_def)

lemma file_tables [simp]:
  "table_rows (file_keys (file_of masks d)) = db_keys d"
  "table_rows (file_sessions (file_of masks d)) = db_sessions d"
  "table_rows (file_policies (file_of masks d)) = db_policies d"
  "table_rows (file_audit (file_of masks d)) = db_audit d"
  "table_rows (file_masks (file_of masks d)) = masks"
  by (simp_all add: file_of_def table_rows_def)

lemma migrations_idempotent: "run_migrations (run_migrations f) = run_migrations f"
  by (simp add: run_migrations_def create_table_def)

text \<open>A file whose rows have the types the code relies on; a new file is one.\<close>

definition file_typed :: "extern \<Rightarrow> db_file \<Rightarrow> bool" where
  "file_typed x f \<longleftrightarrow> (\<forall>r\<in>set (table_rows (file_keys f)). key_typed x r) \<and>
     (\<forall>r\<in>set (table_rows (file_sessions f)). session_typed x r) \<and>
     (\<forall>r\<in>set (table_rows (file_policies f)). policy_typed x r) \<and>
     (\<forall>r\<in>set (table_rows (file_audit f)). audit_typed x r)"

definition new_file :: db_file where
  "new_file = \<lparr>file_keys = None, file_sessions = None, file_policies = None, file_audit = None,
     file_masks = None\<rparr>"

lemma new_file_typed: "file_typed x new_file"
  by (simp add: file_typed_def new_file_def table_rows_def)

lemma file_typed_db [simp]:
  "file_typed x (file_of masks d) = db_typed x d"
  "db_typed x (opened_db (run_migrations f) plan) = file_typed x f"
  by (simp_all add: file_typed_def db_typed_def)

text \<open>What a start that succeeds has gone through.\<close>

lemma server_startE:
  assumes "server_start x oc h = Done (Inr (cfg, g, addr))"
  obtains f where "from_env (ho_env h) = Inr cfg"
    "ho_connect h (sqlite_connection_string cfg) = Inr f" "ho_migrator h f = None"
    "guard_new x oc cfg (ho_draw h) (case policy_dir cfg of None \<Rightarrow> None | Some dir \<Rightarrow> ho_dir h dir)
       (opened_db (run_migrations f) (ho_plan h)) = Done (Inr g)"
    "parse_socket_addr (case ho_env h ''CLAW_GUARD_GRPC_ADDR'' of
       Some v \<Rightarrow> v | None \<Rightarrow> ''0.0.0.0:50051'') = Inr addr"
proof -
  from assms obtain cfg' where cfg': "from_env (ho_env h) = Inr cfg'"
    by (cases "from_env (ho_env h)") (simp_all add: server_start_def)
  with assms obtain g' where g': "guard_open x oc cfg' h = Done (Inr g')"
    by (cases "guard_open x oc cfg' h") (auto simp: server_start_def split: sum.splits)
  with assms cfg' have "cfg' = cfg" "g' = g"
    and addr: "parse_socket_addr (case ho_env h ''CLAW_GUARD_GRPC_ADDR'' of
       Some v \<Rightarrow> v | None \<Rightarrow> ''0.0.0.0:50051'') = Inr addr"
    by (auto simp: server_start_def split: sum.splits)
  with cfg' g' show thesis
    by (auto simp: guard_open_def split: sum.splits option.splits intro: that)
qed

lemma guard_new_tables:
  assumes "guard_new x oc cfg draw dir d = Done (Inr g)"
  shows "db_sessions g = db_sessions d" "db_keys g = db_keys d" "db_audit g = db_audit d"
    and "policy_dir cfg = None \<Longrightarrow> db_policies g = db_policies d"
    and "wr_batch (gd_writer g) = [] \<and> wr_queue (gd_writer g) = [] \<and> wr_running (gd_writer g)"
proof -
  let ?init = "case policy_dir cfg of None \<Rightarrow> (Inr 0, engine_new d)
    | Some _ \<Rightarrow> load_from_dir x draw dir (engine_new d)"
  have "engine_frame (engine_new d) (snd ?init)"
    by (simp add: load_dir_op.frame split: option.split)
  then have init: "db_sessions (snd ?init) = db_sessions d" "db_keys (snd ?init) = db_keys d"
    "db_audit (snd ?init) = db_audit d"
    by (simp_all add: engine_frame_def engine_new_def db.defs)
  have policies: "policy_dir cfg = None \<Longrightarrow> db_policies (snd ?init) = db_policies d"
    by (simp add: engine_new_def db.defs)
  from assms obtain n e w where e: "?init = (Inr n, e)" "g = engine.extend e (guard_state.fields w)"
    and w: "writer_new oc (audit_flush_interval_ms cfg) (audit_batch_size cfg) = Done w"
    by (auto simp: guard_new_def split: prod.splits sum.splits outcome.splits)
  with init show "db_sessions g = db_sessions d" "db_keys g = db_keys d" "db_audit g = db_audit d"
    by (auto simp: engine.defs)
  show "db_policies g = db_policies d" if "policy_dir cfg = None"
    using policies [OF that] e by (auto simp: engine.defs)
  show "wr_batch (gd_writer g) = [] \<and> wr_queue (gd_writer g) = [] \<and> wr_running (gd_writer g)"
    using w e by (auto simp: writer_new_def Let_def guard_state.defs engine.defs split: if_splits)
qed

section \<open>What lasts from process to process\<close>

text \<open>Unique columns, and identifiers of policies as the program writes them.\<close>

definition file_intact :: "db_file \<Rightarrow> bool" where
  "file_intact f \<longleftrightarrow>
     distinct (map kr_id (table_rows (file_keys f))) \<and> distinct (map kr_key_hash (table_rows (file_keys f))) \<and>
     distinct (map sr_id (table_rows (file_sessions f))) \<and>
     distinct (map pr_id (table_rows (file_policies f))) \<and> distinct (map pr_name (table_rows (file_policies f))) \<and>
     distinct (map ar_id (table_rows (file_audit f)))"

lemma file_intact_db:
  "db_wf d \<Longrightarrow> file_intact (file_of masks d)"
  "file_intact f \<Longrightarrow> scans_ok plan \<Longrightarrow> db_wf (opened_db (run_migrations f) plan)"
  by (simp_all add: file_intact_def db_wf_def scans_ok_def opened_db_def)

lemma new_file_intact: "file_intact new_file"
  by (simp add: file_intact_def new_file_def table_rows_def)

lemma typed_ids_shown: "file_typed x f \<Longrightarrow> ids_shown x (table_rows (file_policies f))"
  by (auto simp: file_typed_def policy_typed_def row_id_def ids_shown_def)

lemma server_start_inv:
  assumes "server_start x oc h = Done (Inr (cfg, g, addr))"
    and "ho_connect h (sqlite_connection_string cfg) = Inr f"
    and "file_typed x f" "file_intact f" "scans_ok (ho_plan h)"
  shows "guard_inv x g \<and> guard_typed x g"
proof -
  from assms(1) obtain f' where f': "ho_connect h (sqlite_connection_string cfg) = Inr f'"
    and new: "guard_new x oc cfg (ho_draw h) (case policy_dir cfg of None \<Rightarrow> None | Some dir \<Rightarrow> ho_dir h dir)
       (opened_db (run_migrations f') (ho_plan h)) = Done (Inr g)"
    by (rule server_startE)
  from f' assms(2) have f: "f' = f" by simp
  have "guard_typed x g" by (rule guard_new_typed [OF new]) (simp add: f assms(3))
  moreover have "guard_inv x g"
    by (rule guard_new_inv [OF new]) (simp_all add: f file_intact_db assms(3-5) typed_ids_shown)
  ultimately show ?thesis by simp
qed

lemma server_start_sessions:
  assumes "server_start x oc h = Done (Inr (cfg, g, addr))"
    and "ho_connect h (sqlite_connection_string cfg) = Inr f"
  shows "db_sessions g = table_rows (file_sessions f)"
proof -
  from assms(1) obtain f' where "ho_connect h (sqlite_connection_string cfg) = Inr f'"
    and new: "guard_new x oc cfg (ho_draw h) (case policy_dir cfg of None \<Rightarrow> None | Some dir \<Rightarrow> ho_dir h dir)
       (opened_db (run_migrations f') (ho_plan h)) = Done (Inr g)"
    by (rule server_startE)
  with assms(2) show ?thesis using guard_new_tables(1) [OF new] by simp
qed

lemma upserts_keep:
  "db_wf d \<Longrightarrow> db_wf (snd (act_each (upsert_statement x) ps d))"
  "db_sessions (snd (act_each (upsert_statement x) ps d)) = db_sessions d"
  by (rule act_each_inv [of db_wf], assumption, erule statement_wf)
     (rule act_each_inv [of "\<lambda>t. db_sessions t = db_sessions d"], simp_all add: statement_sessions)

lemma lifetime_sound:
  assumes "lifetime x oc f f'" "file_typed x f" "file_intact f"
  shows "file_typed x f' \<and> file_intact f'"
  using assms(1)
proof cases
  case (served h cfg g addr g' T)
  note inv = server_start_inv [OF served(2,3) assms(2,3) served(4)]
  have "service_typed x (g', T)"
    by (rule service_reach_typed [OF served(5)]) (simp add: service_typed_def inv)
  moreover have "db_wf g'"
    using service_reach_wf [OF served(5)] inv by (simp add: guard_inv_def engine_inv_def)
  ultimately show ?thesis
    using served(1) by (simp add: service_typed_def guard_typed_def file_intact_db)
next
  case (stopped ps plan r d)
  let ?d0 = "opened_db (run_migrations f) plan"
  have "keeps_typed x (act_each (upsert_statement x) ps :: (db, unit) action)"
    by (intro keeps_each ballI keeps_upsert_statement)
  then have "db_typed x (snd (act_each (upsert_statement x) ps ?d0))"
    by (rule keeps_snd) (simp add: assms(2))
  moreover have "db_wf (snd (act_each (upsert_statement x) ps ?d0))"
    by (rule upserts_keep(1)) (rule file_intact_db(2) [OF assms(3) stopped(3)])
  ultimately show ?thesis using stopped by (simp add: file_intact_db)
qed

lemma lifetimes_sound:
  "lifetimes x oc f f' \<Longrightarrow> file_typed x f \<Longrightarrow> file_intact f \<Longrightarrow> file_typed x f' \<and> file_intact f'"
  by (induction rule: rtranclp_induct) (auto dest: lifetime_sound)

definition revoked_in :: "extern \<Rightarrow> uuid \<Rightarrow> db_file \<Rightarrow> bool" where
  "revoked_in x i f \<longleftrightarrow> session_revoked x i (table_rows (file_sessions f))"

lemma lifetime_revoked:
  assumes "lifetime x oc f f'" "revoked_in x i f"
  shows "revoked_in x i f'"
  using assms(1)
proof cases
  case (served h cfg g addr g' T)
  have "session_revoked x i (db_sessions g)"
    using assms(2) server_start_sessions [OF served(2,3)] by (simp add: revoked_in_def)
  with service_reach_revoked [OF served(5)] served(1) show ?thesis by (simp add: revoked_in_def)
next
  case (stopped ps plan r d)
  have "db_sessions d = table_rows (file_sessions f)"
    using upserts_keep(2) [of x ps "opened_db (run_migrations f) plan"] stopped(2) by simp
  with assms(2) stopped(1) show ?thesis by (simp add: revoked_in_def)
qed

lemma lifetimes_revoked: "lifetimes x oc f f' \<Longrightarrow> revoked_in x i f \<Longrightarrow> revoked_in x i f'"
  by (induction rule: rtranclp_induct) (auto intro: lifetime_revoked)

lemma lifetimes_masks: "lifetimes x oc f f' \<Longrightarrow> table_rows (file_masks f') = table_rows (file_masks f)"
  by (induction rule: rtranclp_induct) (auto elim!: lifetime.cases)

end
