(* ===== verification/Server_Claims.thy ===== *)
theory Server_Claims
  imports Server Demo_Guard
begin

text \<open>
  The properties of the service over its whole life: what a start has checked and found, what holds
  of the database file from process to process, and that a revocation outlives the process.
\<close>

section \<open>An instance\<close>

definition demo_host :: "int \<Rightarrow> host" where
  "demo_host v = \<lparr>
     ho_env = [''CLAW_GUARD_JWT_SECRET'' \<mapsto> ''secret'', ''CLAW_GUARD_DB_PATH'' \<mapsto> ''guard.db'',
       ''CLAW_GUARD_AUDIT_BATCH_SIZE'' \<mapsto> ''2''],
     ho_connect = (\<lambda>path. if path = ''sqlite://guard.db?mode=rwc'' then Inr (file_of [] (demo_guard_db v))
       else Inl (Io_failure ''unable to open database file'')),
     ho_migrator = (\<lambda>f. None), ho_plan = empty_db, ho_dir = (\<lambda>path. None), ho_draw = (\<lambda>k i. (0, 0))\<rparr>"

lemma demo_host_env: "from_env (ho_env (demo_host v)) = Inr demo_cfg"
  by (simp add: from_env_def Let_def demo_host_def demo_cfg_def parse_or_default_def parse_sensitive_def
      digit_value_def str_trim_def)

lemma demo_host_connect:
  "ho_connect (demo_host v) (sqlite_connection_string demo_cfg) = Inr (file_of [] (demo_guard_db v))"
  by (simp add: demo_host_def demo_cfg_def sqlite_connection_string_def Let_def starts_with_def)

lemma demo_host_db: "opened_db (run_migrations (file_of [] (demo_guard_db v))) empty_db = demo_guard_db v"
  by (simp add: opened_db_def demo_guard_db_def empty_db_def)

lemma demo_start:
  "server_start demo_g False (demo_host v) =
     Done (Inr (demo_cfg, demo_guard v [] [], V4 [0, 0, 0, 0] 50051))"
proof -
  have "guard_open demo_g False demo_cfg (demo_host v) = Done (Inr (demo_guard v [] []))"
    using demo_host_connect demo_guard_new
    by (simp add: guard_open_def demo_host_def demo_host_db)
  then show ?thesis
    by (simp add: server_start_def demo_host_env) (simp add: demo_host_def parse_default_addr)
qed

lemma demo_scans: "scans_ok (ho_plan (demo_host v))"
  by (simp add: scans_ok_def demo_host_def empty_db_def)

lemma demo_file_of: "file_of [] (demo_guard v q c) = file_of [] (demo_guard_db v)"
  by (simp add: file_of_def demo_guard_def engine_new_def db.defs engine.defs guard_state.defs)

lemma demo_lifetime: "lifetime demo_g False (file_of [] (demo_guard_db v)) (file_of [] (demo_guard_db v))"
proof -
  have "lifetime demo_g False (file_of [] (demo_guard_db v))
      (file_of (table_rows (file_masks (file_of [] (demo_guard_db v)))) (demo_guard v [] []))"
    by (rule served [OF demo_start demo_host_connect demo_scans rtranclp.rtrancl_refl])
  then show ?thesis by (simp add: demo_file_of)
qed

lemma demo_file_intact: "file_intact (file_of [] (demo_guard_db v))"
  by (simp add: file_intact_def demo_guard_db_def empty_db_def)

lemma demo_file_typed: "file_typed demo_g (file_of [] (demo_guard_db 0))"
proof -
  have times: "row_time demo_g m" for m
    unfolding row_time_def by (rule exI [of _ "m * 1000000"]) simp
  have ids: "row_id demo_g ''u''" "row_id demo_g ''uu''" "row_id demo_g ''uuu''"
    unfolding row_id_def by (rule exI [of _ 1], simp, rule exI [of _ 2], simp, rule exI [of _ 3], simp)
  have "json_text demo_g (enc_scopes []) = Inr ''[]''"
    by (simp add: demo_g_def demo_extern_def enc_scopes_def)
  then have scopes: "\<exists>scopes. json_text demo_g (enc_scopes scopes) = Inr ''[]''" by (rule exI)
  have "json_text demo_g (enc_rules demo_g demo_rules) = Inr ''R1''"
    by (simp add: demo_g_def demo_extern_def) (simp add: demo_rules_json_def)
  then have rules: "\<exists>rules. json_text demo_g (enc_rules demo_g rules) = Inr ''R1''" by (rule exI)
  show ?thesis
    using scopes rules ids
    by (auto simp: db_typed_def demo_guard_db_def empty_db_def session_typed_def policy_typed_def
        admin_row_def demo_session_row_def demo_row_def times simp del: One_nat_def)
qed

section \<open>Starting\<close>

text \<open>
  C13. The service starts closed: when \<open>main\<close> reaches \<open>serve\<close>, a signing secret was configured, the
  database was opened at the configured place and sqlx had no objection to its migrations; the guard
  has the keys, sessions and audit rows of the file, and its policies too if no directory is
  configured; no audit entry is pending; and the bind address, or the default, was a valid one.
\<close>

theorem server_starts_closed:
  assumes "server_start x oc h = Done (Inr (cfg, g, addr))"
  shows "ho_env h ''CLAW_GUARD_JWT_SECRET'' = Some (jwt_secret cfg) \<and>
    (\<exists>f. ho_connect h (sqlite_connection_string cfg) = Inr f \<and> ho_migrator h f = None \<and>
       db_keys g = table_rows (file_keys f) \<and> db_sessions g = table_rows (file_sessions f) \<and>
       db_audit g = table_rows (file_audit f) \<and>
       (policy_dir cfg = None \<longrightarrow> db_policies g = table_rows (file_policies f))) \<and>
    wr_batch (gd_writer g) = [] \<and> wr_queue (gd_writer g) = [] \<and> addr_ok addr \<and>
    parse_socket_addr (case ho_env h ''CLAW_GUARD_GRPC_ADDR'' of
      Some v \<Rightarrow> v | None \<Rightarrow> ''0.0.0.0:50051'') = Inr addr"
proof -
  from assms obtain f where env: "from_env (ho_env h) = Inr cfg"
    and f: "ho_connect h (sqlite_connection_string cfg) = Inr f" "ho_migrator h f = None"
    and new: "guard_new x oc cfg (ho_draw h) (case policy_dir cfg of None \<Rightarrow> None | Some dir \<Rightarrow> ho_dir h dir)
       (opened_db (run_migrations f) (ho_plan h)) = Done (Inr g)"
    and addr: "parse_socket_addr (case ho_env h ''CLAW_GUARD_GRPC_ADDR'' of
       Some v \<Rightarrow> v | None \<Rightarrow> ''0.0.0.0:50051'') = Inr addr"
    by (rule server_startE)
  have "\<exists>f. ho_connect h (sqlite_connection_string cfg) = Inr f \<and> ho_migrator h f = None \<and>
      db_keys g = table_rows (file_keys f) \<and> db_sessions g = table_rows (file_sessions f) \<and>
      db_audit g = table_rows (file_audit f) \<and>
      (policy_dir cfg = None \<longrightarrow> db_policies g = table_rows (file_policies f))"
    using f guard_new_tables(1-4) [OF new] by (intro exI [of _ f]) simp
  with from_env_Inr [OF env] guard_new_tables(5) [OF new] addr parse_socket_addr_ok [OF addr]
  show ?thesis by blast
qed

theorem server_starts_closed_witness:
  "ho_env (demo_host 0) ''CLAW_GUARD_JWT_SECRET'' = Some (jwt_secret demo_cfg) \<and>
     parse_socket_addr ''0.0.0.0:50051'' = Inr (V4 [0, 0, 0, 0] 50051)"
  using server_starts_closed [OF demo_start [of 0]] by (simp add: demo_host_def)

section \<open>The file, from process to process\<close>

text \<open>
  C9. The stored data stays well-typed: whatever processes a database file has gone through - each
  serving under any interleaving, each ending anywhere, also before it served - its unique columns are
  unique, its identifiers and times are as the program writes them, its flags are zero or one, its
  rules and scopes are JSON texts of rules and scopes, and its audit rows are those of decisions with a
  risk between zero and one. A guard that starts on it satisfies the invariant, and while it runs the
  tables and the entries on their way to the log have these types.
\<close>

theorem stored_rows_stay_typed:
  assumes "file_typed x f0" and "file_intact f0" and "lifetimes x oc f0 f"
    and "server_start x oc h = Done (Inr (cfg, g, addr))"
    and "ho_connect h (sqlite_connection_string cfg) = Inr f" and "scans_ok (ho_plan h)"
    and "service_reach x cfg (g, []) (g', T)"
  shows "file_typed x f \<and> file_intact f \<and> guard_inv x g \<and> db_typed x g' \<and> db_wf g' \<and>
    writer_typed (gd_writer g')"
proof -
  have f: "file_typed x f" "file_intact f" using lifetimes_sound [OF assms(3,1,2)] by simp_all
  note g = server_start_inv [OF assms(4,5) f assms(6)]
  have "service_typed x (g', T)"
    by (rule service_reach_typed [OF assms(7)]) (simp add: service_typed_def g)
  moreover have "db_wf g'"
    using service_reach_wf [OF assms(7)] g by (simp add: guard_inv_def engine_inv_def)
  ultimately show ?thesis using f g by (simp add: service_typed_def guard_typed_def)
qed

theorem stored_rows_stay_typed_witness:
  "guard_inv demo_g (demo_guard 0 [] []) \<and> db_typed demo_g (demo_guard 0 [] [])"
  using stored_rows_stay_typed [OF demo_file_typed demo_file_intact r_into_rtranclp, OF demo_lifetime demo_start
      demo_host_connect demo_scans rtranclp.rtrancl_refl] by simp

text \<open>
  C10. Typed rows read back as what was written: a row of one of the four tables whose times chrono has
  and whose column of JSON serde_json reads back (for rules, with finite thresholds) decodes, and to a
  record that encodes to this very row, column for column - identifiers, times, flags, scopes, rules
  and metadata included.
\<close>

theorem typed_rows_decode:
  assumes "uuid_laws x" and "chrono_laws x" and "db_typed x d"
  shows "(\<forall>r\<in>set (db_keys d). key_readable x r \<longrightarrow>
      (\<exists>k. row_to_api_key_record x r = Inr k \<and> key_row_of x k = r)) \<and>
    (\<forall>r\<in>set (db_sessions d). session_readable x r \<longrightarrow>
      (\<exists>s. row_to_session_record x r = Inr s \<and> json_text x (enc_scopes (se_scopes s)) = Inr (sr_scopes r) \<and>
         session_row_of x s (sr_scopes r) = r)) \<and>
    (\<forall>r\<in>set (db_policies d). policy_readable x r \<longrightarrow>
      (\<exists>p. row_to_policy x r = Inr p \<and> json_text x (enc_rules x (p_rules p)) = Inr (pr_rules r) \<and>
         policy_to_row x p (pr_rules r) = r)) \<and>
    (\<forall>r\<in>set (db_audit d). audit_readable x r \<longrightarrow>
      (\<exists>e m. row_to_audit_entry x r = Inr e \<and> json_text x (ae_metadata e) = Inr m \<and> entry_to_row x e m = r))"
  using assms typed_key_reads typed_session_reads typed_policy_reads typed_audit_reads
  unfolding db_typed_def by blast

theorem typed_rows_decode_witness:
  "\<exists>s. row_to_session_record demo_g (admin_row 0) = Inr s \<and> session_row_of demo_g s ''[]'' = admin_row 0"
proof -
  have "db_typed demo_g (demo_guard_db 0)" using demo_file_typed by simp
  moreover have "session_readable demo_g (admin_row 0)"
    by (simp add: session_readable_def text_reads_back_def admin_row_def demo_session_row_def)
       (simp add: demo_g_def demo_extern_def)
  ultimately show ?thesis
    using typed_rows_decode [OF demo_g_simps(4,5), of "demo_guard_db 0"]
    by (auto simp: demo_guard_db_def admin_row_def demo_session_row_def)
qed

text \<open>
  C8. Revocation outlives the process: once \<open>revoke_session\<close> has returned for a session of the table,
  the process may serve on, under any interleaving, and end in whatever way; no later process on that
  file - whatever its configuration, its policies and its requests - ever answers a request of that
  session.
\<close>

theorem revocation_survives_restarts:
  assumes "List.find (\<lambda>r. sr_id r = uuid_show x i) (db_sessions g0) \<noteq> None"
    and "revoke_session x i g0 = (Inr (), g1)"
    and "service_reach x cfg0 (g1, T1) (g2, T2)"
    and "lifetimes x oc (file_of masks g2) f"
    and "server_start x oc h = Done (Inr (cfg, g, addr))"
    and "ho_connect h (sqlite_connection_string cfg) = Inr f"
    and "service_reach x cfg (g, []) (g', T)"
    and "k < length T" and "T ! k = Answered q s ctx d"
  shows "gs_id s \<noteq> i"
proof -
  have "session_revoked x i (db_sessions g1)" by (rule revoke_session_revoked [OF assms(2,1)])
  then have "session_revoked x i (db_sessions g2)" using service_reach_revoked [OF assms(3)] by simp
  then have "revoked_in x i (file_of masks g2)" by (simp add: revoked_in_def)
  then have "revoked_in x i f" by (rule lifetimes_revoked [OF assms(4)])
  then have "locked_out x i k (g, [])"
    using server_start_sessions [OF assms(5,6)] by (simp add: revoked_in_def locked_out_def)
  then have "locked_out x i k (g', T)" by (rule locked_out_reach [OF assms(7)])
  then show ?thesis using assms(8,9) by (auto simp: locked_out_def)
qed

theorem revocation_survives_restarts_witness:
  "\<not> (\<exists>g' q ctx d. service_reach demo_g demo_cfg (demo_guard 1 [] [], [])
     (g', [Answered q admin_session ctx d]))"
proof
  assume "\<exists>g' q ctx d. service_reach demo_g demo_cfg (demo_guard 1 [] [], [])
     (g', [Answered q admin_session ctx d])"
  then obtain g' q ctx d where run: "service_reach demo_g demo_cfg (demo_guard 1 [] [], [])
     (g', [Answered q admin_session ctx d])" by blast
  have "List.find (\<lambda>r. sr_id r = uuid_show demo_g 1) (db_sessions (demo_guard 0 [] [])) \<noteq> None"
    by (simp add: admin_row_def demo_session_row_def)
  moreover have "lifetimes demo_g False (file_of [] (demo_guard 1 [] [])) (file_of [] (demo_guard_db 1))"
    unfolding demo_file_of using demo_lifetime [of 1] by (rule r_into_rtranclp [of "lifetime demo_g False"])
  ultimately have "gs_id admin_session \<noteq> 1"
    using revocation_survives_restarts [OF _ demo_revoked rtranclp.rtrancl_refl _ demo_start demo_host_connect run] by simp
  then show False by (simp add: admin_session_def demo_session_def)
qed

end
