(* ===== verification/Spec2Isabelle.thy ===== *)
theory Spec2Isabelle
  imports Rule_Claims Race_Claims Server_Claims
begin

text \<open>
  claw-guard: the access guard of ClawDB - a Rust crate that issues and checks JWT sessions and API
  keys, evaluates access policies, scores risk, masks JSON data and keeps an audit log, over one SQLite
  database and behind a gRPC service.

  \<^bold>\<open>The program and its model.\<close> A request of the service (\<open>src/grpc.rs\<close>) reaches \<open>Guard\<close>
  (\<open>src/guard.rs\<close>), which owns one manager per concern over a shared connection pool. The model has
  one state record that is extended in the same order: \<open>db\<close> (the tables and the faults of the
  database), \<open>engine\<close> (\<open>db\<close> and the policy cache), \<open>guard_state\<close> (\<open>engine\<close> and the audit writer).
  An operation that may fail is an \<open>action\<close>: a function from a state to a result
  (\<open>guard_error + 'a\<close>) and the state it leaves; \<open>act_bind\<close> is the code's \<open>?\<close>. Operations that may
  also panic or wait return an \<open>outcome\<close> (\<open>Done\<close>, \<open>Panicked\<close>, \<open>Pending\<close>). Clock readings - one argument for each place that
  reads a clock, the JWT library included - fresh identifiers, random bytes, the local hour, the environment and what the file system returns are
  arguments. A \<open>host\<close> is what the system gives a process: environment, files, answers of \<open>sqlx\<close>.

  \<^item> \<open>Guard_Prelude\<close>: results and their lemmas, \<open>desc\<close> (an ordering turned round, an instance of
    \<open>linorder\<close>, for \<open>ORDER BY ... DESC\<close>), facts on lists and multisets, the theorem collections.
  \<^item> \<open>Rust_Std\<close>: the string functions of Rust's standard library that the source calls.
  \<^item> \<open>Float64\<close>: IEEE doubles as whole multiples of \<open>2 ^ -1074\<close>: literals, addition, comparison,
    clamping and \<open>{:.4}\<close>, with rounding to nearest, ties to even.
  \<^item> \<open>Guard_Types\<close>: \<open>src/types.rs\<close>, \<open>src/error.rs\<close>. \<open>Config\<close>: \<open>src/config.rs\<close>.
  \<^item> \<open>Json_Toml\<close>: values of \<open>serde_json\<close> and \<open>toml\<close>. \<open>Extern\<close>: the functions of third-party code.
  \<^item> \<open>Pattern\<close>, \<open>Masking\<close>, \<open>Masking_Safety\<close>: \<open>src/masking/mod.rs\<close> and its safety.
  \<^item> \<open>Policy_Rules\<close>, \<open>Risk_Score\<close>, \<open>Policy_Parse\<close>, \<open>Policy_Codec\<close>, \<open>Policy_Store\<close>,
    \<open>Policy_Engine\<close>, \<open>Policy_Claims\<close>, \<open>Policy_Race\<close>: \<open>src/policy/mod.rs\<close>, from the rule language to
    the store, its cache and the races of its pieces.
  \<^item> \<open>Database\<close>: tables as lists of rows with unique columns, the statements the code executes, and
    the schema of \<open>migrations/001_guard_schema.sql\<close>.
  \<^item> \<open>Keys\<close>: \<open>src/keys.rs\<close>. \<open>Sessions\<close>, \<open>Session_Claims\<close>: \<open>src/session.rs\<close>.
  \<^item> \<open>Audit_Log\<close>, \<open>Audit_Claims\<close>, \<open>Audit_Writer\<close>, \<open>Writer_Claims\<close>: \<open>src/audit/mod.rs\<close>.
  \<^item> \<open>Guard\<close>: \<open>src/guard.rs\<close>. \<open>Grpc\<close>: \<open>src/grpc.rs\<close>. \<open>Guard_Run\<close>: sequences of calls on the whole.
    \<open>Guard_Race\<close>, \<open>Race_Claims\<close>: requests in flight, each from await to await, among policy changes,
    other calls and the audit task. \<open>Row_Types\<close>: the types that the code relies on and SQLite does not
    enforce. \<open>Demo_Guard\<close>: a concrete guard for the witnesses.
  \<^item> \<open>Server\<close>, \<open>Server_Claims\<close>: \<open>src/bin/guard-server.rs\<close>, the start of \<open>Guard::new\<close>, and one process
    after another on a database file. \<open>Socket_Addr\<close>: the parser of the bind address.
  \<^item> \<open>Rule_Claims\<close>: the properties of the components without a database. This theory: the properties
    that span components.

  \<^bold>\<open>Interfaces.\<close> \<open>codec\<close> (a decoder that inverts an encoder where it can; interpreted for strings,
  masks, conditions and rules), \<open>keyed_table\<close> (what inserting, updating and deleting rows do to a
  unique column; interpreted for each of the six columns), \<open>revocable\<close> (a lookup that calls neither
  lose nor un-revoke; interpreted for keys, sessions and the whole guard), \<open>engine_op\<close> (operations that
  keep the engine's invariant and frame; interpreted for the six of the policy engine), \<open>audit_sink\<close>
  (what accepts audit entries) and \<open>audit_neutral\<close> (what leaves the log alone).

  \<^bold>\<open>What the lemmas show.\<close>
  \<^item> Access: an \<open>allow\<close> is justified by a verified token, a live session row, whose columns are what is
    evaluated, and the first rule that fires; every decision is logged with its risk, and the entry can be read back; revocation holds
    for good across the service; the invariant of the whole state (\<open>guard_inv\<close>) holds along any calls.
  \<^item> Concurrency: under any interleaving an \<open>allow\<close> has behind it, in the trace of its own run and in this
    order, the step that validated its token and the step that found its session active, and its
    context is made of that session and that request; every answer is logged; a revocation stops each
    request in flight that has not passed its check; every request can run to its end.
  \<^item> Processes: what a start that serves has checked; through any number of processes, ended anywhere,
    the rows of the file keep their types and a revocation lasts; typed rows decode to records that
    encode to them.
  \<^item> Policies: evaluation with the cache equals first match over the table (refinement), the order of
    a load, the round trip of the rules column, the upsert as a map update, adding and removing; with
    concurrency, what the cache can hold, the one race that makes it stale, and a run with that race that leaves
    a removed policy in force.
  \<^item> Sessions and keys: what is created validates, what validates is stored, live and unrevoked,
    what is revoked stays rejected; listing agrees with checking; following the pages ends, and what it may miss.
  \<^item> Audit: queries and the CSV export are complete and can be read back; the writer refines a log that
    stores or loses whole batches, accounts for each accepted entry, and drains; what a failing
    flush loses.
  \<^item> Masking, risk, configuration and parsing: redaction covers what it matches and its result does
    not depend on what it hides; the matcher against globs; the exact risk score.

  \<^bold>\<open>Parameters and laws.\<close> Third-party functions are the fields of \<open>extern\<close>: \<open>uuid\<close>, \<open>chrono\<close>,
  \<open>blake3\<close>, \<open>base64\<close>, \<open>serde_json\<close>, \<open>toml\<close>, \<open>jsonwebtoken\<close> and the texts of SQLite errors. Laws that
  a theorem needs are hypotheses of it: \<open>uuid_laws\<close>, \<open>chrono_laws\<close>, \<open>hash_laws\<close> and \<open>jwt_laws\<close> for
  all values, \<open>json_rt\<close> and \<open>dt_ok\<close> for the value at hand (neither holds of all). \<open>demo_extern\<close>
  satisfies them. SQLite is modelled by its documented behaviour: a statement is atomic; unique columns
  are enforced; the order of a scan is any permutation (the fields \<open>scan_...\<close>, subject to \<open>scan_ok\<close>)
  and \<open>ORDER BY\<close> sorts it stably; each statement may fail with an I/O error first, as the list
  \<open>db_faults\<close> says. \<open>healthy\<close> means that none will.

  \<^bold>\<open>Bounds, loops, fuel.\<close> Masking and the parsing of conditions recurse on the number of nodes of the
  value, with termination proofs. \<open>recv_loop\<close> counts rounds of the audit task: one for each queued entry
  and one for the end are enough (\<open>writer_drains\<close>). \<open>all_pages\<close> counts requests, each with its own
  clock reading and its own view of the table: the number of full pages and one more are enough (\<open>pages_cover_the_list\<close>). Integers have their widths where the code
  casts or may wrap: time to live, offsets and limits, batch sizes, \<open>truncate\<close>, hours.

  \<^bold>\<open>Interleaving.\<close> The handlers are asynchronous. \<open>Guard\<close> and \<open>Grpc\<close> give each handler as a whole;
  \<open>Policy_Race\<close> cuts the policy engine at its awaits, \<open>Guard_Race\<close> the access check (\<open>task_step\<close>: a
  request is a \<open>check_task\<close> and keeps its index in the list of tasks; \<open>service_step\<close>: what the service
  does next; \<open>service_run\<close>: a run with its trace), \<open>writer_step\<close> the audit writer. Calls that wait for one
  statement only are single steps there. A process may end after any step (\<open>lifetime\<close>).

  \<^bold>\<open>Not modelled.\<close> The tonic transport, generated protobuf code, tracing, memory exhaustion (also the
  capacity of a very large audit batch), the accessors of \<open>Guard\<close>, the scheduling inside the
  connection pool, text outside the first 256 Unicode scalars (HOL's \<open>char\<close>), the module
  \<open>src/engine.rs\<close> (not part of the crate) and the indexes.
\<close>

section \<open>Access\<close>

text \<open>
  C1. An \<open>allow\<close> from the service is justified. On a guard that was opened on a sound database and has
  served any sequence of calls, with its background task at work: the token verifies and names a
  session whose row is in the table, not revoked and not expired, by the clock read at validation and
  by the one read at the check; agent, workspace, role and scopes are those of that row, not of the
  token's claims; and among the rules of the enabled policies, in order, the first that fires for the
  context made of them and of the request is an allow rule whose condition holds.
\<close>

theorem allowed_request_is_justified:
  assumes "guard_new x oc cfg draw dir d = Done (Inr g0)" and "db_wf d" and "ids_shown x (db_policies d)"
    and "uuid_laws x" and "chrono_laws x"
    and "g = fold (guard_call_step x cfg) calls g0"
    and "rpc_check_access x cfg jwt_now now0 i ts now hour q g = (Done (Inr resp), g')"
    and "cap_decision resp = ''allow''"
  shows "\<exists>claims r s ps us c vs.
    jwt_decode x (jwt_secret cfg) jwt_now (car_session_token q) = Inr claims \<and>
    uuid_parse x (sc_sub claims) = Inr (gs_id s) \<and>
    r \<in> set (db_sessions g) \<and> sr_id r = uuid_show x (gs_id s) \<and> sr_revoked r = 0 \<and>
    ts_millis x now < sr_expires_at r \<and> now0 < gs_expires_at s \<and>
    from_ms x (sr_expires_at r) = Inr (gs_expires_at s) \<and>
    parse_uuid x (sr_agent_id r) = Inr (gs_agent_id s) \<and>
    parse_uuid x (sr_workspace_id r) = Inr (gs_workspace_id s) \<and> gs_role s = sr_role r \<and>
    json_from_str x dec_scopes (sr_scopes r) = Inr (gs_scopes s) \<and> gs_token s = car_session_token q \<and>
    policies_now x g = Inr ps \<and> concat (map p_rules ps) = us @ AllowIf c # vs \<and>
    cond_matches c (scored_context cfg hour s (car_action q) (car_resource q) (car_task q)) \<and>
    (\<forall>u\<in>set us. \<not> rule_fires (scored_context cfg hour s (car_action q) (car_resource q) (car_task q)) u)"
proof -
  have inv: "guard_inv x g" unfolding assms(6) by (intro guard_calls_inv guard_new_inv [OF assms(1-3)])
  from assms(7) obtain s g1 dec where v: "validate_session x cfg jwt_now now0 (car_session_token q) g = (Inr s, g1)"
    and c: "check_access_with_task x cfg i ts now hour s (car_action q) (car_resource q) (car_task q) g1 =
       (Done (Inr dec), g')" and "resp = decision_response dec"
    by (rule rpc_check_access_Inr)
  with assms(8) have dec: "dec = Allow" by simp
  let ?ctx = "scored_context cfg hour s (car_action q) (car_resource q) (car_task q)"
  have q1: "db_quiet g g1" using validate_session_quiet [of g x cfg jwt_now now0 "car_session_token q"] v by simp
  have s1: "db_sessions g1 = db_sessions g"
    using session_reads_state(1) [of x cfg jwt_now now0 "car_session_token q" g] v by simp
  from v have "fst (validate_session x cfg jwt_now now0 (car_session_token q) g) = Inr s" by simp
  then obtain claims j r rec where r:
    "jwt_decode x (jwt_secret cfg) jwt_now (car_session_token q) = Inr claims" "parse_uuid x (sc_sub claims) = Inr j"
    "List.find (\<lambda>r. sr_id r = uuid_show x j) (db_sessions g) = Some r" "sr_id r = uuid_show x j"
    "row_to_session_record x r = Inr rec" "now0 < se_expires_at rec"
    and s: "s = \<lparr>gs_id = se_id rec, gs_agent_id = se_agent_id rec, gs_workspace_id = se_workspace_id rec,
      gs_role = se_role rec, gs_scopes = se_scopes rec, gs_expires_at = se_expires_at rec,
      gs_token = car_session_token q\<rparr>"
    by (rule validate_session_Inr)
  note cols = session_record_columns [OF r(5)]
  have j: "j = gs_id s" using cols(1) r(4) s assms(4) by simp
  from c dec obtain g2 g3 where a: "assert_session_active x now s g1 = (Inr (), g2)"
    and e: "evaluate x ?ctx g2 = (Inr Allow, g3)"
    by (cases rule: check_access_Done [OF c]) auto
  have active: "session_row_active x now r = Inr ()"
    using a r(3) s1 j by (auto simp: assert_session_active_step split: option.splits)
  have q2: "db_quiet g g2"
    using db_quiet_trans [OF q1] assert_session_quiet [of g1 x now s] a by simp
  have "engine_inv x g2" using db_quiet_inv [OF q2] inv by (simp add: guard_inv_def)
  moreover have "fst (evaluate x ?ctx g2) = Inr Allow" using e by simp
  ultimately obtain ps where ps: "policies_now x g2 = Inr ps" "eval_policies ps ?ctx = Allow"
    by (auto simp: evaluate_cases split: option.splits sum.splits if_splits)
  have "policies_now x g = Inr ps"
    using ps(1) q2 by (simp add: db_quiet_def policies_now_def enabled_rows_def)
  moreover from ps(2) obtain us rl vs where rl: "concat (map p_rules ps) = us @ rl # vs"
    "rule_fires ?ctx rl" "rule_decision rl = Allow" "\<forall>u\<in>set us. \<not> rule_fires ?ctx u"
    using first_match_cases [of "concat (map p_rules ps)" ?ctx Allow] by (auto simp: eval_policies_first_match)
  then obtain cnd where "rl = AllowIf cnd" "cond_matches cnd ?ctx" by (cases rl) auto
  moreover have "r \<in> set (db_sessions g)" using r(3) by (auto simp: find_Some_split)
  moreover have "uuid_parse x (sc_sub claims) = Inr (gs_id s)"
    using r(2) j by (simp add: parse_uuid_def split: sum.splits)
  moreover have "sr_revoked r = 0 \<and> ts_millis x now < sr_expires_at r"
    using active active_iff_check [OF assms(5) cols(6)] by simp
  moreover have "now0 < gs_expires_at s \<and> from_ms x (sr_expires_at r) = Inr (gs_expires_at s) \<and>
      parse_uuid x (sr_agent_id r) = Inr (gs_agent_id s) \<and>
      parse_uuid x (sr_workspace_id r) = Inr (gs_workspace_id s) \<and> gs_role s = sr_role r \<and>
      json_from_str x dec_scopes (sr_scopes r) = Inr (gs_scopes s) \<and> gs_token s = car_session_token q"
    using cols(2-6) r(6) s by simp
  ultimately show ?thesis using r(1,4) j rl(1,4) by blast
qed

theorem allowed_request_is_justified_witness:
  "\<exists>c s. gs_role s = sr_role (admin_row 0) \<and> gs_agent_id s = 2 \<and> AllowIf c \<in> set demo_rules \<and>
     cond_matches c (scored_context demo_cfg 10 s ''read'' ''doc'' ''read'')"
proof -
  have allow: "cap_decision (decision_response Allow) = ''allow''" by simp
  have now: "policies_now demo_g (demo_guard 0 [] []) = Inr [demo_policy 1 demo_rules]"
    using demo_guard_load [of "[]" "[]"] by (simp add: load_step next_fault_def)
  from allowed_request_is_justified [OF demo_guard_new [where v = 0] demo_guard_wf [of 0] demo_g_simps(4,5)
      _ demo_rpc_allow allow, where calls = "[]"]
  obtain r s ps us c vs where "r \<in> set (db_sessions (demo_guard 0 [] []))" "gs_role s = sr_role r"
    "parse_uuid demo_g (sr_agent_id r) = Inr (gs_agent_id s)" "policies_now demo_g (demo_guard 0 [] []) = Inr ps" "concat (map p_rules ps) = us @ AllowIf c # vs"
    "cond_matches c (scored_context demo_cfg 10 s ''read'' ''doc'' ''read'')"
    by (auto simp: demo_request_def)
  moreover from this have "demo_rules = us @ AllowIf c # vs"
    using now by (auto simp: demo_policy_def)
  then have "AllowIf c \<in> set demo_rules" by (metis in_set_conv_decomp)
  moreover from calculation(1,3) have "gs_agent_id s = 2" by (simp add: admin_row_def demo_session_row_def)
  ultimately show ?thesis by auto
qed

text \<open>
  C2. Every check that returns a decision has logged that decision, with the session, the action, the
  resource and the risk of the request: as the next entry of the channel while the worker runs, and
  as a row otherwise. A check that fails on its session has logged the denial, at risk one. The log is
  untouched only when the policies could not be read, or the entry itself could not be written.
\<close>

theorem every_check_is_audited:
  assumes "check_access_with_task x cfg i ts now hour s action resource task g = (Done r, g')"
  shows "case r of
      Inr decision \<Rightarrow> logged x g g' (decide_entry (base_entry i ts s action resource) decision
        (compute_risk cfg hour (access_context s action resource task)))
    | Inl err \<Rightarrow>
        fst (assert_session_active x now s g) = Inl err \<and>
        logged x g g' (decide_entry (base_entry i ts s action resource)
          (Deny (error_to_string (sqlx_display x) err)) f64_one) \<or>
        guard_log g' = guard_log g \<and>
        (\<not> wr_running (gd_writer g) \<or>
         fst (evaluate x (scored_context cfg hour s action resource task)
           (snd (assert_session_active x now s g))) = Inl err)"
  by (cases rule: check_access_Done [OF assms]) (simp_all add: scored_context_def Let_def)

theorem every_check_is_audited_witness:
  "logged demo_g (demo_guard 0 [] []) (demo_guard 0 [demo_entry_logged] [demo_policy 1 demo_rules])
     demo_entry_logged"
  using every_check_is_audited [OF demo_guard_check] by simp

text \<open>
  C23. The entry of a decision can be read back: its risk is a finite number between zero and one, and
  the row that is written for it decodes to the entry itself, its time cut to milliseconds.
\<close>

theorem audited_entry_reads_back:
  assumes "check_access_with_task x cfg i ts now hour s action resource task g = (Done (Inr decision), g')"
    and "uuid_laws x" and "chrono_laws x" and "dt_ok x ts"
    and "e = decide_entry (base_entry i ts s action resource) decision
        (compute_risk cfg hour (access_context s action resource task))"
    and "json_rt x (ae_metadata e)" and "json_to_string x (ae_metadata e) = Inr m"
  shows "logged x g g' e \<and> (\<exists>k. ae_risk_score e = Fin k \<and> 0 \<le> k \<and> k \<le> 2 ^ 1074) \<and>
    row_to_audit_entry x (entry_to_row x e m) = Inr (e\<lparr>ae_ts := trunc_ms ts\<rparr>)"
proof -
  have "logged x g g' e"
    unfolding assms(5) by (cases rule: check_access_Done [OF assms(1)]) (simp_all add: scored_context_def Let_def)
  moreover have "ae_risk_score e = compute_risk cfg hour (access_context s action resource task)"
    by (simp add: assms(5) decide_entry_def)
  then have risk: "\<exists>k. ae_risk_score e = Fin k \<and> 0 \<le> k \<and> k \<le> 2 ^ 1074"
    using lit_tenths_range [OF min.cobounded1 risk_tenths_not_2] by (simp add: compute_risk_tenths)
  moreover have ts: "ae_ts e = ts"
    by (simp add: assms(5) decide_entry_def base_entry_def split: policy_decision.split)
  then have "row_to_audit_entry x (entry_to_row x e m) = Inr (e\<lparr>ae_ts := trunc_ms ts\<rparr>)"
    using entry_round_trip [OF assms(2,3) _ assms(6,7)] assms(4) risk by auto
  ultimately show ?thesis by blast
qed

theorem audited_entry_reads_back_witness:
  "row_to_audit_entry demo_g (entry_to_row demo_g demo_entry_logged ''{}'') = Inr (demo_entry_logged\<lparr>ae_ts := 6000000000\<rparr>)"
proof -
  have "dt_ok demo_g 6000000000" by (simp add: demo_g_def)
  from audited_entry_reads_back [OF demo_guard_check demo_g_simps(4,5) this refl, of "''{}''"]
  show ?thesis by (simp add: decide_entry_def base_entry_def json_to_string_def trunc_ms_def)
qed

section \<open>Sessions\<close>

text \<open>
  C3. Revocation over the service holds for good: once \<open>RevokeSession\<close> has answered for a session
  that is in the table, then after any further calls no request with a token of that session gets a
  decision, and \<open>ValidateSession\<close> never reports it valid.
\<close>

theorem revoked_session_is_denied:
  assumes "List.find (\<lambda>r. sr_id r = uuid_show x i) (db_sessions g) \<noteq> None"
    and "uuid_parse x i_text = Inr i"
    and "rpc_revoke_session x i_text g = (Inr True, g1)"
    and "g2 = fold (guard_call_step x cfg) calls g1"
    and "jwt_decode x (jwt_secret cfg) jwt_now (car_session_token q) = Inr claims"
    and "uuid_parse x (sc_sub claims) = Inr i"
  shows "fst (rpc_check_access x cfg jwt_now now0 new_id ts now hour q g2) \<noteq> Done (Inr resp) \<and>
    (\<exists>v. fst (rpc_validate_session x cfg jwt_now now0 (car_session_token q) g2) = Inr v \<and> \<not> vsp_valid v)"
proof -
  let ?find = "\<lambda>g. List.find (\<lambda>r. sr_id r = uuid_show x i) (db_sessions g)"
  obtain r0 where r0: "?find g = Some r0" using assms(1) by auto
  have "revoke_session x i g = (Inr (), g1)"
    using assms(2,3) by (auto simp: rpc_revoke_session_def rpc_uuid_def split: prod.splits sum.splits)
  then have "?find g1 = Some (r0\<lparr>sr_revoked := 1\<rparr>)"
    by (subst revoke_session_Inr [of x i g g1], assumption, subst session_ids.update_find) (simp_all add: r0)
  then obtain r where r: "?find g2 = Some r" "sr_revoked r \<noteq> 0"
    using guard_revocable.revoked_forever [of "uuid_show x i" g1 "r0\<lparr>sr_revoked := 1\<rparr>" x cfg calls]
    by (auto simp: assms(4))
  have rej: "fst (validate_session x cfg jwt_now now0 (car_session_token q) g2) \<noteq> Inr s" for s
  proof
    assume "fst (validate_session x cfg jwt_now now0 (car_session_token q) g2) = Inr s"
    then obtain c j r' rec where "jwt_decode x (jwt_secret cfg) jwt_now (car_session_token q) = Inr c"
      "parse_uuid x (sc_sub c) = Inr j" "List.find (\<lambda>r. sr_id r = uuid_show x j) (db_sessions g2) = Some r'"
      "row_to_session_record x r' = Inr rec" "\<not> se_revoked rec"
      by (rule validate_session_Inr)
    moreover from this have "j = i" using assms(5,6) by (simp add: parse_uuid_def)
    ultimately show False using r session_record_columns(7) by auto
  qed
  then have "\<exists>v. fst (rpc_validate_session x cfg jwt_now now0 (car_session_token q) g2) = Inr v \<and> \<not> vsp_valid v"
    by (cases "validate_session x cfg jwt_now now0 (car_session_token q) g2")
       (auto simp: rpc_validate_session_def split: sum.split)
  moreover have "fst (rpc_check_access x cfg jwt_now now0 new_id ts now hour q g2) \<noteq> Done (Inr resp)"
    using rej by (metis prod.collapse fst_conv rpc_check_access_Inr)
  ultimately show ?thesis by blast
qed

theorem revoked_session_is_denied_witness:
  "fst (rpc_check_access demo_g demo_cfg 6000000000 6000000000 9 6000000000 6000000000 10 demo_request
     (fold (guard_call_step demo_g demo_cfg) [Rpc_revoke_session ''u'', Rpc_list_policies, Writer_tick]
       (demo_guard 1 [] []))) \<noteq> Done (Inr (decision_response Allow))"
proof -
  have row: "List.find (\<lambda>r. sr_id r = uuid_show demo_g 1) (db_sessions (demo_guard 0 [] [])) = Some (admin_row 0)"
    by (simp add: admin_row_def demo_session_row_def)
  have uuid: "uuid_parse demo_g ''u'' = Inr 1"
    using demo_g_uuids(1) by (simp add: parse_uuid_def split: sum.splits)
  have revoked: "rpc_revoke_session demo_g ''u'' (demo_guard 0 [] []) = (Inr True, demo_guard 1 [] [])"
    using demo_revoked by (simp add: rpc_revoke_session_def rpc_uuid_def uuid)
  have token: "jwt_decode demo_g (jwt_secret demo_cfg) 6000000000 (car_session_token demo_request) =
      Inr (demo_claims 65)"
    by (simp add: demo_request_def demo_token)
  have "uuid_parse demo_g (sc_sub (demo_claims 65)) = Inr 1" by (simp add: demo_claims_def uuid)
  from revoked_session_is_denied [OF _ uuid revoked refl token this] row show ?thesis by (metis option.distinct(1))
qed

section \<open>The invariant of the service\<close>

text \<open>
  C5. A guard that was opened on a sound database keeps its invariant through any sequence of
  service calls, key operations and steps of the background task: identifiers, names and key hashes
  stay unique, the policy cache holds what a load would give, and the audit batch and channel stay
  within their sizes.
\<close>

theorem guard_invariant:
  assumes "guard_new x oc cfg draw dir d = Done (Inr g0)" and "db_wf d" and "ids_shown x (db_policies d)"
  shows "guard_inv x (fold (guard_call_step x cfg) calls g0)"
  by (intro guard_calls_inv guard_new_inv [OF assms])

theorem guard_invariant_witness:
  "guard_inv demo_g (fold (guard_call_step demo_g demo_cfg)
     [Rpc_check_access 6000000000 6000000000 9 6000000000 6000000000 10 demo_request, Rpc_revoke_session ''u'', Writer_recv]
     (demo_guard 0 [] []))"
  using guard_invariant [OF demo_guard_new [where v = 0] demo_guard_wf [of 0]] .

end
